theory Spec2Isabelle
  imports Complex_Main
begin


section \<open>Device memory and the element-wise asin kernel\<close>

text \<open>
  The kernels of the two notebooks run on a device whose memory is addressed by element.
  A pointer is an address; pointer arithmetic adds element offsets. The device state also
  records every address a \<open>tl.load\<close> has read and every address a \<open>tl.store\<close> has
  written, so that statements about which lanes touch memory are statements about the
  kernel's own run. Values are kept abstract (type \<open>'v\<close>): rounding is not modelled.

  Program ids, sizes and offsets are natural numbers (they are never negative in the
  notebooks); 32-bit overflow of index arithmetic is not modelled.
\<close>

type_synonym 'v memory = "nat \<Rightarrow> 'v"

record 'v device =
  mem :: "'v memory"
  loads :: "nat list"
  stores :: "nat list"

definition write_cell :: "'v device \<Rightarrow> nat \<Rightarrow> 'v \<Rightarrow> 'v device" where
  "write_cell d p v = d\<lparr>mem := (mem d)(p := v), stores := stores d @ [p]\<rparr>"

text \<open>\<open>tl.arange(0, n)\<close>\<close>

definition arange :: "nat \<Rightarrow> nat list" where
  "arange n = [0..<n]"

text \<open>
  \<open>tl.load(ptrs, mask=mask)\<close> on a block of pointers: a lane whose mask is true reads its
  address; a masked-out lane reads nothing and (no \<open>other\<close> being given) holds a value the
  language leaves unspecified, here the parameter \<open>undef\<close>.
\<close>

definition tl_load :: "'v \<Rightarrow> 'v device \<Rightarrow> nat list \<Rightarrow> bool list \<Rightarrow> 'v list \<times> 'v device" where
  "tl_load undef d ptrs msk =
     (map (\<lambda>(p, m). if m then mem d p else undef) (zip ptrs msk),
      d\<lparr>loads := loads d @ map fst (filter snd (zip ptrs msk))\<rparr>)"

text \<open>\<open>tl.store(ptrs, vals, mask=mask)\<close>: lane by lane, only where the mask is true.\<close>

fun tl_store :: "'v device \<Rightarrow> nat list \<Rightarrow> 'v list \<Rightarrow> bool list \<Rightarrow> 'v device" where
  "tl_store d (p # ps) (v # vs) (m # ms) = tl_store (if m then write_cell d p v else d) ps vs ms"
| "tl_store d _ _ _ = d"

text \<open>
  \<open>asin_kernel(x_ptr, y_ptr, n_elements, BLOCK_SIZE)\<close> as run by the program with id
  \<open>pid\<close>. \<open>tl.math.asin\<close> is the device library's function, a parameter here.
\<close>

definition asin_kernel ::
  "('v \<Rightarrow> 'v) \<Rightarrow> 'v \<Rightarrow> nat \<Rightarrow> nat \<Rightarrow> nat \<Rightarrow> nat \<Rightarrow> nat \<Rightarrow> 'v device \<Rightarrow> 'v device" where
  "asin_kernel asin undef x_ptr y_ptr n_elements BLOCK_SIZE pid d =
     (let block_start = pid * BLOCK_SIZE;
          offsets = map (\<lambda>l. block_start + l) (arange BLOCK_SIZE);
          msk = map (\<lambda>off. off < n_elements) offsets;
          (x, d1) = tl_load undef d (map (\<lambda>off. x_ptr + off) offsets) msk;
          x' = map asin x
      in tl_store d1 (map (\<lambda>off. y_ptr + off) offsets) x' msk)"

text \<open>
  What the notebooks can raise: an \<open>AssertionError\<close> with its message, a
  \<open>ZeroDivisionError\<close>, the launcher's \<open>ValueError\<close> for the pointer argument at the
  given position ("Pointer argument (at i) cannot be accessed from Triton (cpu tensor?)"),
  and the host library's \<open>RuntimeError\<close>.
\<close>

datatype error = AssertionError string | ZeroDivisionError | ValueError nat | RuntimeError

text \<open>\<open>triton.cdiv(x, y)\<close> is \<open>(x + y - 1) // y\<close>; Python raises on a zero divisor.\<close>

definition cdiv :: "nat \<Rightarrow> nat \<Rightarrow> nat" where
  "cdiv x y = (x + y - 1) div y"

definition py_cdiv :: "nat \<Rightarrow> nat \<Rightarrow> error + nat" where
  "py_cdiv x y = (if y = 0 then Inl ZeroDivisionError else Inr (cdiv x y))"

text \<open>
  A launch \<open>kernel[grid](...)\<close> on a one-dimensional grid runs one program per id
  \<open>0, ..., grid - 1\<close>. The programs share nothing but device memory; they are run one
  after the other here.
\<close>

definition run_grid :: "(nat \<Rightarrow> 'v device \<Rightarrow> 'v device) \<Rightarrow> nat \<Rightarrow> 'v device \<Rightarrow> 'v device" where
  "run_grid kern grid d = fold kern [0..<grid] d"

text \<open>
  \<open>grid = lambda meta: (triton.cdiv(n_elements, meta['BLOCK_SIZE']), )\<close> followed by
  \<open>asin_kernel[grid](x, output_triton, n_elements, BLOCK_SIZE=...)\<close>.
\<close>

definition asin_launch ::
  "('v \<Rightarrow> 'v) \<Rightarrow> 'v \<Rightarrow> nat \<Rightarrow> nat \<Rightarrow> nat \<Rightarrow> nat \<Rightarrow> 'v device \<Rightarrow> error + 'v device" where
  "asin_launch asin undef x_ptr y_ptr n_elements BLOCK_SIZE d =
     (case py_cdiv n_elements BLOCK_SIZE of
        Inl e \<Rightarrow> Inl e
      | Inr grid \<Rightarrow> Inr (run_grid (asin_kernel asin undef x_ptr y_ptr n_elements BLOCK_SIZE) grid d))"

text \<open>
  When a kernel is launched on tensors, the launcher refuses the first pointer argument
  whose tensor is not on the device. The list holds, argument by argument, whether the
  tensor is on the device; \<open>i\<close> is the position of its head.
\<close>

fun device_check :: "nat \<Rightarrow> bool list \<Rightarrow> error + unit" where
  "device_check i [] = Inr ()"
| "device_check i (on_device # rest) =
     (if on_device then device_check (Suc i) rest else Inl (ValueError i))"


section \<open>Block pointers\<close>

text \<open>
  A tensor element type, and a typed pointer: an address together with the element type
  it points to. The matrices of the second notebook are \<open>float16\<close>; the kernel's
  accumulator is \<open>float32\<close>.
\<close>

datatype dtype = Float16 | Float32

record pointer =
  addr :: nat
  elem_ty :: dtype

text \<open>
  A block of values in registers: its element type, its static shape and its elements.
  Only the elements inside the shape are ever used.
\<close>

record 'v block =
  blk_dtype :: dtype
  blk_shape :: "nat \<times> nat"
  blk_elem :: "nat \<Rightarrow> nat \<Rightarrow> 'v"

text \<open>
  \<open>tl.make_block_ptr(base, shape, strides, offsets, block_shape, order)\<close>: a handle on a
  rectangular block of a parent tensor. \<open>order\<close> is a layout hint without effect on
  which elements are addressed.
\<close>

record block_ptr =
  bp_base :: pointer
  bp_shape :: "nat \<times> nat"
  bp_strides :: "nat \<times> nat"
  bp_offsets :: "nat \<times> nat"
  bp_block_shape :: "nat \<times> nat"
  bp_order :: "nat \<times> nat"

definition make_block_ptr ::
  "pointer \<Rightarrow> nat \<times> nat \<Rightarrow> nat \<times> nat \<Rightarrow> nat \<times> nat \<Rightarrow> nat \<times> nat \<Rightarrow> nat \<times> nat \<Rightarrow> block_ptr" where
  "make_block_ptr base shape strides offsets block_shape order =
     \<lparr>bp_base = base, bp_shape = shape, bp_strides = strides, bp_offsets = offsets,
      bp_block_shape = block_shape, bp_order = order\<rparr>"

text \<open>\<open>tl.advance(ptr, (d0, d1))\<close>: the same block pointer with its offsets moved.\<close>

definition advance :: "block_ptr \<Rightarrow> nat \<times> nat \<Rightarrow> block_ptr" where
  "advance bp delta =
     bp\<lparr>bp_offsets := (fst (bp_offsets bp) + fst delta, snd (bp_offsets bp) + snd delta)\<rparr>"

text \<open>
  Lane \<open>(i, j)\<close> of a block pointer addresses element
  \<open>(offset0 + i, offset1 + j)\<close> of the parent. With axis \<open>ax\<close> in \<open>boundary_check\<close>
  the lane is masked when its coordinate on that axis is not below the parent's shape.
\<close>

definition lane_addr :: "block_ptr \<Rightarrow> nat \<Rightarrow> nat \<Rightarrow> nat" where
  "lane_addr bp i j =
     addr (bp_base bp) + (fst (bp_offsets bp) + i) * fst (bp_strides bp)
                       + (snd (bp_offsets bp) + j) * snd (bp_strides bp)"

definition lane_in_bounds :: "nat list \<Rightarrow> block_ptr \<Rightarrow> nat \<Rightarrow> nat \<Rightarrow> bool" where
  "lane_in_bounds boundary_check bp i j \<longleftrightarrow>
     (0 \<in> set boundary_check \<longrightarrow> fst (bp_offsets bp) + i < fst (bp_shape bp)) \<and>
     (1 \<in> set boundary_check \<longrightarrow> snd (bp_offsets bp) + j < snd (bp_shape bp))"

definition block_lanes :: "block_ptr \<Rightarrow> (nat \<times> nat) list" where
  "block_lanes bp = List.product [0..<fst (bp_block_shape bp)] [0..<snd (bp_block_shape bp)]"

text \<open>
  \<open>tl.load(block_ptr, boundary_check=...)\<close>. A lane that passes the boundary check reads
  its address. The notebook says that a lane that fails it is filled according to
  \<open>padding_option\<close> (\<open>zero\<close> or \<open>nan\<close>); the kernel passes no \<open>padding_option\<close>, so
  the fill is not determined by the source. It is the parameter \<open>oob\<close>, which may depend
  on the parent tensor and on the coordinates of the element that is out of bounds.
\<close>

definition load_block ::
  "(nat \<Rightarrow> nat \<Rightarrow> nat \<Rightarrow> 'v) \<Rightarrow> 'v device \<Rightarrow> block_ptr \<Rightarrow> nat list \<Rightarrow> 'v block \<times> 'v device" where
  "load_block oob d bp boundary_check =
     (\<lparr>blk_dtype = elem_ty (bp_base bp), blk_shape = bp_block_shape bp,
       blk_elem = (\<lambda>i j. if lane_in_bounds boundary_check bp i j then mem d (lane_addr bp i j)
                          else oob (addr (bp_base bp)) (fst (bp_offsets bp) + i) (snd (bp_offsets bp) + j))\<rparr>,
      d\<lparr>loads := loads d @ map (\<lambda>(i, j). lane_addr bp i j)
                            (filter (\<lambda>(i, j). lane_in_bounds boundary_check bp i j) (block_lanes bp))\<rparr>)"

text \<open>
  \<open>tl.store(block_ptr, value, boundary_check=...)\<close>. The language refuses, with an
  \<open>AssertionError\<close>, a value block whose element type is not the element type the block
  pointer points to. Otherwise every lane that passes the boundary check is written.
\<close>

fun dtype_name :: "dtype \<Rightarrow> string" where
  "dtype_name Float16 = ''fp16''"
| "dtype_name Float32 = ''fp32''"

definition element_type_mismatch :: "dtype \<Rightarrow> dtype \<Rightarrow> string" where
  "element_type_mismatch ptr_ty val_ty =
     ''Block element type('' @ dtype_name ptr_ty @ '') and value element type(''
       @ dtype_name val_ty @ '') mismatch''"

definition write_lanes :: "'v device \<Rightarrow> block_ptr \<Rightarrow> 'v block \<Rightarrow> nat list \<Rightarrow> 'v device" where
  "write_lanes d bp blk boundary_check =
     fold (\<lambda>(i, j) d'. if lane_in_bounds boundary_check bp i j
                        then write_cell d' (lane_addr bp i j) (blk_elem blk i j) else d')
          (block_lanes bp) d"

definition store_block :: "'v device \<Rightarrow> block_ptr \<Rightarrow> 'v block \<Rightarrow> nat list \<Rightarrow> error + 'v device" where
  "store_block d bp blk boundary_check =
     (if elem_ty (bp_base bp) \<noteq> blk_dtype blk
      then Inl (AssertionError (element_type_mismatch (elem_ty (bp_base bp)) (blk_dtype blk)))
      else Inr (write_lanes d bp blk boundary_check))"

subsection \<open>Block arithmetic\<close>

text \<open>
  Arithmetic on values is exact (\<open>'v\<close> is any semiring): the rounding of floating-point
  operations is not modelled. The one conversion the kernel performs explicitly,
  \<open>accumulator.to(tl.float16)\<close>, applies the parameter \<open>cast\<close> to each element.
\<close>

definition zeros :: "nat \<times> nat \<Rightarrow> dtype \<Rightarrow> ('v::semiring_0) block" where
  "zeros shape dt = \<lparr>blk_dtype = dt, blk_shape = shape, blk_elem = (\<lambda>i j. 0)\<rparr>"

text \<open>\<open>tl.dot(a, b)\<close>: the product of two blocks, in \<open>float32\<close> (the default \<open>out_dtype\<close>).\<close>

definition dot :: "('v::semiring_0) block \<Rightarrow> 'v block \<Rightarrow> 'v block" where
  "dot a b =
     \<lparr>blk_dtype = Float32, blk_shape = (fst (blk_shape a), snd (blk_shape b)),
      blk_elem = (\<lambda>i j. \<Sum>k\<leftarrow>[0..<snd (blk_shape a)]. blk_elem a i k * blk_elem b k j)\<rparr>"

text \<open>Binary arithmetic promotes to the wider element type.\<close>

fun promote :: "dtype \<Rightarrow> dtype \<Rightarrow> dtype" where
  "promote Float16 Float16 = Float16"
| "promote _ _ = Float32"

definition block_add :: "('v::semiring_0) block \<Rightarrow> 'v block \<Rightarrow> 'v block" where
  "block_add x y =
     \<lparr>blk_dtype = promote (blk_dtype x) (blk_dtype y), blk_shape = blk_shape x,
      blk_elem = (\<lambda>i j. blk_elem x i j + blk_elem y i j)\<rparr>"

definition block_to :: "(dtype \<Rightarrow> 'v \<Rightarrow> 'v) \<Rightarrow> 'v block \<Rightarrow> dtype \<Rightarrow> 'v block" where
  "block_to cast x dt = x\<lparr>blk_dtype := dt, blk_elem := (\<lambda>i j. cast dt (blk_elem x i j))\<rparr>"

section \<open>The matrix multiplication kernel\<close>

text \<open>The tuning parameters of one \<open>triton.Config\<close>.\<close>

record config =
  BLOCK_SIZE_M :: nat
  BLOCK_SIZE_N :: nat
  BLOCK_SIZE_K :: nat
  GROUP_SIZE_M :: nat
  num_stages :: nat
  num_warps :: nat

text \<open>The run-time arguments of \<open>matmul_kernel_with_block_pointers\<close>.\<close>

record kernel_args =
  a_ptr :: pointer
  b_ptr :: pointer
  c_ptr :: pointer
  dim_M :: nat
  dim_N :: nat
  dim_K :: nat
  stride_am :: nat
  stride_ak :: nat
  stride_bk :: nat
  stride_bn :: nat
  stride_cm :: nat
  stride_cn :: nat

text \<open>
  The first part of the kernel: the grouped mapping of the program id to the tile
  \<open>(pid_m, pid_n)\<close> of \<open>C\<close> it computes.
\<close>

definition pid_to_tile :: "nat \<Rightarrow> nat \<Rightarrow> nat \<Rightarrow> nat \<Rightarrow> nat \<Rightarrow> nat \<Rightarrow> nat \<times> nat" where
  "pid_to_tile M N BSM BSN GSM pid =
     (let num_pid_m = cdiv M BSM;
          num_pid_n = cdiv N BSN;
          num_pid_in_group = GSM * num_pid_n;
          group_id = pid div num_pid_in_group;
          first_pid_m = group_id * GSM;
          group_size_m = min (num_pid_m - first_pid_m) GSM;
          pid_m = first_pid_m + (pid mod group_size_m);
          pid_n = (pid mod num_pid_in_group) div group_size_m
      in (pid_m, pid_n))"

text \<open>The state of the \<open>K\<close> loop: the device, the two sliding block pointers, the accumulator.\<close>

record 'v loop_state =
  ls_device :: "'v device"
  a_block_ptr :: block_ptr
  b_block_ptr :: block_ptr
  accumulator :: "'v block"

definition loop_body ::
  "(nat \<Rightarrow> nat \<Rightarrow> nat \<Rightarrow> 'v) \<Rightarrow> nat \<Rightarrow> ('v::semiring_0) loop_state \<Rightarrow> 'v loop_state" where
  "loop_body oob BSK s =
     (let (a, d1) = load_block oob (ls_device s) (a_block_ptr s) [0, 1];
          (b, d2) = load_block oob d1 (b_block_ptr s) [0, 1]
      in \<lparr>ls_device = d2,
          a_block_ptr = advance (a_block_ptr s) (0, BSK),
          b_block_ptr = advance (b_block_ptr s) (BSK, 0),
          accumulator = block_add (accumulator s) (dot a b)\<rparr>)"

text \<open>
  \<open>for k in range(0, K, BLOCK_SIZE_K)\<close>. The step is positive in every declared
  configuration; with a zero step the model runs no iteration.
\<close>

function k_loop ::
  "(nat \<Rightarrow> nat \<Rightarrow> nat \<Rightarrow> 'v) \<Rightarrow> nat \<Rightarrow> nat \<Rightarrow> nat \<Rightarrow> ('v::semiring_0) loop_state \<Rightarrow> 'v loop_state" where
  "k_loop oob BSK K k s =
     (if k < K \<and> 0 < BSK then k_loop oob BSK K (k + BSK) (loop_body oob BSK s) else s)"
  by pat_completeness auto
termination
  by (relation "measure (\<lambda>(oob, BSK, K, k, s). K - k)") auto

declare k_loop.simps [simp del]

definition matmul_kernel_with_block_pointers ::
  "(dtype \<Rightarrow> 'v \<Rightarrow> 'v) \<Rightarrow> (nat \<Rightarrow> nat \<Rightarrow> nat \<Rightarrow> 'v) \<Rightarrow> kernel_args \<Rightarrow> config \<Rightarrow> nat
     \<Rightarrow> ('v::semiring_0) device \<Rightarrow> error + 'v device" where
  "matmul_kernel_with_block_pointers cast oob ka cfg pid d =
     (let M = dim_M ka; N = dim_N ka; K = dim_K ka;
          BSM = BLOCK_SIZE_M cfg; BSN = BLOCK_SIZE_N cfg; BSK = BLOCK_SIZE_K cfg;
          (pid_m, pid_n) = pid_to_tile M N BSM BSN (GROUP_SIZE_M cfg) pid;
          a_bp = make_block_ptr (a_ptr ka) (M, K) (stride_am ka, stride_ak ka)
                   (pid_m * BSM, 0) (BSM, BSK) (1, 0);
          b_bp = make_block_ptr (b_ptr ka) (K, N) (stride_bk ka, stride_bn ka)
                   (0, pid_n * BSN) (BSK, BSN) (1, 0);
          s = k_loop oob BSK K 0
                \<lparr>ls_device = d, a_block_ptr = a_bp, b_block_ptr = b_bp,
                 accumulator = zeros (BSM, BSN) Float32\<rparr>;
          c = block_to cast (accumulator s) Float16;
          c_bp = make_block_ptr (c_ptr ka) (M, N) (stride_cm ka, stride_cn ka)
                   (pid_m * BSM, pid_n * BSN) (BSM, BSN) (1, 0)
      in store_block (ls_device s) c_bp c [0, 1])"

section \<open>The host side of the matrix multiplication\<close>

text \<open>A two-dimensional tensor of the host library: where it lives and how it is laid out.\<close>

record tensor =
  data_ptr :: nat
  t_dtype :: dtype
  t_shape :: "nat \<times> nat"
  t_stride :: "nat \<times> nat"
  is_cuda :: bool

text \<open>
  \<open>is_contiguous()\<close>: an empty tensor is contiguous; otherwise every axis of size other
  than one must have the row-major stride.
\<close>

definition is_contiguous :: "tensor \<Rightarrow> bool" where
  "is_contiguous t \<longleftrightarrow>
     (let (m, n) = t_shape t; (s0, s1) = t_stride t
      in m * n = 0 \<or> ((n = 1 \<or> s1 = 1) \<and> (m = 1 \<or> s0 = n)))"

text \<open>
  The host state: the device, the first address the allocator has not handed out, the
  number of kernel launches so far, and the lines printed so far.
\<close>

record 'v host =
  device :: "'v device"
  brk :: nat
  launches :: nat
  stdout :: "string list"

text \<open>\<open>torch.empty((m, n), device=..., dtype=...)\<close>: fresh, uninitialised, row-major.\<close>

definition torch_empty :: "'v host \<Rightarrow> nat \<times> nat \<Rightarrow> bool \<Rightarrow> dtype \<Rightarrow> tensor \<times> 'v host" where
  "torch_empty h shape dev dt =
     (\<lparr>data_ptr = brk h, t_dtype = dt, t_shape = shape,
       t_stride = (max (snd shape) 1, 1), is_cuda = dev\<rparr>,
      h\<lparr>brk := brk h + fst shape * snd shape\<rparr>)"

definition tensor_ptr :: "tensor \<Rightarrow> pointer" where
  "tensor_ptr t = \<lparr>addr = data_ptr t, elem_ty = t_dtype t\<rparr>"

text \<open>
  A kernel is compiled when it is launched, before any program runs and whatever the
  size of the grid: the kernel's body is traced once, and what the language raises on
  the way is raised by the launch. The trace is the run of program 0 with its effects
  discarded.
\<close>

definition compile_kernel :: "(nat \<Rightarrow> 'v device \<Rightarrow> error + 'v device) \<Rightarrow> 'v device \<Rightarrow> error + unit" where
  "compile_kernel kern d = (case kern 0 d of Inl e \<Rightarrow> Inl e | Inr d' \<Rightarrow> Inr ())"

text \<open>The programs of the grid, one after the other; a program that raises ends the run.\<close>

definition run_programs ::
  "(nat \<Rightarrow> 'v device \<Rightarrow> error + 'v device) \<Rightarrow> nat \<Rightarrow> 'v device \<Rightarrow> error + 'v device" where
  "run_programs kern grid d =
     fold (\<lambda>pid r. case r of Inl e \<Rightarrow> Inl e | Inr d' \<Rightarrow> kern pid d') [0..<grid] (Inr d)"

text \<open>
  \<open>matmul(a, b)\<close>. The configuration \<open>cfg\<close> is the one the autotuner has selected for
  this launch. An assertion of the wrapper that fails raises before anything is allocated
  or launched. The launch evaluates the grid, compiles the kernel, hands the three
  tensors to the launcher and runs the programs; when it raises, no program has had an
  effect.
\<close>

definition matmul ::
  "(dtype \<Rightarrow> 'v \<Rightarrow> 'v) \<Rightarrow> (nat \<Rightarrow> nat \<Rightarrow> nat \<Rightarrow> 'v) \<Rightarrow> config \<Rightarrow> ('v::semiring_0) host \<Rightarrow> tensor \<Rightarrow> tensor
     \<Rightarrow> (error + tensor) \<times> 'v host" where
  "matmul cast oob cfg h a b =
     (if snd (t_shape a) \<noteq> fst (t_shape b) then (Inl (AssertionError ''Incompatible dimensions''), h)
      else if \<not> is_contiguous a then (Inl (AssertionError ''Matrix A must be contiguous''), h)
      else if \<not> is_contiguous b then (Inl (AssertionError ''Matrix B must be contiguous''), h)
      else
        let (M, K) = t_shape a;
            (K, N) = t_shape b;
            (c, h1) = torch_empty h (M, N) (is_cuda a) (t_dtype a)
        in case py_cdiv M (BLOCK_SIZE_M cfg) of Inl e \<Rightarrow> (Inl e, h1) | Inr gm \<Rightarrow>
           (case py_cdiv N (BLOCK_SIZE_N cfg) of Inl e \<Rightarrow> (Inl e, h1) | Inr gn \<Rightarrow>
             let grid = gm * gn;
                 ka = \<lparr>a_ptr = tensor_ptr a, b_ptr = tensor_ptr b, c_ptr = tensor_ptr c,
                       dim_M = M, dim_N = N, dim_K = K,
                       stride_am = fst (t_stride a), stride_ak = snd (t_stride a),
                       stride_bk = fst (t_stride b), stride_bn = snd (t_stride b),
                       stride_cm = fst (t_stride c), stride_cn = snd (t_stride c)\<rparr>;
                 kern = matmul_kernel_with_block_pointers cast oob ka cfg
             in case compile_kernel kern (device h1) of Inl e \<Rightarrow> (Inl e, h1) | Inr u \<Rightarrow>
                (case device_check 0 [is_cuda a, is_cuda b, is_cuda c] of Inl e \<Rightarrow> (Inl e, h1) | Inr u \<Rightarrow>
                 (case run_programs kern grid (device h1) of Inl e \<Rightarrow> (Inl e, h1)
                  | Inr d' \<Rightarrow> (Inr c, h1\<lparr>device := d', launches := launches h1 + 1\<rparr>)))))"


section \<open>Autotuning\<close>

text \<open>The list given to \<open>triton.autotune(configs=[...], key=['M', 'N', 'K'])\<close>.\<close>

definition configs :: "config list" where
  "configs =
     [\<lparr>BLOCK_SIZE_M = 128, BLOCK_SIZE_N = 256, BLOCK_SIZE_K = 64, GROUP_SIZE_M = 8, num_stages = 4, num_warps = 4\<rparr>,
      \<lparr>BLOCK_SIZE_M = 64, BLOCK_SIZE_N = 256, BLOCK_SIZE_K = 32, GROUP_SIZE_M = 8, num_stages = 4, num_warps = 4\<rparr>,
      \<lparr>BLOCK_SIZE_M = 128, BLOCK_SIZE_N = 128, BLOCK_SIZE_K = 32, GROUP_SIZE_M = 8, num_stages = 4, num_warps = 4\<rparr>,
      \<lparr>BLOCK_SIZE_M = 128, BLOCK_SIZE_N = 64, BLOCK_SIZE_K = 32, GROUP_SIZE_M = 8, num_stages = 4, num_warps = 4\<rparr>,
      \<lparr>BLOCK_SIZE_M = 64, BLOCK_SIZE_N = 128, BLOCK_SIZE_K = 32, GROUP_SIZE_M = 8, num_stages = 4, num_warps = 4\<rparr>,
      \<lparr>BLOCK_SIZE_M = 128, BLOCK_SIZE_N = 32, BLOCK_SIZE_K = 32, GROUP_SIZE_M = 8, num_stages = 4, num_warps = 4\<rparr>,
      \<lparr>BLOCK_SIZE_M = 64, BLOCK_SIZE_N = 32, BLOCK_SIZE_K = 32, GROUP_SIZE_M = 8, num_stages = 5, num_warps = 2\<rparr>,
      \<lparr>BLOCK_SIZE_M = 32, BLOCK_SIZE_N = 64, BLOCK_SIZE_K = 32, GROUP_SIZE_M = 8, num_stages = 5, num_warps = 2\<rparr>]"

definition autotune_key :: "string list" where
  "autotune_key = [''M'', ''N'', ''K'']"

text \<open>The value of a named integer argument of the kernel, and the key of a launch.\<close>

definition arg_value :: "kernel_args \<Rightarrow> string \<Rightarrow> nat option" where
  "arg_value ka name =
     (if name = ''M'' then Some (dim_M ka)
      else if name = ''N'' then Some (dim_N ka)
      else if name = ''K'' then Some (dim_K ka)
      else if name = ''stride_am'' then Some (stride_am ka)
      else if name = ''stride_ak'' then Some (stride_ak ka)
      else if name = ''stride_bk'' then Some (stride_bk ka)
      else if name = ''stride_bn'' then Some (stride_bn ka)
      else if name = ''stride_cm'' then Some (stride_cm ka)
      else if name = ''stride_cn'' then Some (stride_cn ka)
      else None)"

definition launch_key :: "kernel_args \<Rightarrow> nat option list" where
  "launch_key ka = map (arg_value ka) autotune_key"

text \<open>
  Modelled from the spec: the autotuner itself (\<open>triton.autotune\<close>) is not among the
  sources. The spec describes it as selecting among the fixed list of configurations,
  cached by key. A key that is in the cache gets the cached configuration. A key that is
  not is benchmarked: \<open>timing\<close> is what the benchmark of this launch measures for each
  configuration (it may differ from launch to launch), the first configuration with the
  least time is selected and cached.
\<close>

type_synonym tune_cache = "nat option list \<Rightarrow> config option"

fun best_config :: "(config \<Rightarrow> nat) \<Rightarrow> config \<Rightarrow> config list \<Rightarrow> config" where
  "best_config timing best [] = best"
| "best_config timing best (c # cs) = best_config timing (if timing c < timing best then c else best) cs"

definition autotune :: "tune_cache \<Rightarrow> (config \<Rightarrow> nat) \<Rightarrow> nat option list \<Rightarrow> config \<times> tune_cache" where
  "autotune cache timing key =
     (case cache key of
        Some c \<Rightarrow> (c, cache)
      | None \<Rightarrow> (let c = best_config timing (hd configs) (tl configs) in (c, cache(key \<mapsto> c))))"

text \<open>The configurations used by a sequence of launches, each with its own benchmark.\<close>

fun tuned_launches :: "tune_cache \<Rightarrow> ((config \<Rightarrow> nat) \<times> kernel_args) list \<Rightarrow> config list" where
  "tuned_launches cache [] = []"
| "tuned_launches cache (l # rest) =
     (let (c, cache') = autotune cache (fst l) (launch_key (snd l)) in c # tuned_launches cache' rest)"


section \<open>The notebook cells that launch and check\<close>

subsection \<open>Tensors the host library creates\<close>

text \<open>
  A one-dimensional tensor of the first notebook: where it starts, how many elements it
  has, and whether it is on the device.
\<close>

record tensor1 =
  ptr1 :: nat
  numel :: nat
  on_cuda :: bool

definition tensor1_values :: "'v memory \<Rightarrow> tensor1 \<Rightarrow> 'v list" where
  "tensor1_values m t = map (\<lambda>i. m (ptr1 t + i)) [0..<numel t]"

text \<open>
  The host library writes the \<open>n\<close> elements of a tensor that starts at \<open>p\<close>: element \<open>i\<close>
  becomes \<open>init i\<close>. These are not stores of a kernel and are not in the device's log.
\<close>

definition fill_from :: "'v host \<Rightarrow> nat \<Rightarrow> nat \<Rightarrow> (nat \<Rightarrow> 'v) \<Rightarrow> 'v host" where
  "fill_from h p n init =
     h\<lparr>device := (device h)\<lparr>mem := (\<lambda>q. if p \<le> q \<and> q < p + n then init (q - p) else mem (device h) q)\<rparr>\<rparr>"

text \<open>\<open>torch.empty_like(x)\<close>: fresh and uninitialised, of the size and on the device of \<open>x\<close>.\<close>

definition torch_empty_like :: "'v host \<Rightarrow> tensor1 \<Rightarrow> tensor1 \<times> 'v host" where
  "torch_empty_like h x =
     (\<lparr>ptr1 = brk h, numel = numel x, on_cuda = on_cuda x\<rparr>, h\<lparr>brk := brk h + numel x\<rparr>)"

text \<open>
  \<open>torch.rand(n, device=...)\<close> after \<open>torch.manual_seed(0)\<close>: element \<open>i\<close> is \<open>rand i\<close>,
  the \<open>i\<close>-th number the seeded generator yields. \<open>dev\<close> says whether the device is
  \<open>'cuda'\<close>.
\<close>

definition torch_rand :: "(nat \<Rightarrow> 'v) \<Rightarrow> 'v host \<Rightarrow> nat \<Rightarrow> bool \<Rightarrow> tensor1 \<times> 'v host" where
  "torch_rand rand h n dev =
     (\<lparr>ptr1 = brk h, numel = n, on_cuda = dev\<rparr>, fill_from (h\<lparr>brk := brk h + n\<rparr>) (brk h) n rand)"

text \<open>\<open>torch.zeros(n, device=...)\<close>\<close>

definition torch_zeros :: "('v::zero) host \<Rightarrow> nat \<Rightarrow> bool \<Rightarrow> tensor1 \<times> 'v host" where
  "torch_zeros h n dev =
     (\<lparr>ptr1 = brk h, numel = n, on_cuda = dev\<rparr>, fill_from (h\<lparr>brk := brk h + n\<rparr>) (brk h) n (\<lambda>i. 0))"

text \<open>
  \<open>torch.asin(x)\<close>: a new tensor, of the size and on the device of \<open>x\<close>, that holds the
  host library's \<open>asin\<close> (the parameter \<open>ref_asin\<close>) of every element of \<open>x\<close>.
\<close>

definition torch_asin :: "('v \<Rightarrow> 'v) \<Rightarrow> 'v host \<Rightarrow> tensor1 \<Rightarrow> tensor1 \<times> 'v host" where
  "torch_asin ref_asin h x =
     (\<lparr>ptr1 = brk h, numel = numel x, on_cuda = on_cuda x\<rparr>,
      fill_from (h\<lparr>brk := brk h + numel x\<rparr>) (brk h) (numel x)
        (\<lambda>i. ref_asin (mem (device h) (ptr1 x + i))))"

text \<open>
  Element-wise subtraction of two one-dimensional tensors, on their values. A tensor of
  one element is broadcast to the size of the other; any other difference of sizes
  raises.
\<close>

definition broadcast :: "'v list \<Rightarrow> nat \<Rightarrow> 'v list" where
  "broadcast xs n = (if length xs = 1 then replicate n (hd xs) else xs)"

definition torch_sub :: "('v::minus) list \<Rightarrow> 'v list \<Rightarrow> error + 'v list" where
  "torch_sub xs ys =
     (if length xs = length ys \<or> length xs = 1 \<or> length ys = 1
      then Inr (map (\<lambda>(x, y). x - y) (zip (broadcast xs (length ys)) (broadcast ys (length xs))))
      else Inl RuntimeError)"

text \<open>\<open>torch.abs\<close>, and \<open>torch.max\<close> of all elements; the latter raises on an empty tensor.\<close>

definition torch_abs :: "('v::abs) list \<Rightarrow> 'v list" where
  "torch_abs xs = map abs xs"

definition torch_max :: "('v::linorder) list \<Rightarrow> error + 'v" where
  "torch_max xs = (case xs of [] \<Rightarrow> Inl RuntimeError | x # rest \<Rightarrow> Inr (fold max rest x))"

subsection \<open>The first notebook\<close>

text \<open>
  \<open>asin_kernel[grid](x, y, n_elements, BLOCK_SIZE=...)\<close> on two tensors. The launch
  evaluates the grid; the launcher then checks the tensors behind the pointer arguments;
  only then do the programs run: \<open>d'\<close>, the device after they have run, is used when the
  check has passed.
\<close>

definition launch_asin_kernel ::
  "('v \<Rightarrow> 'v) \<Rightarrow> 'v \<Rightarrow> tensor1 \<Rightarrow> tensor1 \<Rightarrow> nat \<Rightarrow> nat \<Rightarrow> 'v host \<Rightarrow> (error + unit) \<times> 'v host" where
  "launch_asin_kernel asin undef x y n_elements BLOCK_SIZE h =
     (case asin_launch asin undef (ptr1 x) (ptr1 y) n_elements BLOCK_SIZE (device h) of
        Inl e \<Rightarrow> (Inl e, h)
      | Inr d' \<Rightarrow>
          (case device_check 0 [on_cuda x, on_cuda y] of
             Inl e \<Rightarrow> (Inl e, h)
           | Inr u \<Rightarrow> (Inr (), h\<lparr>device := d', launches := launches h + 1\<rparr>)))"

text \<open>
  The three \<open>print\<close> statements that end both launch cells: the two tensors, then the
  line with the greatest absolute difference. \<open>repr\<close> is the text the host library prints
  for a tensor. The f-string formats the result of \<open>torch.max\<close>, a tensor without
  dimensions, as the number it holds: \<open>fmt\<close> is the text of a number. The difference and
  its absolute value are temporaries; they are values here.
\<close>

definition print_comparison ::
  "('v list \<Rightarrow> string) \<Rightarrow> ('v \<Rightarrow> string) \<Rightarrow> ('v::linordered_idom) host \<Rightarrow> tensor1 \<Rightarrow> tensor1
     \<Rightarrow> (error + unit) \<times> 'v host" where
  "print_comparison repr fmt h output_torch output_triton =
     (let h1 = h\<lparr>stdout := stdout h @ [repr (tensor1_values (mem (device h)) output_torch)]\<rparr>;
          h2 = h1\<lparr>stdout := stdout h1 @ [repr (tensor1_values (mem (device h)) output_triton)]\<rparr>
      in case torch_sub (tensor1_values (mem (device h)) output_torch)
                        (tensor1_values (mem (device h)) output_triton) of
           Inl e \<Rightarrow> (Inl e, h2)
         | Inr difference \<Rightarrow>
             (case torch_max (torch_abs difference) of
                Inl e \<Rightarrow> (Inl e, h2)
              | Inr v \<Rightarrow>
                  (Inr (), h2\<lparr>stdout := stdout h2 @
                     [''The maximum difference between torch and triton is '' @ fmt v]\<rparr>)))"

text \<open>The names a cell of the first notebook leaves behind for the next cell.\<close>

record globals =
  g_x :: tensor1
  g_output_triton :: tensor1
  g_output_torch :: tensor1
  g_n_elements :: nat

text \<open>
  The cell "Using the default libdevice library path". \<open>asin\<close> is the function of the
  device library found on the default path.
\<close>

definition asin_default_cell ::
  "('v \<Rightarrow> 'v) \<Rightarrow> 'v \<Rightarrow> (nat \<Rightarrow> 'v) \<Rightarrow> ('v \<Rightarrow> 'v) \<Rightarrow> ('v list \<Rightarrow> string) \<Rightarrow> ('v \<Rightarrow> string)
     \<Rightarrow> ('v::linordered_idom) host \<Rightarrow> (error + globals) \<times> 'v host" where
  "asin_default_cell asin undef rand ref_asin repr fmt h =
     (let (x, h1) = torch_rand rand h 98432 True;
          (output_triton, h2) = torch_zeros h1 98432 True;
          (output_torch, h3) = torch_asin ref_asin h2 x
      in if \<not> (on_cuda x \<and> on_cuda output_triton) then (Inl (AssertionError []), h3)
         else
           let n_elements = numel output_torch
           in case launch_asin_kernel asin undef x output_triton n_elements 1024 h3 of
                (Inl e, h4) \<Rightarrow> (Inl e, h4)
              | (Inr u, h4) \<Rightarrow>
                  (case print_comparison repr fmt h4 output_torch output_triton of
                     (Inl e, h5) \<Rightarrow> (Inl e, h5)
                   | (Inr u, h5) \<Rightarrow>
                       (Inr \<lparr>g_x = x, g_output_triton = output_triton,
                             g_output_torch = output_torch, g_n_elements = n_elements\<rparr>, h5)))"

text \<open>
  The notebook: the cell of the default path and then, unless that cell has raised, the
  cell "Customize the libdevice library path". The second cell reads \<open>x\<close>,
  \<open>output_torch\<close> and \<open>n_elements\<close> as the first has left them, allocates a new
  \<open>output_triton\<close> and launches with no assertion before. \<open>extern_libs\<close> names the device
  library to link: \<open>asin'\<close> is the function of the library at that path.
\<close>

definition asin_notebook ::
  "('v \<Rightarrow> 'v) \<Rightarrow> ('v \<Rightarrow> 'v) \<Rightarrow> 'v \<Rightarrow> (nat \<Rightarrow> 'v) \<Rightarrow> ('v \<Rightarrow> 'v) \<Rightarrow> ('v list \<Rightarrow> string) \<Rightarrow> ('v \<Rightarrow> string)
     \<Rightarrow> ('v::linordered_idom) host \<Rightarrow> (error + unit) \<times> 'v host" where
  "asin_notebook asin asin' undef rand ref_asin repr fmt h =
     (case asin_default_cell asin undef rand ref_asin repr fmt h of
        (Inl e, h1) \<Rightarrow> (Inl e, h1)
      | (Inr g, h1) \<Rightarrow>
          let (output_triton, h2) = torch_empty_like h1 (g_x g)
          in case launch_asin_kernel asin' undef (g_x g) output_triton (g_n_elements g) 1024 h2 of
               (Inl e, h3) \<Rightarrow> (Inl e, h3)
             | (Inr u, h3) \<Rightarrow> print_comparison repr fmt h3 (g_output_torch g) output_triton)"

subsection \<open>The unit test of the second notebook\<close>

text \<open>The values of a two-dimensional tensor, row by row.\<close>

definition tensor_values :: "'v memory \<Rightarrow> tensor \<Rightarrow> 'v list list" where
  "tensor_values m t =
     map (\<lambda>r. map (\<lambda>c. m (data_ptr t + r * fst (t_stride t) + c * snd (t_stride t)))
                [0..<snd (t_shape t)])
         [0..<fst (t_shape t)]"

text \<open>
  \<open>torch.randn(shape, device=..., dtype=...)\<close>: a new row-major tensor whose element \<open>i\<close>
  (in row-major order) is \<open>randn (k + i)\<close>, where \<open>k\<close> numbers have been drawn from the
  seeded generator before.
\<close>

definition torch_randn ::
  "(nat \<Rightarrow> 'v) \<Rightarrow> nat \<Rightarrow> 'v host \<Rightarrow> nat \<times> nat \<Rightarrow> bool \<Rightarrow> dtype \<Rightarrow> tensor \<times> 'v host" where
  "torch_randn randn k h shape dev dt =
     (let (t, h1) = torch_empty h shape dev dt
      in (t, fill_from h1 (data_ptr t) (fst shape * snd shape) (\<lambda>i. randn (k + i))))"

text \<open>
  \<open>torch.matmul(a, b)\<close> on two matrices: it raises when the inner dimensions differ;
  otherwise the result is a new row-major tensor, of the element type and on the device
  of \<open>a\<close>, whose entry \<open>(r, c)\<close> is \<open>ref_matmul A B r c\<close>, the entry the host library's
  routine computes from the values \<open>A\<close> and \<open>B\<close> of the two matrices.
\<close>

definition torch_matmul ::
  "('v list list \<Rightarrow> 'v list list \<Rightarrow> nat \<Rightarrow> nat \<Rightarrow> 'v) \<Rightarrow> 'v host \<Rightarrow> tensor \<Rightarrow> tensor
     \<Rightarrow> (error + tensor) \<times> 'v host" where
  "torch_matmul ref_matmul h a b =
     (if snd (t_shape a) \<noteq> fst (t_shape b) then (Inl RuntimeError, h)
      else
        let (t, h1) = torch_empty h (fst (t_shape a), snd (t_shape b)) (is_cuda a) (t_dtype a)
        in (Inr t,
            fill_from h1 (data_ptr t) (fst (t_shape a) * snd (t_shape b))
              (\<lambda>i. ref_matmul (tensor_values (mem (device h)) a) (tensor_values (mem (device h)) b)
                      (i div snd (t_shape b)) (i mod snd (t_shape b)))))"

text \<open>
  The unit test cell. \<open>cfg\<close> is the configuration the autotuner has selected for the
  launch. \<open>repr\<close> is the text an f-string gives for a matrix. \<open>torch_allclose\<close> is the
  host library's \<open>torch.allclose\<close> on the values of two matrices, with its \<open>atol\<close> and
  \<open>rtol\<close>; the literal \<open>1e-2\<close> is written \<open>1 / 100\<close>. The two messages each start with a
  symbol of three bytes in UTF-8.
\<close>

definition unit_test_cell ::
  "(dtype \<Rightarrow> 'v \<Rightarrow> 'v) \<Rightarrow> (nat \<Rightarrow> nat \<Rightarrow> nat \<Rightarrow> 'v) \<Rightarrow> (nat \<Rightarrow> 'v)
     \<Rightarrow> ('v list list \<Rightarrow> 'v list list \<Rightarrow> nat \<Rightarrow> nat \<Rightarrow> 'v)
     \<Rightarrow> ('v list list \<Rightarrow> 'v list list \<Rightarrow> real \<Rightarrow> real \<Rightarrow> bool)
     \<Rightarrow> ('v list list \<Rightarrow> string) \<Rightarrow> config \<Rightarrow> ('v::semiring_0) host \<Rightarrow> (error + unit) \<times> 'v host" where
  "unit_test_cell cast oob randn ref_matmul torch_allclose repr cfg h =
     (let (a, h1) = torch_randn randn 0 h (512, 512) True Float16;
          (b, h2) = torch_randn randn (512 * 512) h1 (512, 512) True Float16
      in case matmul cast oob cfg h2 a b of
           (Inl e, h3) \<Rightarrow> (Inl e, h3)
         | (Inr triton_output, h3) \<Rightarrow>
             (case torch_matmul ref_matmul h3 a b of
                (Inl e, h4) \<Rightarrow> (Inl e, h4)
              | (Inr torch_output, h4) \<Rightarrow>
                  let h5 = h4\<lparr>stdout := stdout h4 @
                             [''triton_output='' @ repr (tensor_values (mem (device h4)) triton_output)]\<rparr>;
                      h6 = h5\<lparr>stdout := stdout h5 @
                             [''torch_output='' @ repr (tensor_values (mem (device h4)) torch_output)]\<rparr>
                  in if torch_allclose (tensor_values (mem (device h4)) triton_output)
                          (tensor_values (mem (device h4)) torch_output) (1 / 100) 0
                     then (Inr (), h6\<lparr>stdout := stdout h6 @
                             [[CHR 0xE2, CHR 0x9C, CHR 0x85] @ '' Triton and Torch match'']\<rparr>)
                     else (Inr (), h6\<lparr>stdout := stdout h6 @
                             [[CHR 0xE2, CHR 0x9D, CHR 0x8C] @ '' Triton and Torch differ'']\<rparr>)))"

section \<open>Notions used to state the properties\<close>

text \<open>
  The value a fully boundary-checked load delivers for the parent coordinates \<open>(r, c)\<close>:
  the element of the parent when the coordinates are inside its shape, the fill otherwise.
\<close>

definition padded ::
  "(nat \<Rightarrow> nat \<Rightarrow> nat \<Rightarrow> 'v) \<Rightarrow> 'v memory \<Rightarrow> pointer \<Rightarrow> nat \<times> nat \<Rightarrow> nat \<times> nat \<Rightarrow> nat \<Rightarrow> nat \<Rightarrow> 'v" where
  "padded oob m base shape strides r c =
     (if r < fst shape \<and> c < snd shape
      then m (addr base + r * fst strides + c * snd strides)
      else oob (addr base) r c)"

text \<open>The addresses of the elements of a strided two-dimensional tensor.\<close>

definition elem_addr :: "nat \<Rightarrow> nat \<times> nat \<Rightarrow> nat \<Rightarrow> nat \<Rightarrow> nat" where
  "elem_addr base strides r c = base + r * fst strides + c * snd strides"

definition tensor_addrs :: "nat \<Rightarrow> nat \<times> nat \<Rightarrow> nat \<times> nat \<Rightarrow> nat set" where
  "tensor_addrs base shape strides =
     (\<lambda>(r, c). elem_addr base strides r c) ` ({..<fst shape} \<times> {..<snd shape})"

text \<open>
  The addresses one program of the kernel loads from, and stores to, when run on \<open>d\<close>;
  a program that raises has no effect.
\<close>

definition program_loads ::
  "(dtype \<Rightarrow> 'v \<Rightarrow> 'v) \<Rightarrow> (nat \<Rightarrow> nat \<Rightarrow> nat \<Rightarrow> 'v) \<Rightarrow> kernel_args \<Rightarrow> config \<Rightarrow> nat
     \<Rightarrow> ('v::semiring_0) device \<Rightarrow> nat list" where
  "program_loads cast oob ka cfg pid d =
     (case matmul_kernel_with_block_pointers cast oob ka cfg pid d of
        Inl e \<Rightarrow> [] | Inr d' \<Rightarrow> drop (length (loads d)) (loads d'))"

definition program_stores ::
  "(dtype \<Rightarrow> 'v \<Rightarrow> 'v) \<Rightarrow> (nat \<Rightarrow> nat \<Rightarrow> nat \<Rightarrow> 'v) \<Rightarrow> kernel_args \<Rightarrow> config \<Rightarrow> nat
     \<Rightarrow> ('v::semiring_0) device \<Rightarrow> nat list" where
  "program_stores cast oob ka cfg pid d =
     (case matmul_kernel_with_block_pointers cast oob ka cfg pid d of
        Inl e \<Rightarrow> [] | Inr d' \<Rightarrow> drop (length (stores d)) (stores d'))"

text \<open>The size of the launch grid of \<open>matmul\<close>.\<close>

definition matmul_grid :: "kernel_args \<Rightarrow> config \<Rightarrow> nat" where
  "matmul_grid ka cfg = cdiv (dim_M ka) (BLOCK_SIZE_M cfg) * cdiv (dim_N ka) (BLOCK_SIZE_N cfg)"

text \<open>The tile of program \<open>pid\<close>, and the block pointers the kernel makes for it.\<close>

definition program_tile :: "kernel_args \<Rightarrow> config \<Rightarrow> nat \<Rightarrow> nat \<times> nat" where
  "program_tile ka cfg pid =
     pid_to_tile (dim_M ka) (dim_N ka) (BLOCK_SIZE_M cfg) (BLOCK_SIZE_N cfg) (GROUP_SIZE_M cfg) pid"

definition tile_a_ptr :: "kernel_args \<Rightarrow> config \<Rightarrow> nat \<Rightarrow> block_ptr" where
  "tile_a_ptr ka cfg pid =
     make_block_ptr (a_ptr ka) (dim_M ka, dim_K ka) (stride_am ka, stride_ak ka)
       (fst (program_tile ka cfg pid) * BLOCK_SIZE_M cfg, 0) (BLOCK_SIZE_M cfg, BLOCK_SIZE_K cfg) (1, 0)"

definition tile_b_ptr :: "kernel_args \<Rightarrow> config \<Rightarrow> nat \<Rightarrow> block_ptr" where
  "tile_b_ptr ka cfg pid =
     make_block_ptr (b_ptr ka) (dim_K ka, dim_N ka) (stride_bk ka, stride_bn ka)
       (0, snd (program_tile ka cfg pid) * BLOCK_SIZE_N cfg) (BLOCK_SIZE_K cfg, BLOCK_SIZE_N cfg) (1, 0)"

definition tile_c_ptr :: "kernel_args \<Rightarrow> config \<Rightarrow> nat \<Rightarrow> block_ptr" where
  "tile_c_ptr ka cfg pid =
     make_block_ptr (c_ptr ka) (dim_M ka, dim_N ka) (stride_cm ka, stride_cn ka)
       (fst (program_tile ka cfg pid) * BLOCK_SIZE_M cfg, snd (program_tile ka cfg pid) * BLOCK_SIZE_N cfg)
       (BLOCK_SIZE_M cfg, BLOCK_SIZE_N cfg) (1, 0)"

text \<open>The state in which the kernel enters its loop, and the state after \<open>t\<close> iterations.\<close>

definition loop_init :: "kernel_args \<Rightarrow> config \<Rightarrow> nat \<Rightarrow> ('v::semiring_0) device \<Rightarrow> 'v loop_state" where
  "loop_init ka cfg pid d =
     \<lparr>ls_device = d, a_block_ptr = tile_a_ptr ka cfg pid, b_block_ptr = tile_b_ptr ka cfg pid,
      accumulator = zeros (BLOCK_SIZE_M cfg, BLOCK_SIZE_N cfg) Float32\<rparr>"

definition loop_after ::
  "(nat \<Rightarrow> nat \<Rightarrow> nat \<Rightarrow> 'v) \<Rightarrow> kernel_args \<Rightarrow> config \<Rightarrow> nat \<Rightarrow> ('v::semiring_0) device \<Rightarrow> nat \<Rightarrow> 'v loop_state" where
  "loop_after oob ka cfg pid d t = (loop_body oob (BLOCK_SIZE_K cfg) ^^ t) (loop_init ka cfg pid d)"

text \<open>
  What one program does to the device when the store of its tile is accepted, and the
  addresses it then loads from and stores to.
\<close>

definition program_run ::
  "(dtype \<Rightarrow> 'v \<Rightarrow> 'v) \<Rightarrow> (nat \<Rightarrow> nat \<Rightarrow> nat \<Rightarrow> 'v) \<Rightarrow> kernel_args \<Rightarrow> config \<Rightarrow> nat
     \<Rightarrow> ('v::semiring_0) device \<Rightarrow> 'v device" where
  "program_run cast oob ka cfg pid d =
     (let s = k_loop oob (BLOCK_SIZE_K cfg) (dim_K ka) 0 (loop_init ka cfg pid d)
      in write_lanes (ls_device s) (tile_c_ptr ka cfg pid) (block_to cast (accumulator s) Float16) [0, 1])"

definition run_loads ::
  "(dtype \<Rightarrow> 'v \<Rightarrow> 'v) \<Rightarrow> (nat \<Rightarrow> nat \<Rightarrow> nat \<Rightarrow> 'v) \<Rightarrow> kernel_args \<Rightarrow> config \<Rightarrow> nat
     \<Rightarrow> ('v::semiring_0) device \<Rightarrow> nat list" where
  "run_loads cast oob ka cfg pid d = drop (length (loads d)) (loads (program_run cast oob ka cfg pid d))"

definition run_stores ::
  "(dtype \<Rightarrow> 'v \<Rightarrow> 'v) \<Rightarrow> (nat \<Rightarrow> nat \<Rightarrow> nat \<Rightarrow> 'v) \<Rightarrow> kernel_args \<Rightarrow> config \<Rightarrow> nat
     \<Rightarrow> ('v::semiring_0) device \<Rightarrow> nat list" where
  "run_stores cast oob ka cfg pid d = drop (length (stores d)) (stores (program_run cast oob ka cfg pid d))"

text \<open>The index pairs of \<open>C\<close> that lie in tile \<open>(pm, pn)\<close> and inside the shape of \<open>C\<close>.\<close>

definition tile_indices :: "kernel_args \<Rightarrow> config \<Rightarrow> nat \<times> nat \<Rightarrow> (nat \<times> nat) set" where
  "tile_indices ka cfg tile =
     {(r, c). fst tile * BLOCK_SIZE_M cfg \<le> r \<and> r < fst tile * BLOCK_SIZE_M cfg + BLOCK_SIZE_M cfg \<and> r < dim_M ka \<and>
              snd tile * BLOCK_SIZE_N cfg \<le> c \<and> c < snd tile * BLOCK_SIZE_N cfg + BLOCK_SIZE_N cfg \<and> c < dim_N ka}"

text \<open>
  Entry \<open>(r, c)\<close> of the product of \<open>A\<close> and \<open>B\<close> as they lie in memory \<open>m\<close>, and the sum
  the kernel accumulates for that entry: it runs over \<open>cdiv(K, BLOCK_SIZE_K)\<close> whole
  blocks, through the fills where \<open>k\<close> is not below \<open>K\<close>.
\<close>

definition matrix_product :: "('v::semiring_0) memory \<Rightarrow> kernel_args \<Rightarrow> nat \<Rightarrow> nat \<Rightarrow> 'v" where
  "matrix_product m ka r c =
     (\<Sum>k\<leftarrow>[0..<dim_K ka].
        m (elem_addr (addr (a_ptr ka)) (stride_am ka, stride_ak ka) r k)
      * m (elem_addr (addr (b_ptr ka)) (stride_bk ka, stride_bn ka) k c))"

definition padded_product ::
  "(nat \<Rightarrow> nat \<Rightarrow> nat \<Rightarrow> 'v) \<Rightarrow> ('v::semiring_0) memory \<Rightarrow> kernel_args \<Rightarrow> config \<Rightarrow> nat \<Rightarrow> nat \<Rightarrow> 'v" where
  "padded_product oob m ka cfg r c =
     (\<Sum>k\<leftarrow>[0..<cdiv (dim_K ka) (BLOCK_SIZE_K cfg) * BLOCK_SIZE_K cfg].
        padded oob m (a_ptr ka) (dim_M ka, dim_K ka) (stride_am ka, stride_ak ka) r k
      * padded oob m (b_ptr ka) (dim_K ka, dim_N ka) (stride_bk ka, stride_bn ka) k c)"

text \<open>The arguments \<open>matmul\<close> passes to the kernel for inputs \<open>a\<close>, \<open>b\<close> and output \<open>c\<close>.\<close>

definition launch_args :: "tensor \<Rightarrow> tensor \<Rightarrow> tensor \<Rightarrow> kernel_args" where
  "launch_args a b c =
     \<lparr>a_ptr = tensor_ptr a, b_ptr = tensor_ptr b, c_ptr = tensor_ptr c,
      dim_M = fst (t_shape a), dim_N = snd (t_shape b), dim_K = fst (t_shape b),
      stride_am = fst (t_stride a), stride_ak = snd (t_stride a),
      stride_bk = fst (t_stride b), stride_bn = snd (t_stride b),
      stride_cm = fst (t_stride c), stride_cn = snd (t_stride c)\<rparr>"

text \<open>A tensor is allocated when all its elements lie below the allocator's break.\<close>

definition allocated :: "'v host \<Rightarrow> tensor \<Rightarrow> bool" where
  "allocated h t \<longleftrightarrow>
     (\<forall>r<fst (t_shape t). \<forall>c<snd (t_shape t). elem_addr (data_ptr t) (t_stride t) r c < brk h)"

text \<open>The output tensor \<open>matmul\<close> allocates for inputs \<open>a\<close> and \<open>b\<close>.\<close>

definition matmul_output :: "'v host \<Rightarrow> tensor \<Rightarrow> tensor \<Rightarrow> tensor" where
  "matmul_output h a b =
     fst (torch_empty h (fst (t_shape a), snd (t_shape b)) (is_cuda a) (t_dtype a))"

text \<open>
  A smallest input: \<open>A = [[1]]\<close> at address 0 and \<open>B = [[1]]\<close> at address 1, on a device
  whose every cell holds 1, and a conversion that does not round (1 and 64 are
  representable in \<open>float16\<close>).
\<close>

definition ones_host :: "real host" where
  "ones_host = \<lparr>device = \<lparr>mem = (\<lambda>_. 1), loads = [], stores = []\<rparr>, brk = 2, launches = 0, stdout = []\<rparr>"

definition ones_a :: tensor where
  "ones_a = \<lparr>data_ptr = 0, t_dtype = Float16, t_shape = (1, 1), t_stride = (1, 1), is_cuda = True\<rparr>"

definition ones_b :: tensor where
  "ones_b = \<lparr>data_ptr = 1, t_dtype = Float16, t_shape = (1, 1), t_stride = (1, 1), is_cuda = True\<rparr>"

definition exact :: "dtype \<Rightarrow> real \<Rightarrow> real" where
  "exact dt v = v"

text \<open>
  The launch of the unit test: \<open>512 \<times> 512\<close> row-major \<open>float16\<close> matrices, \<open>A\<close>, \<open>B\<close> and
  \<open>C\<close> one after the other in memory.
\<close>

definition test_args :: kernel_args where
  "test_args =
     \<lparr>a_ptr = \<lparr>addr = 0, elem_ty = Float16\<rparr>, b_ptr = \<lparr>addr = 262144, elem_ty = Float16\<rparr>,
      c_ptr = \<lparr>addr = 524288, elem_ty = Float16\<rparr>,
      dim_M = 512, dim_N = 512, dim_K = 512,
      stride_am = 512, stride_ak = 1, stride_bk = 512, stride_bn = 1, stride_cm = 512, stride_cn = 1\<rparr>"

text \<open>A fill that puts the same value in every lane that is out of bounds.\<close>

definition fill_with :: "'v \<Rightarrow> nat \<Rightarrow> nat \<Rightarrow> nat \<Rightarrow> 'v" where
  "fill_with v base r c = v"




text \<open>
  Simple instances of what the statements leave open: a generator that always yields
  \<open>1/2\<close>, a printer that prints nothing, a reference routine whose every entry is 0, and
  a comparison that accepts.
\<close>

definition half_rand :: "nat \<Rightarrow> real" where
  "half_rand i = 1 / 2"

definition no_text :: "'a \<Rightarrow> string" where
  "no_text v = []"

definition zero_entries :: "real list list \<Rightarrow> real list list \<Rightarrow> nat \<Rightarrow> nat \<Rightarrow> real" where
  "zero_entries A B r c = 0"

definition accepting :: "real list list \<Rightarrow> real list list \<Rightarrow> real \<Rightarrow> real \<Rightarrow> bool" where
  "accepting A B atol rtol \<longleftrightarrow> True"

section \<open>The asin kernel: lane-level facts\<close>

lemma write_cell_simps [simp]:
  "mem (write_cell d p v) = (mem d)(p := v)"
  "loads (write_cell d p v) = loads d"
  "stores (write_cell d p v) = stores d @ [p]"
  by (simp_all add: write_cell_def)

lemma masked_zip_map:
  "map fst (filter snd (zip (map f xs) (map g xs))) = map f (filter g xs)"
  by (induction xs) auto

lemma tl_store_loads [simp]: "loads (tl_store d ps vs ms) = loads d"
  by (induction d ps vs ms rule: tl_store.induct) auto

lemma tl_store_stores:
  "length vs = length ps \<Longrightarrow> length ms = length ps \<Longrightarrow>
   stores (tl_store d ps vs ms) = stores d @ map fst (filter snd (zip ps ms))"
  by (induction d ps vs ms rule: tl_store.induct) auto

lemma tl_store_mem_other:
  "a \<notin> set (map fst (filter snd (zip ps ms))) \<Longrightarrow> mem (tl_store d ps vs ms) a = mem d a"
  by (induction d ps vs ms rule: tl_store.induct) auto

lemma tl_store_mem_at:
  "distinct ps \<Longrightarrow> length vs = length ps \<Longrightarrow> length ms = length ps \<Longrightarrow>
   l < length ps \<Longrightarrow> ms ! l \<Longrightarrow> mem (tl_store d ps vs ms) (ps ! l) = vs ! l"
proof (induction d ps vs ms arbitrary: l rule: tl_store.induct)
  case (1 d p ps v vs m ms)
  show ?case
  proof (cases l)
    case 0
    have "p \<notin> set (map fst (filter snd (zip ps ms)))"
      using "1.prems"(1) by (auto dest: set_zip_leftD)
    then show ?thesis using 0 "1.prems" by (simp add: tl_store_mem_other)
  next
    case (Suc l')
    then show ?thesis using "1.prems" "1.IH"[of l'] by simp
  qed
qed simp_all

lemma offsets_upt: "map (\<lambda>l. b + l) (arange n) = [b..<b + n]"
  unfolding arange_def by (induction n) auto

lemma asin_kernel_loads:
  "loads (asin_kernel asin undef x_ptr y_ptr n BS pid d) =
     loads d @ map (\<lambda>off. x_ptr + off) (filter (\<lambda>off. off < n) [pid * BS..<pid * BS + BS])"
  by (simp add: asin_kernel_def tl_load_def Let_def offsets_upt masked_zip_map)

lemma asin_kernel_stores:
  "stores (asin_kernel asin undef x_ptr y_ptr n BS pid d) =
     stores d @ map (\<lambda>off. y_ptr + off) (filter (\<lambda>off. off < n) [pid * BS..<pid * BS + BS])"
  by (simp add: asin_kernel_def tl_load_def Let_def offsets_upt masked_zip_map tl_store_stores)

lemma asin_kernel_mem_other:
  assumes "\<And>off. pid * BS \<le> off \<Longrightarrow> off < pid * BS + BS \<Longrightarrow> off < n \<Longrightarrow> a \<noteq> y_ptr + off"
  shows "mem (asin_kernel asin undef x_ptr y_ptr n BS pid d) a = mem d a"
proof -
  have "a \<notin> set (map (\<lambda>off. y_ptr + off) (filter (\<lambda>off. off < n) [pid * BS..<pid * BS + BS]))"
    using assms by auto
  then show ?thesis
    by (simp add: asin_kernel_def tl_load_def Let_def offsets_upt masked_zip_map tl_store_mem_other
          del: set_map set_filter)
qed

lemma asin_kernel_mem_at:
  assumes "pid * BS \<le> off" "off < pid * BS + BS" "off < n"
  shows "mem (asin_kernel asin undef x_ptr y_ptr n BS pid d) (y_ptr + off) = asin (mem d (x_ptr + off))"
proof -
  let ?offs = "[pid * BS..<pid * BS + BS]"
  let ?ps = "map (\<lambda>off. y_ptr + off) ?offs"
  let ?ms = "map (\<lambda>off. off < n) ?offs"
  let ?vs = "map asin (map (\<lambda>(p, m). if m then mem d p else undef) (zip (map (\<lambda>off. x_ptr + off) ?offs) ?ms))"
  let ?d1 = "d\<lparr>loads := loads d @ map fst (filter snd (zip (map (\<lambda>off. x_ptr + off) ?offs) ?ms))\<rparr>"
  define l where "l = off - pid * BS"
  have l: "l < length ?ps" "?offs ! l = off" using assms by (auto simp: l_def)
  have "distinct ?ps" by (simp add: distinct_map inj_on_def)
  moreover have "length ?vs = length ?ps" "length ?ms = length ?ps" by simp_all
  moreover have "?ms ! l" using l assms by simp
  moreover note l(1)
  ultimately have "mem (tl_store ?d1 ?ps ?vs ?ms) (?ps ! l) = ?vs ! l"
    by (intro tl_store_mem_at)
  moreover have "?ps ! l = y_ptr + off" using l by simp
  moreover have "?vs ! l = asin (mem d (x_ptr + off))" using l assms by simp
  ultimately show ?thesis
    by (simp add: asin_kernel_def tl_load_def Let_def offsets_upt)
qed


lemma filter_less_upt: "filter (\<lambda>off. off < n) [0..<m] = [0..<min m n]"
proof (induction m)
  case 0
  then show ?case by simp
next
  case (Suc m)
  show ?case
  proof (cases "m < n")
    case True
    then show ?thesis using Suc by (simp add: min_def)
  next
    case False
    then have "min (Suc m) n = n" "min m n = n" by simp_all
    then show ?thesis using Suc False by simp
  qed
qed

lemma upt_split_block: "[0..<BS + g * BS] = [0..<g * BS] @ [g * BS..<g * BS + BS]"
  by (metis add.commute le_add1 upt_add_eq_append zero_le)

lemma cdiv_mult_ge: "0 < y \<Longrightarrow> x \<le> cdiv x y * y"
proof -
  assume y: "0 < y"
  have "x + y - 1 = (x + y - 1) div y * y + (x + y - 1) mod y" by simp
  moreover have "(x + y - 1) mod y < y" using y by simp
  ultimately show ?thesis unfolding cdiv_def by linarith
qed

lemma run_grid_Suc: "run_grid k (Suc g) d = k g (run_grid k g d)"
  by (simp add: run_grid_def)

lemma run_grid_0 [simp]: "run_grid k 0 d = d"
  by (simp add: run_grid_def)

lemma asin_grid_loads:
  "loads (run_grid (asin_kernel asin undef x_ptr y_ptr n BS) g d) =
     loads d @ map (\<lambda>off. x_ptr + off) (filter (\<lambda>off. off < n) [0..<g * BS])"
  by (induction g) (simp_all add: run_grid_Suc asin_kernel_loads upt_split_block)

lemma asin_grid_stores:
  "stores (run_grid (asin_kernel asin undef x_ptr y_ptr n BS) g d) =
     stores d @ map (\<lambda>off. y_ptr + off) (filter (\<lambda>off. off < n) [0..<g * BS])"
  by (induction g) (simp_all add: run_grid_Suc asin_kernel_stores upt_split_block)

lemma asin_grid_mem_other:
  assumes "\<And>off. off < n \<Longrightarrow> a \<noteq> y_ptr + off"
  shows "mem (run_grid (asin_kernel asin undef x_ptr y_ptr n BS) g d) a = mem d a"
  using assms by (induction g) (simp_all add: run_grid_Suc asin_kernel_mem_other)

lemma asin_grid_mem_at:
  assumes disj: "x_ptr + n \<le> y_ptr \<or> y_ptr + n \<le> x_ptr"
    and "off < g * BS" "off < n"
  shows "mem (run_grid (asin_kernel asin undef x_ptr y_ptr n BS) g d) (y_ptr + off) = asin (mem d (x_ptr + off))"
  using assms(2,3)
proof (induction g)
  case 0
  then show ?case by simp
next
  case (Suc g)
  let ?dg = "run_grid (asin_kernel asin undef x_ptr y_ptr n BS) g d"
  show ?case
  proof (cases "off < g * BS")
    case True
    have "mem (asin_kernel asin undef x_ptr y_ptr n BS g ?dg) (y_ptr + off) = mem ?dg (y_ptr + off)"
      using True by (intro asin_kernel_mem_other) simp
    then show ?thesis using Suc True by (simp add: run_grid_Suc)
  next
    case False
    then have "g * BS \<le> off" "off < g * BS + BS" using Suc.prems by (simp_all add: add.commute)
    then have "mem (asin_kernel asin undef x_ptr y_ptr n BS g ?dg) (y_ptr + off) = asin (mem ?dg (x_ptr + off))"
      using Suc.prems by (intro asin_kernel_mem_at)
    moreover have "mem ?dg (x_ptr + off) = mem d (x_ptr + off)"
      using disj Suc.prems by (intro asin_grid_mem_other) auto
    ultimately show ?thesis by (simp add: run_grid_Suc)
  qed
qed


section \<open>The grouped program-id mapping\<close>

lemma mod_add_left_cancel_nat:
  fixes a r r' m :: nat
  assumes "(a + r) mod m = (a + r') mod m"
  shows "r mod m = r' mod m"
proof -
  from assms obtain q1 q2 where "a + r + m * q1 = a + r' + m * q2"
    unfolding nat_mod_eq_iff by blast
  then have "r + m * q1 = r' + m * q2" by simp
  then show ?thesis unfolding nat_mod_eq_iff by blast
qed

lemma cdiv_pos: "0 < y \<Longrightarrow> 0 < x \<Longrightarrow> cdiv x y = Suc ((x - 1) div y)"
proof -
  assume y: "0 < y" and x: "0 < x"
  have "x + y - 1 = (x - 1) + y" using x by simp
  then have "(x + y - 1) div y = (x - 1) div y + 1" using y by (simp only: div_add_self2)
  then show ?thesis by (simp add: cdiv_def)
qed

lemma cdiv_0 [simp]: "cdiv 0 y = 0"
  by (cases y) (simp_all add: cdiv_def)

lemma cdiv_step:
  assumes "0 < BK" "k < K"
  shows "cdiv (K - k) BK = Suc (cdiv (K - (k + BK)) BK)"
proof -
  define x where "x = K - k"
  have x: "0 < x" and e: "K - (k + BK) = x - BK" using assms by (simp_all add: x_def)
  show ?thesis
  proof (cases "x \<le> BK")
    case True
    then have "(x - 1) div BK = 0" using x by simp
    then show ?thesis using True x assms(1) by (simp add: e x_def[symmetric] cdiv_pos)
  next
    case False
    then have "x - 1 = (x - BK - 1) + BK" by simp
    then have "(x - 1) div BK = (x - BK - 1) div BK + 1" using assms(1) by (simp only: div_add_self2)
    then show ?thesis using False x assms(1) by (simp add: e x_def[symmetric] cdiv_pos)
  qed
qed


lemma tile_facts:
  fixes Nm Nn G pid :: nat
  assumes G: "0 < G" and pid: "pid < Nm * Nn"
  defines "g \<equiv> pid div (G * Nn)"
  defines "gs \<equiv> min (Nm - g * G) G"
  shows "g * G < Nm" "0 < gs" "gs \<le> G" "g * G + gs \<le> Nm" "pid mod (G * Nn) < gs * Nn" "0 < Nn"
proof -
  show Nn: "0 < Nn" using pid by (cases Nn) auto
  have "g * (G * Nn) \<le> pid" unfolding g_def by simp
  then have "(g * G) * Nn \<le> pid" by (simp add: mult.assoc)
  then have "(g * G) * Nn < Nm * Nn" using pid by (rule le_less_trans)
  then show gG: "g * G < Nm" by (rule mult_less_cancel2 [THEN iffD1, THEN conjunct2])
  then show "0 < gs" using G by (simp add: gs_def)
  show "gs \<le> G" by (simp add: gs_def)
  show "g * G + gs \<le> Nm" using gG by (simp add: gs_def)
  show "pid mod (G * Nn) < gs * Nn"
  proof (cases "G \<le> Nm - g * G")
    case True
    then have "gs = G" by (simp add: gs_def)
    then show ?thesis using G Nn by simp
  next
    case False
    then have gs: "gs = Nm - g * G" by (simp add: gs_def)
    have "pid mod (G * Nn) = pid - g * (G * Nn)"
      unfolding g_def by (rule minus_div_mult_eq_mod [symmetric])
    also have "\<dots> < Nm * Nn - g * (G * Nn)" using pid \<open>g * (G * Nn) \<le> pid\<close> by simp
    also have "\<dots> = gs * Nn" by (simp add: gs diff_mult_distrib mult.assoc)
    finally show ?thesis .
  qed
qed


lemma pid_to_tile_range:
  assumes "0 < G" "pid < cdiv M BM * cdiv N BN"
  shows "fst (pid_to_tile M N BM BN G pid) < cdiv M BM"
    and "snd (pid_to_tile M N BM BN G pid) < cdiv N BN"
proof -
  let ?Nm = "cdiv M BM" and ?Nn = "cdiv N BN"
  let ?g = "pid div (G * ?Nn)"
  let ?gs = "min (?Nm - ?g * G) G"
  note f = tile_facts [OF assms]
  have "pid mod ?gs < ?gs" using f(2) by (rule mod_less_divisor)
  then have "?g * G + pid mod ?gs < ?g * G + ?gs" by (rule add_strict_left_mono)
  also have "\<dots> \<le> ?Nm" using f(4) .
  finally show "fst (pid_to_tile M N BM BN G pid) < cdiv M BM"
    by (simp add: pid_to_tile_def Let_def)
  have "pid mod (G * ?Nn) div ?gs < ?Nn"
    using f(5) by (simp add: less_mult_imp_div_less mult.commute)
  then show "snd (pid_to_tile M N BM BN G pid) < cdiv N BN"
    by (simp add: pid_to_tile_def Let_def)
qed

lemma pid_to_tile_inj:
  assumes G: "0 < G" and p: "pid < cdiv M BM * cdiv N BN" and p': "pid' < cdiv M BM * cdiv N BN"
    and eq: "pid_to_tile M N BM BN G pid = pid_to_tile M N BM BN G pid'"
  shows "pid = pid'"
proof -
  let ?Nm = "cdiv M BM" and ?Nn = "cdiv N BN"
  define g where "g = pid div (G * ?Nn)"
  define g' where "g' = pid' div (G * ?Nn)"
  define gs where "gs = min (?Nm - g * G) G"
  define gs' where "gs' = min (?Nm - g' * G) G"
  define r where "r = pid mod (G * ?Nn)"
  define r' where "r' = pid' mod (G * ?Nn)"
  have f: "0 < gs" "gs \<le> G"
    using tile_facts(2,3) [OF G p] by (simp_all only: g_def gs_def)
  have f': "0 < gs'" "gs' \<le> G"
    using tile_facts(2,3) [OF G p'] by (simp_all only: g'_def gs'_def)
  from eq have m: "g * G + pid mod gs = g' * G + pid' mod gs'"
    and n: "r div gs = r' div gs'"
    by (simp_all add: pid_to_tile_def Let_def g_def g'_def gs_def gs'_def r_def r'_def)
  have "pid mod gs < G" using f by (meson less_le_trans mod_less_divisor)
  then have "(g * G + pid mod gs) div G = g" by simp
  moreover have "pid' mod gs' < G" using f' by (meson less_le_trans mod_less_divisor)
  then have "(g' * G + pid' mod gs') div G = g'" by simp
  ultimately have gg: "g = g'" using m by simp
  then have gsgs: "gs = gs'" by (simp add: gs_def gs'_def)
  have "pid = g * (G * ?Nn) + r" "pid' = g' * (G * ?Nn) + r'"
    unfolding g_def g'_def r_def r'_def by (rule div_mult_mod_eq [symmetric])+
  then have pr: "pid = g * (G * ?Nn) + r" "pid' = g * (G * ?Nn) + r'"
    using gg by simp_all
  have "pid mod gs = pid' mod gs" using m gg gsgs by simp
  then have "r mod gs = r' mod gs"
    unfolding pr by (rule mod_add_left_cancel_nat)
  moreover have "r div gs = r' div gs" using n gsgs by simp
  ultimately have "r = r'" by (metis div_mult_mod_eq)
  then show ?thesis using pr by simp
qed


section \<open>Block loads and stores\<close>

text \<open>A loop of masked writes, as both kinds of store perform.\<close>

lemma fold_write_loads:
  "loads (fold (\<lambda>x d. if P x then write_cell d (f x) (v x) else d) xs d) = loads d"
  by (induction xs arbitrary: d) simp_all

lemma fold_write_stores:
  "stores (fold (\<lambda>x d. if P x then write_cell d (f x) (v x) else d) xs d) =
     stores d @ map f (filter P xs)"
  by (induction xs arbitrary: d) simp_all

lemma fold_write_mem_other:
  "(\<And>x. x \<in> set xs \<Longrightarrow> P x \<Longrightarrow> a \<noteq> f x) \<Longrightarrow>
   mem (fold (\<lambda>x d. if P x then write_cell d (f x) (v x) else d) xs d) a = mem d a"
  by (induction xs arbitrary: d) simp_all

lemma fold_write_mem_at:
  assumes "inj_on f {x \<in> set xs. P x}" "x \<in> set xs" "P x"
  shows "mem (fold (\<lambda>x d. if P x then write_cell d (f x) (v x) else d) xs d) (f x) = v x"
  using assms
proof (induction xs arbitrary: d rule: rev_induct)
  case Nil
  then show ?case by simp
next
  case (snoc y xs)
  show ?case
  proof (cases "P y \<and> f y = f x")
    case True
    then have "y = x" using snoc.prems by (auto simp: inj_on_def)
    then show ?thesis using snoc.prems by simp
  next
    case False
    then have "x \<in> set xs" using snoc.prems by auto
    moreover have "inj_on f {x \<in> set xs. P x}"
      using snoc.prems(1) by (rule inj_on_subset) auto
    ultimately have "mem (fold (\<lambda>x d. if P x then write_cell d (f x) (v x) else d) xs d) (f x) = v x"
      using snoc.prems(3) by (intro snoc.IH)
    then show ?thesis using False by auto
  qed
qed

lemma write_lanes_fold:
  "write_lanes d bp blk bc =
     fold (\<lambda>x d'. if lane_in_bounds bc bp (fst x) (snd x)
                   then write_cell d' (lane_addr bp (fst x) (snd x)) (blk_elem blk (fst x) (snd x)) else d')
          (block_lanes bp) d"
  by (simp add: write_lanes_def case_prod_beta')

lemma write_lanes_loads [simp]: "loads (write_lanes d bp blk bc) = loads d"
  unfolding write_lanes_fold by (rule fold_write_loads)

lemma write_lanes_stores:
  "stores (write_lanes d bp blk bc) =
     stores d @ map (\<lambda>(i, j). lane_addr bp i j) (filter (\<lambda>(i, j). lane_in_bounds bc bp i j) (block_lanes bp))"
  unfolding write_lanes_fold by (simp add: fold_write_stores case_prod_beta')

lemma set_block_lanes:
  "set (block_lanes bp) = {(i, j). i < fst (bp_block_shape bp) \<and> j < snd (bp_block_shape bp)}"
  by (auto simp: block_lanes_def)

lemma write_lanes_mem_other:
  assumes "\<And>i j. i < fst (bp_block_shape bp) \<Longrightarrow> j < snd (bp_block_shape bp) \<Longrightarrow>
             lane_in_bounds bc bp i j \<Longrightarrow> a \<noteq> lane_addr bp i j"
  shows "mem (write_lanes d bp blk bc) a = mem d a"
  unfolding write_lanes_fold
proof (rule fold_write_mem_other)
  fix x assume "x \<in> set (block_lanes bp)" "lane_in_bounds bc bp (fst x) (snd x)"
  then show "a \<noteq> lane_addr bp (fst x) (snd x)"
    by (intro assms) (auto simp: set_block_lanes)
qed

lemma write_lanes_mem_at:
  assumes inj: "\<And>i j i' j'. i < fst (bp_block_shape bp) \<Longrightarrow> j < snd (bp_block_shape bp) \<Longrightarrow>
             i' < fst (bp_block_shape bp) \<Longrightarrow> j' < snd (bp_block_shape bp) \<Longrightarrow>
             lane_in_bounds bc bp i j \<Longrightarrow> lane_in_bounds bc bp i' j' \<Longrightarrow>
             lane_addr bp i j = lane_addr bp i' j' \<Longrightarrow> i = i' \<and> j = j'"
    and "i < fst (bp_block_shape bp)" "j < snd (bp_block_shape bp)" "lane_in_bounds bc bp i j"
  shows "mem (write_lanes d bp blk bc) (lane_addr bp i j) = blk_elem blk i j"
proof -
  let ?f = "\<lambda>x. lane_addr bp (fst x) (snd x)"
  let ?P = "\<lambda>x. lane_in_bounds bc bp (fst x) (snd x)"
  let ?v = "\<lambda>x. blk_elem blk (fst x) (snd x)"
  have "inj_on ?f {x \<in> set (block_lanes bp). ?P x}"
    unfolding inj_on_def set_block_lanes using inj by (auto simp: prod_eq_iff) 
  moreover have "(i, j) \<in> set (block_lanes bp)" using assms(2,3) by (simp add: set_block_lanes)
  moreover have "?P (i, j)" using assms(4) by simp
  ultimately have "mem (fold (\<lambda>x d. if ?P x then write_cell d (?f x) (?v x) else d) (block_lanes bp) d) (?f (i, j)) = ?v (i, j)"
    by (rule fold_write_mem_at)
  then show ?thesis unfolding write_lanes_fold by simp
qed

lemma load_block_simps [simp]:
  "mem (snd (load_block oob d bp bc)) = mem d"
  "stores (snd (load_block oob d bp bc)) = stores d"
  "loads (snd (load_block oob d bp bc)) = loads d @ map (\<lambda>(i, j). lane_addr bp i j)
      (filter (\<lambda>(i, j). lane_in_bounds bc bp i j) (block_lanes bp))"
  "blk_dtype (fst (load_block oob d bp bc)) = elem_ty (bp_base bp)"
  "blk_shape (fst (load_block oob d bp bc)) = bp_block_shape bp"
  "blk_elem (fst (load_block oob d bp bc)) i j =
     (if lane_in_bounds bc bp i j then mem d (lane_addr bp i j)
      else oob (addr (bp_base bp)) (fst (bp_offsets bp) + i) (snd (bp_offsets bp) + j))"
  by (simp_all add: load_block_def)


section \<open>The K loop\<close>

lemma sum_list_upt_shift:
  fixes f :: "nat \<Rightarrow> 'a::comm_monoid_add"
  shows "(\<Sum>l\<leftarrow>[0..<n]. f (m + l)) = (\<Sum>k\<leftarrow>[m..<m + n]. f k)"
proof -
  have "[m..<m + n] = map (\<lambda>l. m + l) [0..<n]"
    by (induction n) simp_all
  then show ?thesis by (simp add: comp_def)
qed

lemma sum_list_upt_append:
  fixes f :: "nat \<Rightarrow> 'a::comm_monoid_add"
  shows "(\<Sum>k\<leftarrow>[0..<m + n]. f k) = (\<Sum>k\<leftarrow>[0..<m]. f k) + (\<Sum>k\<leftarrow>[m..<m + n]. f k)"
proof -
  have "[0..<m + n] = [0..<m] @ [m..<m + n]" by (rule upt_add_eq_append) simp
  then show ?thesis by simp
qed

lemma load_block_padded:
  "blk_elem (fst (load_block oob d bp [0, Suc 0])) i j =
     padded oob (mem d) (bp_base bp) (bp_shape bp) (bp_strides bp)
       (fst (bp_offsets bp) + i) (snd (bp_offsets bp) + j)"
  by (simp add: padded_def lane_in_bounds_def lane_addr_def)

lemma advance_simps [simp]:
  "bp_base (advance bp dl) = bp_base bp"
  "bp_shape (advance bp dl) = bp_shape bp"
  "bp_strides (advance bp dl) = bp_strides bp"
  "bp_block_shape (advance bp dl) = bp_block_shape bp"
  "bp_offsets (advance bp dl) = (fst (bp_offsets bp) + fst dl, snd (bp_offsets bp) + snd dl)"
  by (simp_all add: advance_def)

lemma make_block_ptr_simps [simp]:
  "bp_base (make_block_ptr base shape strides offsets block_shape ord) = base"
  "bp_shape (make_block_ptr base shape strides offsets block_shape ord) = shape"
  "bp_strides (make_block_ptr base shape strides offsets block_shape ord) = strides"
  "bp_offsets (make_block_ptr base shape strides offsets block_shape ord) = offsets"
  "bp_block_shape (make_block_ptr base shape strides offsets block_shape ord) = block_shape"
  by (simp_all add: make_block_ptr_def)

lemma loop_body_simps [simp]:
  "mem (ls_device (loop_body oob BK s)) = mem (ls_device s)"
  "stores (ls_device (loop_body oob BK s)) = stores (ls_device s)"
  "a_block_ptr (loop_body oob BK s) = advance (a_block_ptr s) (0, BK)"
  "b_block_ptr (loop_body oob BK s) = advance (b_block_ptr s) (BK, 0)"
  "blk_shape (accumulator (loop_body oob BK s)) = blk_shape (accumulator s)"
  "blk_dtype (accumulator (loop_body oob BK s)) = Float32"
  by (simp_all add: loop_body_def split_def Let_def block_add_def dot_def)

lemma loop_body_acc:
  "blk_elem (accumulator (loop_body oob BK s)) i j =
     blk_elem (accumulator s) i j +
     (\<Sum>l\<leftarrow>[0..<snd (bp_block_shape (a_block_ptr s))].
        padded oob (mem (ls_device s)) (bp_base (a_block_ptr s)) (bp_shape (a_block_ptr s))
          (bp_strides (a_block_ptr s)) (fst (bp_offsets (a_block_ptr s)) + i) (snd (bp_offsets (a_block_ptr s)) + l)
      * padded oob (mem (ls_device s)) (bp_base (b_block_ptr s)) (bp_shape (b_block_ptr s))
          (bp_strides (b_block_ptr s)) (fst (bp_offsets (b_block_ptr s)) + l) (snd (bp_offsets (b_block_ptr s)) + j))"
  by (simp add: loop_body_def split_def Let_def block_add_def dot_def load_block_padded
           del: load_block_simps(6))

lemma k_loop_funpow:
  assumes "0 < BK"
  shows "k_loop oob BK K k s = (loop_body oob BK ^^ cdiv (K - k) BK) s"
  using assms
proof (induction oob BK K k s rule: k_loop.induct)
  case (1 oob BK K k s)
  show ?case
  proof (cases "k < K")
    case True
    have "k_loop oob BK K k s = k_loop oob BK K (k + BK) (loop_body oob BK s)"
      using True "1.prems" by (subst k_loop.simps) simp
    also have "\<dots> = (loop_body oob BK ^^ cdiv (K - (k + BK)) BK) (loop_body oob BK s)"
      using True "1.prems" by (intro "1.IH") simp_all
    also have "\<dots> = (loop_body oob BK ^^ Suc (cdiv (K - (k + BK)) BK)) s"
      by (simp add: funpow_swap1)
    also have "\<dots> = (loop_body oob BK ^^ cdiv (K - k) BK) s"
      using cdiv_step [OF "1.prems" True] by simp
    finally show ?thesis .
  next
    case False
    then have "k_loop oob BK K k s = s" by (subst k_loop.simps) simp
    moreover have "K - k = 0" using False by simp
    ultimately show ?thesis by simp
  qed
qed

lemma iter_frame [simp]:
  "mem (ls_device ((loop_body oob BK ^^ t) s)) = mem (ls_device s)"
  "stores (ls_device ((loop_body oob BK ^^ t) s)) = stores (ls_device s)"
  "blk_shape (accumulator ((loop_body oob BK ^^ t) s)) = blk_shape (accumulator s)"
  by (induction t) simp_all

lemma iter_dtype:
  "blk_dtype (accumulator s) = Float32 \<Longrightarrow> blk_dtype (accumulator ((loop_body oob BK ^^ t) s)) = Float32"
  by (induction t) simp_all

lemma iter_ptrs [simp]:
  "bp_base (a_block_ptr ((loop_body oob BK ^^ t) s)) = bp_base (a_block_ptr s)"
  "bp_shape (a_block_ptr ((loop_body oob BK ^^ t) s)) = bp_shape (a_block_ptr s)"
  "bp_strides (a_block_ptr ((loop_body oob BK ^^ t) s)) = bp_strides (a_block_ptr s)"
  "bp_block_shape (a_block_ptr ((loop_body oob BK ^^ t) s)) = bp_block_shape (a_block_ptr s)"
  "bp_offsets (a_block_ptr ((loop_body oob BK ^^ t) s)) =
     (fst (bp_offsets (a_block_ptr s)), snd (bp_offsets (a_block_ptr s)) + t * BK)"
  "bp_base (b_block_ptr ((loop_body oob BK ^^ t) s)) = bp_base (b_block_ptr s)"
  "bp_shape (b_block_ptr ((loop_body oob BK ^^ t) s)) = bp_shape (b_block_ptr s)"
  "bp_strides (b_block_ptr ((loop_body oob BK ^^ t) s)) = bp_strides (b_block_ptr s)"
  "bp_block_shape (b_block_ptr ((loop_body oob BK ^^ t) s)) = bp_block_shape (b_block_ptr s)"
  "bp_offsets (b_block_ptr ((loop_body oob BK ^^ t) s)) =
     (fst (bp_offsets (b_block_ptr s)) + t * BK, snd (bp_offsets (b_block_ptr s)))"
  by (induction t) (simp_all add: ac_simps)

lemma iter_acc:
  assumes "snd (bp_block_shape (a_block_ptr s)) = BK"
  shows "blk_elem (accumulator ((loop_body oob BK ^^ t) s)) i j =
     blk_elem (accumulator s) i j +
     (\<Sum>l\<leftarrow>[0..<t * BK].
        padded oob (mem (ls_device s)) (bp_base (a_block_ptr s)) (bp_shape (a_block_ptr s))
          (bp_strides (a_block_ptr s)) (fst (bp_offsets (a_block_ptr s)) + i) (snd (bp_offsets (a_block_ptr s)) + l)
      * padded oob (mem (ls_device s)) (bp_base (b_block_ptr s)) (bp_shape (b_block_ptr s))
          (bp_strides (b_block_ptr s)) (fst (bp_offsets (b_block_ptr s)) + l) (snd (bp_offsets (b_block_ptr s)) + j))"
proof (induction t)
  case 0
  then show ?case by simp
next
  case (Suc t)
  have e: "Suc t * BK = t * BK + BK" by simp
  have "blk_elem (accumulator ((loop_body oob BK ^^ Suc t) s)) i j =
      blk_elem (accumulator (loop_body oob BK ((loop_body oob BK ^^ t) s))) i j" by simp
  also have "\<dots> = blk_elem (accumulator ((loop_body oob BK ^^ t) s)) i j +
     (\<Sum>l\<leftarrow>[0..<BK].
        padded oob (mem (ls_device s)) (bp_base (a_block_ptr s)) (bp_shape (a_block_ptr s))
          (bp_strides (a_block_ptr s)) (fst (bp_offsets (a_block_ptr s)) + i) (snd (bp_offsets (a_block_ptr s)) + (t * BK + l))
      * padded oob (mem (ls_device s)) (bp_base (b_block_ptr s)) (bp_shape (b_block_ptr s))
          (bp_strides (b_block_ptr s)) (fst (bp_offsets (b_block_ptr s)) + (t * BK + l)) (snd (bp_offsets (b_block_ptr s)) + j))"
    unfolding loop_body_acc by (simp add: assms add.assoc)
  finally show ?case
    unfolding Suc.IH e sum_list_upt_append[of _ "t * BK" BK] sum_list_upt_shift[of _ "t * BK" BK, symmetric]
    by (simp add: add.assoc)
qed


section \<open>One program of the matrix multiplication kernel\<close>

lemma in_bounds_lane_addrs:
  "set (map (\<lambda>(i, j). lane_addr bp i j)
          (filter (\<lambda>(i, j). lane_in_bounds [0, Suc 0] bp i j) (block_lanes bp)))
     \<subseteq> tensor_addrs (addr (bp_base bp)) (bp_shape bp) (bp_strides bp)"
proof
  fix a assume "a \<in> set (map (\<lambda>(i, j). lane_addr bp i j)
          (filter (\<lambda>(i, j). lane_in_bounds [0, Suc 0] bp i j) (block_lanes bp)))"
  then obtain i j where a: "a = lane_addr bp i j" and b: "lane_in_bounds [0, Suc 0] bp i j"
    by auto
  let ?r = "fst (bp_offsets bp) + i" and ?c = "snd (bp_offsets bp) + j"
  have "a = elem_addr (addr (bp_base bp)) (bp_strides bp) ?r ?c"
    by (simp add: a lane_addr_def elem_addr_def)
  moreover have "(?r, ?c) \<in> {..<fst (bp_shape bp)} \<times> {..<snd (bp_shape bp)}"
    using b by (simp add: lane_in_bounds_def)
  ultimately show "a \<in> tensor_addrs (addr (bp_base bp)) (bp_shape bp) (bp_strides bp)"
    unfolding tensor_addrs_def by (metis (mono_tags, lifting) case_prod_conv image_eqI)
qed

lemma loop_body_loads:
  "\<exists>xs. loads (ls_device (loop_body oob BK s)) = loads (ls_device s) @ xs \<and>
        set xs \<subseteq> tensor_addrs (addr (bp_base (a_block_ptr s))) (bp_shape (a_block_ptr s)) (bp_strides (a_block_ptr s))
               \<union> tensor_addrs (addr (bp_base (b_block_ptr s))) (bp_shape (b_block_ptr s)) (bp_strides (b_block_ptr s))"
proof -
  let ?la = "map (\<lambda>(i, j). lane_addr (a_block_ptr s) i j)
          (filter (\<lambda>(i, j). lane_in_bounds [0, Suc 0] (a_block_ptr s) i j) (block_lanes (a_block_ptr s)))"
  let ?lb = "map (\<lambda>(i, j). lane_addr (b_block_ptr s) i j)
          (filter (\<lambda>(i, j). lane_in_bounds [0, Suc 0] (b_block_ptr s) i j) (block_lanes (b_block_ptr s)))"
  have "loads (ls_device (loop_body oob BK s)) = loads (ls_device s) @ (?la @ ?lb)"
    by (simp add: loop_body_def split_def Let_def)
  moreover have "set (?la @ ?lb) \<subseteq>
      tensor_addrs (addr (bp_base (a_block_ptr s))) (bp_shape (a_block_ptr s)) (bp_strides (a_block_ptr s))
    \<union> tensor_addrs (addr (bp_base (b_block_ptr s))) (bp_shape (b_block_ptr s)) (bp_strides (b_block_ptr s))"
    using in_bounds_lane_addrs [of "a_block_ptr s"] in_bounds_lane_addrs [of "b_block_ptr s"]
    unfolding set_append by blast
  ultimately show ?thesis by blast
qed

lemma iter_loads:
  "\<exists>xs. loads (ls_device ((loop_body oob BK ^^ t) s)) = loads (ls_device s) @ xs \<and>
        set xs \<subseteq> tensor_addrs (addr (bp_base (a_block_ptr s))) (bp_shape (a_block_ptr s)) (bp_strides (a_block_ptr s))
               \<union> tensor_addrs (addr (bp_base (b_block_ptr s))) (bp_shape (b_block_ptr s)) (bp_strides (b_block_ptr s))"
proof (induction t)
  case 0
  then show ?case by simp
next
  case (Suc t)
  let ?T = "tensor_addrs (addr (bp_base (a_block_ptr s))) (bp_shape (a_block_ptr s)) (bp_strides (a_block_ptr s))
               \<union> tensor_addrs (addr (bp_base (b_block_ptr s))) (bp_shape (b_block_ptr s)) (bp_strides (b_block_ptr s))"
  let ?st = "(loop_body oob BK ^^ t) s"
  from Suc obtain xs where xs: "loads (ls_device ?st) = loads (ls_device s) @ xs" "set xs \<subseteq> ?T"
    by blast
  from loop_body_loads [where oob=oob and BK=BK and s="?st"]
  obtain ys where ys: "loads (ls_device (loop_body oob BK ?st)) = loads (ls_device ?st) @ ys" "set ys \<subseteq> ?T"
    by (auto simp: iter_ptrs)
  have "loads (ls_device ((loop_body oob BK ^^ Suc t) s)) = loads (ls_device s) @ (xs @ ys)"
    using xs ys by simp
  moreover have "set (xs @ ys) \<subseteq> ?T" using xs ys by simp
  ultimately show ?case by blast
qed

lemma kernel_unfold:
  "program_run cast oob ka cfg pid d =
     (let s = k_loop oob (BLOCK_SIZE_K cfg) (dim_K ka) 0 (loop_init ka cfg pid d)
      in write_lanes (ls_device s) (tile_c_ptr ka cfg pid) (block_to cast (accumulator s) Float16) [0, 1])"
  by (simp add: program_run_def Let_def split_def loop_init_def
        tile_a_ptr_def tile_b_ptr_def tile_c_ptr_def program_tile_def)

lemma kernel_eq:
  assumes "0 < BLOCK_SIZE_K cfg"
  shows "program_run cast oob ka cfg pid d =
     write_lanes (ls_device (loop_after oob ka cfg pid d (cdiv (dim_K ka) (BLOCK_SIZE_K cfg))))
       (tile_c_ptr ka cfg pid)
       (block_to cast (accumulator (loop_after oob ka cfg pid d (cdiv (dim_K ka) (BLOCK_SIZE_K cfg)))) Float16)
       [0, 1]"
  by (simp add: kernel_unfold k_loop_funpow [OF assms] loop_after_def Let_def)

lemma loop_after_simps [simp]:
  "mem (ls_device (loop_after oob ka cfg pid d t)) = mem d"
  "stores (ls_device (loop_after oob ka cfg pid d t)) = stores d"
  "blk_dtype (accumulator (loop_after oob ka cfg pid d t)) = Float32"
  "blk_shape (accumulator (loop_after oob ka cfg pid d t)) = (BLOCK_SIZE_M cfg, BLOCK_SIZE_N cfg)"
  by (simp_all add: loop_after_def loop_init_def iter_dtype zeros_def)

lemma loop_after_acc:
  "blk_elem (accumulator (loop_after oob ka cfg pid d t)) i j =
     (\<Sum>k\<leftarrow>[0..<t * BLOCK_SIZE_K cfg].
        padded oob (mem d) (a_ptr ka) (dim_M ka, dim_K ka) (stride_am ka, stride_ak ka)
          (fst (program_tile ka cfg pid) * BLOCK_SIZE_M cfg + i) k
      * padded oob (mem d) (b_ptr ka) (dim_K ka, dim_N ka) (stride_bk ka, stride_bn ka)
          k (snd (program_tile ka cfg pid) * BLOCK_SIZE_N cfg + j))"
proof -
  have "snd (bp_block_shape (a_block_ptr (loop_init ka cfg pid d))) = BLOCK_SIZE_K cfg"
    by (simp add: loop_init_def tile_a_ptr_def)
  from iter_acc [OF this, where oob=oob and t=t and i=i and j=j] show ?thesis
    by (simp add: loop_after_def loop_init_def tile_a_ptr_def tile_b_ptr_def zeros_def)
qed

lemma loop_after_loads:
  "\<exists>xs. loads (ls_device (loop_after oob ka cfg pid d t)) = loads d @ xs \<and>
        set xs \<subseteq> tensor_addrs (addr (a_ptr ka)) (dim_M ka, dim_K ka) (stride_am ka, stride_ak ka)
               \<union> tensor_addrs (addr (b_ptr ka)) (dim_K ka, dim_N ka) (stride_bk ka, stride_bn ka)"
  using iter_loads [where oob=oob and BK="BLOCK_SIZE_K cfg" and t=t and s="loop_init ka cfg pid d"]
  by (simp add: loop_after_def loop_init_def tile_a_ptr_def tile_b_ptr_def)


lemma row_major_inj:
  fixes r c r' c' S :: nat
  assumes "c < S" "c' < S" "r * S + c = r' * S + c'"
  shows "r = r' \<and> c = c'"
proof -
  have "(r * S + c) div S = r" "(r' * S + c') div S = r'" using assms(1,2) by simp_all
  then have "r = r'" using assms(3) by simp
  then show ?thesis using assms(3) by simp
qed

lemma lane_in_bounds_both [simp]:
  "lane_in_bounds [0, Suc 0] bp i j \<longleftrightarrow>
     fst (bp_offsets bp) + i < fst (bp_shape bp) \<and> snd (bp_offsets bp) + j < snd (bp_shape bp)"
  by (simp add: lane_in_bounds_def)

lemma tile_c_lanes:
  "(\<lambda>(i, j). lane_addr (tile_c_ptr ka cfg pid) i j) `
      {x \<in> set (block_lanes (tile_c_ptr ka cfg pid)). case x of (i, j) \<Rightarrow> lane_in_bounds [0, Suc 0] (tile_c_ptr ka cfg pid) i j}
   = (\<lambda>(r, c). elem_addr (addr (c_ptr ka)) (stride_cm ka, stride_cn ka) r c) `
       tile_indices ka cfg (program_tile ka cfg pid)" (is "?L = ?R")
proof (intro set_eqI iffI)
  fix a assume "a \<in> ?L"
  then obtain i j where ij: "i < BLOCK_SIZE_M cfg" "j < BLOCK_SIZE_N cfg"
      "fst (program_tile ka cfg pid) * BLOCK_SIZE_M cfg + i < dim_M ka"
      "snd (program_tile ka cfg pid) * BLOCK_SIZE_N cfg + j < dim_N ka"
      "a = lane_addr (tile_c_ptr ka cfg pid) i j"
    by (auto simp: set_block_lanes tile_c_ptr_def)
  let ?r = "fst (program_tile ka cfg pid) * BLOCK_SIZE_M cfg + i"
  let ?c = "snd (program_tile ka cfg pid) * BLOCK_SIZE_N cfg + j"
  have "(?r, ?c) \<in> tile_indices ka cfg (program_tile ka cfg pid)"
    using ij by (simp add: tile_indices_def)
  moreover have "a = elem_addr (addr (c_ptr ka)) (stride_cm ka, stride_cn ka) ?r ?c"
    using ij(5) by (simp add: lane_addr_def elem_addr_def tile_c_ptr_def)
  ultimately show "a \<in> ?R" by (metis (mono_tags, lifting) case_prod_conv image_eqI)
next
  fix a assume "a \<in> ?R"
  then obtain r c where rc: "(r, c) \<in> tile_indices ka cfg (program_tile ka cfg pid)"
    "a = elem_addr (addr (c_ptr ka)) (stride_cm ka, stride_cn ka) r c"
    by auto
  let ?i = "r - fst (program_tile ka cfg pid) * BLOCK_SIZE_M cfg"
  let ?j = "c - snd (program_tile ka cfg pid) * BLOCK_SIZE_N cfg"
  have 1: "(?i, ?j) \<in> set (block_lanes (tile_c_ptr ka cfg pid))"
    using rc(1) by (auto simp: set_block_lanes tile_c_ptr_def tile_indices_def)
  have 2: "lane_in_bounds [0, Suc 0] (tile_c_ptr ka cfg pid) ?i ?j"
    using rc(1) by (auto simp: tile_c_ptr_def tile_indices_def)
  have 3: "a = lane_addr (tile_c_ptr ka cfg pid) ?i ?j"
    using rc by (auto simp: lane_addr_def elem_addr_def tile_c_ptr_def tile_indices_def)
  show "a \<in> ?L" using 1 2 3 by (metis (mono_tags, lifting) case_prod_conv image_eqI mem_Collect_eq)
qed

lemma run_stores_eq:
  assumes "0 < BLOCK_SIZE_K cfg"
  shows "stores (program_run cast oob ka cfg pid d) =
           stores d @ run_stores cast oob ka cfg pid d"
    and "set (run_stores cast oob ka cfg pid d) =
       (\<lambda>(r, c). elem_addr (addr (c_ptr ka)) (stride_cm ka, stride_cn ka) r c) `
       tile_indices ka cfg (program_tile ka cfg pid)"
proof -
  let ?L = "map (\<lambda>(i, j). lane_addr (tile_c_ptr ka cfg pid) i j)
      (filter (\<lambda>(i, j). lane_in_bounds [0, Suc 0] (tile_c_ptr ka cfg pid) i j) (block_lanes (tile_c_ptr ka cfg pid)))"
  have s: "stores (program_run cast oob ka cfg pid d) = stores d @ ?L"
    by (simp add: kernel_eq [OF assms] write_lanes_stores del: lane_in_bounds_both)
  then have p: "run_stores cast oob ka cfg pid d = ?L"
    by (simp add: run_stores_def)
  show "stores (program_run cast oob ka cfg pid d) =
           stores d @ run_stores cast oob ka cfg pid d"
    using s p by simp
  have "set ?L = (\<lambda>(i, j). lane_addr (tile_c_ptr ka cfg pid) i j) `
      {x \<in> set (block_lanes (tile_c_ptr ka cfg pid)). case x of (i, j) \<Rightarrow> lane_in_bounds [0, Suc 0] (tile_c_ptr ka cfg pid) i j}"
    by (simp del: lane_in_bounds_both)
  then show "set (run_stores cast oob ka cfg pid d) =
       (\<lambda>(r, c). elem_addr (addr (c_ptr ka)) (stride_cm ka, stride_cn ka) r c) `
       tile_indices ka cfg (program_tile ka cfg pid)"
    unfolding p tile_c_lanes .
qed

lemma run_loads_subset:
  assumes "0 < BLOCK_SIZE_K cfg"
  shows "loads (program_run cast oob ka cfg pid d) =
           loads d @ run_loads cast oob ka cfg pid d"
    and "set (run_loads cast oob ka cfg pid d) \<subseteq>
        tensor_addrs (addr (a_ptr ka)) (dim_M ka, dim_K ka) (stride_am ka, stride_ak ka)
      \<union> tensor_addrs (addr (b_ptr ka)) (dim_K ka, dim_N ka) (stride_bk ka, stride_bn ka)"
proof -
  from loop_after_loads [where oob=oob and ka=ka and cfg=cfg and pid=pid and d=d
      and t="cdiv (dim_K ka) (BLOCK_SIZE_K cfg)"]
  obtain xs where xs: "loads (ls_device (loop_after oob ka cfg pid d (cdiv (dim_K ka) (BLOCK_SIZE_K cfg)))) = loads d @ xs"
    "set xs \<subseteq> tensor_addrs (addr (a_ptr ka)) (dim_M ka, dim_K ka) (stride_am ka, stride_ak ka)
      \<union> tensor_addrs (addr (b_ptr ka)) (dim_K ka, dim_N ka) (stride_bk ka, stride_bn ka)"
    by blast
  have l: "loads (program_run cast oob ka cfg pid d) = loads d @ xs"
    by (simp add: kernel_eq [OF assms] xs)
  then have p: "run_loads cast oob ka cfg pid d = xs" by (simp add: run_loads_def)
  show "loads (program_run cast oob ka cfg pid d) =
           loads d @ run_loads cast oob ka cfg pid d" using l p by simp
  show "set (run_loads cast oob ka cfg pid d) \<subseteq>
        tensor_addrs (addr (a_ptr ka)) (dim_M ka, dim_K ka) (stride_am ka, stride_ak ka)
      \<union> tensor_addrs (addr (b_ptr ka)) (dim_K ka, dim_N ka) (stride_bk ka, stride_bn ka)"
    using xs(2) p by simp
qed

lemma kernel_mem_other:
  assumes "0 < BLOCK_SIZE_K cfg"
    and "a \<notin> (\<lambda>(r, c). elem_addr (addr (c_ptr ka)) (stride_cm ka, stride_cn ka) r c) `
       tile_indices ka cfg (program_tile ka cfg pid)"
  shows "mem (program_run cast oob ka cfg pid d) a = mem d a"
proof -
  have "mem (program_run cast oob ka cfg pid d) a =
     mem (ls_device (loop_after oob ka cfg pid d (cdiv (dim_K ka) (BLOCK_SIZE_K cfg)))) a"
    unfolding kernel_eq [OF assms(1)]
  proof (rule write_lanes_mem_other)
    fix i j
    assume "i < fst (bp_block_shape (tile_c_ptr ka cfg pid))" "j < snd (bp_block_shape (tile_c_ptr ka cfg pid))"
      "lane_in_bounds [0, 1] (tile_c_ptr ka cfg pid) i j"
    then have "lane_addr (tile_c_ptr ka cfg pid) i j \<in> (\<lambda>(i, j). lane_addr (tile_c_ptr ka cfg pid) i j) `
      {x \<in> set (block_lanes (tile_c_ptr ka cfg pid)). case x of (i, j) \<Rightarrow> lane_in_bounds [0, Suc 0] (tile_c_ptr ka cfg pid) i j}"
      by (auto simp: set_block_lanes simp del: lane_in_bounds_both)
    then show "a \<noteq> lane_addr (tile_c_ptr ka cfg pid) i j"
      using assms(2) unfolding tile_c_lanes by blast
  qed
  then show ?thesis by simp
qed

lemma kernel_mem_at_acc:
  assumes "0 < BLOCK_SIZE_K cfg"
    and cn: "stride_cn ka = 1" and cm: "dim_N ka \<le> stride_cm ka"
    and rc: "(r, c) \<in> tile_indices ka cfg (program_tile ka cfg pid)"
  shows "mem (program_run cast oob ka cfg pid d)
           (elem_addr (addr (c_ptr ka)) (stride_cm ka, stride_cn ka) r c)
         = cast Float16
             (blk_elem (accumulator (loop_after oob ka cfg pid d (cdiv (dim_K ka) (BLOCK_SIZE_K cfg))))
                (r - fst (program_tile ka cfg pid) * BLOCK_SIZE_M cfg)
                (c - snd (program_tile ka cfg pid) * BLOCK_SIZE_N cfg))"
proof -
  let ?bp = "tile_c_ptr ka cfg pid"
  let ?pm = "fst (program_tile ka cfg pid)" and ?pn = "snd (program_tile ka cfg pid)"
  let ?s = "loop_after oob ka cfg pid d (cdiv (dim_K ka) (BLOCK_SIZE_K cfg))"
  define i where "i = r - ?pm * BLOCK_SIZE_M cfg"
  define j where "j = c - ?pn * BLOCK_SIZE_N cfg"
  have r: "r = ?pm * BLOCK_SIZE_M cfg + i" and c: "c = ?pn * BLOCK_SIZE_N cfg + j"
    and i: "i < BLOCK_SIZE_M cfg" and j: "j < BLOCK_SIZE_N cfg"
    and rM: "r < dim_M ka" and cN: "c < dim_N ka"
    using rc by (auto simp: tile_indices_def i_def j_def)
  have addr: "elem_addr (addr (c_ptr ka)) (stride_cm ka, stride_cn ka) r c = lane_addr ?bp i j"
    by (simp add: elem_addr_def lane_addr_def tile_c_ptr_def r c)
  have "mem (write_lanes (ls_device ?s) ?bp (block_to cast (accumulator ?s) Float16) [0, 1]) (lane_addr ?bp i j)
      = blk_elem (block_to cast (accumulator ?s) Float16) i j"
  proof (rule write_lanes_mem_at)
    show "i < fst (bp_block_shape ?bp)" "j < snd (bp_block_shape ?bp)"
      using i j by (simp_all add: tile_c_ptr_def)
    show "lane_in_bounds [0, 1] ?bp i j" using rM cN by (simp add: tile_c_ptr_def r c)
  next
    fix i j i' j'
    assume "lane_in_bounds [0, 1] ?bp i j" "lane_in_bounds [0, 1] ?bp i' j'"
      and e: "lane_addr ?bp i j = lane_addr ?bp i' j'"
    then have b: "?pn * BLOCK_SIZE_N cfg + j < stride_cm ka" "?pn * BLOCK_SIZE_N cfg + j' < stride_cm ka"
      using cm by (simp_all add: tile_c_ptr_def)
    from e have "(?pm * BLOCK_SIZE_M cfg + i) * stride_cm ka + (?pn * BLOCK_SIZE_N cfg + j)
        = (?pm * BLOCK_SIZE_M cfg + i') * stride_cm ka + (?pn * BLOCK_SIZE_N cfg + j')"
      by (simp add: lane_addr_def tile_c_ptr_def cn)
    from row_major_inj [OF b this] show "i = i' \<and> j = j'" by simp
  qed
  also have "\<dots> = cast Float16 (blk_elem (accumulator ?s) i j)"
    by (simp add: block_to_def)
  finally show ?thesis unfolding kernel_eq [OF assms(1)] addr i_def j_def .
qed

lemma kernel_mem_at:
  assumes "0 < BLOCK_SIZE_K cfg"
    and cn: "stride_cn ka = 1" and cm: "dim_N ka \<le> stride_cm ka"
    and rc: "(r, c) \<in> tile_indices ka cfg (program_tile ka cfg pid)"
  shows "mem (program_run cast oob ka cfg pid d)
           (elem_addr (addr (c_ptr ka)) (stride_cm ka, stride_cn ka) r c)
         = cast Float16 (padded_product oob (mem d) ka cfg r c)"
proof -
  have "fst (program_tile ka cfg pid) * BLOCK_SIZE_M cfg \<le> r"
    "snd (program_tile ka cfg pid) * BLOCK_SIZE_N cfg \<le> c"
    using rc by (simp_all add: tile_indices_def)
  then show ?thesis
    unfolding kernel_mem_at_acc [OF assms] by (simp add: loop_after_acc padded_product_def)
qed

section \<open>The kernel and its element-type check\<close>

lemma kernel_store:
  "matmul_kernel_with_block_pointers cast oob ka cfg pid d =
     (let s = k_loop oob (BLOCK_SIZE_K cfg) (dim_K ka) 0 (loop_init ka cfg pid d)
      in store_block (ls_device s) (tile_c_ptr ka cfg pid) (block_to cast (accumulator s) Float16) [0, 1])"
  by (simp add: matmul_kernel_with_block_pointers_def Let_def split_def loop_init_def
        tile_a_ptr_def tile_b_ptr_def tile_c_ptr_def program_tile_def)

lemma kernel_typed:
  "matmul_kernel_with_block_pointers cast oob ka cfg pid d =
     (if elem_ty (c_ptr ka) \<noteq> Float16
      then Inl (AssertionError (element_type_mismatch (elem_ty (c_ptr ka)) Float16))
      else Inr (program_run cast oob ka cfg pid d))"
  by (simp add: kernel_store program_run_def store_block_def Let_def block_to_def tile_c_ptr_def)

lemma kernel_runs:
  "elem_ty (c_ptr ka) = Float16 \<Longrightarrow>
   matmul_kernel_with_block_pointers cast oob ka cfg pid d = Inr (program_run cast oob ka cfg pid d)"
  by (simp add: kernel_typed)

lemma program_stores_run:
  "elem_ty (c_ptr ka) = Float16 \<Longrightarrow>
   program_stores cast oob ka cfg pid d = run_stores cast oob ka cfg pid d"
  by (simp add: program_stores_def run_stores_def kernel_runs)

lemma program_loads_run:
  "elem_ty (c_ptr ka) = Float16 \<Longrightarrow>
   program_loads cast oob ka cfg pid d = run_loads cast oob ka cfg pid d"
  by (simp add: program_loads_def run_loads_def kernel_runs)

lemma program_accesses_when_raising:
  "elem_ty (c_ptr ka) \<noteq> Float16 \<Longrightarrow>
   program_stores cast oob ka cfg pid d = [] \<and> program_loads cast oob ka cfg pid d = []"
  by (simp add: program_stores_def program_loads_def kernel_typed)

lemma compile_kernel_typed:
  "compile_kernel (matmul_kernel_with_block_pointers cast oob ka cfg) d =
     (if elem_ty (c_ptr ka) \<noteq> Float16
      then Inl (AssertionError (element_type_mismatch (elem_ty (c_ptr ka)) Float16))
      else Inr ())"
  by (simp add: compile_kernel_def kernel_typed)

lemma run_programs_Suc:
  "run_programs kern (Suc g) d =
     (case run_programs kern g d of Inl e \<Rightarrow> Inl e | Inr d' \<Rightarrow> kern g d')"
  by (simp add: run_programs_def)

lemma run_programs_typed:
  "elem_ty (c_ptr ka) = Float16 \<Longrightarrow>
   run_programs (matmul_kernel_with_block_pointers cast oob ka cfg) g d =
     Inr (run_grid (program_run cast oob ka cfg) g d)"
  by (induction g) (simp_all add: run_programs_Suc run_grid_Suc kernel_runs, simp add: run_programs_def)

section \<open>The whole grid\<close>

lemma tile_indices_in_shape:
  "(r, c) \<in> tile_indices ka cfg tile \<Longrightarrow> r < dim_M ka \<and> c < dim_N ka"
  by (simp add: tile_indices_def)

lemma tile_addrs_subset:
  "(\<lambda>(r, c). elem_addr (addr (c_ptr ka)) (stride_cm ka, stride_cn ka) r c) ` tile_indices ka cfg tile
     \<subseteq> tensor_addrs (addr (c_ptr ka)) (dim_M ka, dim_N ka) (stride_cm ka, stride_cn ka)"
  unfolding tensor_addrs_def by (rule image_mono) (auto simp: tile_indices_def)

lemma grid_mem_other:
  assumes "0 < BLOCK_SIZE_K cfg"
    and "a \<notin> tensor_addrs (addr (c_ptr ka)) (dim_M ka, dim_N ka) (stride_cm ka, stride_cn ka)"
  shows "mem (run_grid (program_run cast oob ka cfg) g d) a = mem d a"
proof (induction g)
  case 0
  then show ?case by simp
next
  case (Suc g)
  have "a \<notin> (\<lambda>(r, c). elem_addr (addr (c_ptr ka)) (stride_cm ka, stride_cn ka) r c) `
       tile_indices ka cfg (program_tile ka cfg g)"
    using assms(2) tile_addrs_subset by blast
  then show ?case using Suc by (simp add: run_grid_Suc kernel_mem_other [OF assms(1)])
qed

lemma grid_stores:
  assumes "0 < BLOCK_SIZE_K cfg"
  shows "set (stores (run_grid (program_run cast oob ka cfg) g d))
     \<subseteq> set (stores d) \<union> tensor_addrs (addr (c_ptr ka)) (dim_M ka, dim_N ka) (stride_cm ka, stride_cn ka)"
proof (induction g)
  case 0
  then show ?case by simp
next
  case (Suc g)
  let ?dg = "run_grid (program_run cast oob ka cfg) g d"
  have "set (run_stores cast oob ka cfg g ?dg)
      \<subseteq> tensor_addrs (addr (c_ptr ka)) (dim_M ka, dim_N ka) (stride_cm ka, stride_cn ka)"
    unfolding run_stores_eq(2) [OF assms] by (rule tile_addrs_subset)
  then show ?case using Suc by (auto simp: run_grid_Suc run_stores_eq(1) [OF assms])
qed

lemma grid_loads:
  assumes "0 < BLOCK_SIZE_K cfg"
  shows "set (loads (run_grid (program_run cast oob ka cfg) g d))
     \<subseteq> set (loads d) \<union> (tensor_addrs (addr (a_ptr ka)) (dim_M ka, dim_K ka) (stride_am ka, stride_ak ka)
      \<union> tensor_addrs (addr (b_ptr ka)) (dim_K ka, dim_N ka) (stride_bk ka, stride_bn ka))"
proof (induction g)
  case 0
  then show ?case by simp
next
  case (Suc g)
  let ?dg = "run_grid (program_run cast oob ka cfg) g d"
  note run_loads_subset(2) [OF assms, of cast oob ka g ?dg]
  then show ?case using Suc by (auto simp: run_grid_Suc run_loads_subset(1) [OF assms])
qed

lemma padded_cong:
  assumes "\<And>a. a \<in> tensor_addrs (addr base) shape strides \<Longrightarrow> m a = m' a"
  shows "padded oob m base shape strides r c = padded oob m' base shape strides r c"
proof (cases "r < fst shape \<and> c < snd shape")
  case True
  then have "elem_addr (addr base) strides r c \<in> tensor_addrs (addr base) shape strides"
    unfolding tensor_addrs_def by (metis (mono_tags, lifting) SigmaI case_prod_conv image_eqI lessThan_iff)
  then show ?thesis using True assms by (simp add: padded_def elem_addr_def)
next
  case False
  then show ?thesis by (auto simp: padded_def)
qed

lemma padded_product_cong:
  assumes "\<And>a. a \<in> tensor_addrs (addr (a_ptr ka)) (dim_M ka, dim_K ka) (stride_am ka, stride_ak ka)
      \<union> tensor_addrs (addr (b_ptr ka)) (dim_K ka, dim_N ka) (stride_bk ka, stride_bn ka) \<Longrightarrow> m a = m' a"
  shows "padded_product oob m ka cfg r c = padded_product oob m' ka cfg r c"
proof -
  have "padded oob m (a_ptr ka) (dim_M ka, dim_K ka) (stride_am ka, stride_ak ka) r k
      = padded oob m' (a_ptr ka) (dim_M ka, dim_K ka) (stride_am ka, stride_ak ka) r k" for k
    by (rule padded_cong) (use assms in blast)
  moreover have "padded oob m (b_ptr ka) (dim_K ka, dim_N ka) (stride_bk ka, stride_bn ka) k c
      = padded oob m' (b_ptr ka) (dim_K ka, dim_N ka) (stride_bk ka, stride_bn ka) k c" for k
    by (rule padded_cong) (use assms in blast)
  ultimately show ?thesis by (simp add: padded_product_def)
qed

lemma grid_mem_at:
  assumes bk: "0 < BLOCK_SIZE_K cfg"
    and cn: "stride_cn ka = 1" and cm: "dim_N ka \<le> stride_cm ka"
    and disj: "tensor_addrs (addr (c_ptr ka)) (dim_M ka, dim_N ka) (stride_cm ka, stride_cn ka) \<inter>
       (tensor_addrs (addr (a_ptr ka)) (dim_M ka, dim_K ka) (stride_am ka, stride_ak ka)
      \<union> tensor_addrs (addr (b_ptr ka)) (dim_K ka, dim_N ka) (stride_bk ka, stride_bn ka)) = {}"
    and "pid < g" "(r, c) \<in> tile_indices ka cfg (program_tile ka cfg pid)"
  shows "mem (run_grid (program_run cast oob ka cfg) g d)
           (elem_addr (addr (c_ptr ka)) (stride_cm ka, stride_cn ka) r c)
         = cast Float16 (padded_product oob (mem d) ka cfg r c)"
  using assms(5,6)
proof (induction g)
  case 0
  then show ?case by simp
next
  case (Suc g)
  let ?k = "program_run cast oob ka cfg"
  let ?dg = "run_grid ?k g d"
  let ?C = "\<lambda>(r, c). elem_addr (addr (c_ptr ka)) (stride_cm ka, stride_cn ka) r c"
  show ?case
  proof (cases "(r, c) \<in> tile_indices ka cfg (program_tile ka cfg g)")
    case True
    have "mem (?k g ?dg) (?C (r, c)) = cast Float16 (padded_product oob (mem ?dg) ka cfg r c)"
      using kernel_mem_at [OF bk cn cm True] by simp
    moreover have "padded_product oob (mem ?dg) ka cfg r c = padded_product oob (mem d) ka cfg r c"
    proof (rule padded_product_cong)
      fix a assume "a \<in> tensor_addrs (addr (a_ptr ka)) (dim_M ka, dim_K ka) (stride_am ka, stride_ak ka)
        \<union> tensor_addrs (addr (b_ptr ka)) (dim_K ka, dim_N ka) (stride_bk ka, stride_bn ka)"
      then have "a \<notin> tensor_addrs (addr (c_ptr ka)) (dim_M ka, dim_N ka) (stride_cm ka, stride_cn ka)"
        using disj by blast
      then show "mem ?dg a = mem d a" by (rule grid_mem_other [OF bk])
    qed
    ultimately show ?thesis by (simp add: run_grid_Suc)
  next
    case False
    then have lt: "pid < g" using Suc.prems by (cases "pid = g") auto
    have rc: "r < dim_M ka" "c < dim_N ka"
      using Suc.prems(2) tile_indices_in_shape by blast+
    have "?C (r, c) \<notin> ?C ` tile_indices ka cfg (program_tile ka cfg g)"
    proof
      assume "?C (r, c) \<in> ?C ` tile_indices ka cfg (program_tile ka cfg g)"
      then obtain r' c' where rc': "(r', c') \<in> tile_indices ka cfg (program_tile ka cfg g)"
        and e: "?C (r, c) = ?C (r', c')" by auto
      have "c' < dim_N ka" using rc' tile_indices_in_shape by blast
      then have "c < stride_cm ka" "c' < stride_cm ka" using rc cm by simp_all
      moreover have "r * stride_cm ka + c = r' * stride_cm ka + c'"
        using e by (simp add: elem_addr_def cn)
      ultimately have "r = r' \<and> c = c'" by (rule row_major_inj)
      then show False using rc' False by simp
    qed
    then have "mem (?k g ?dg) (?C (r, c)) = mem ?dg (?C (r, c))"
      by (rule kernel_mem_other [OF bk])
    then show ?thesis using Suc.IH [OF lt Suc.prems(2)] by (simp add: run_grid_Suc)
  qed
qed


lemma pid_to_tile_bij:
  assumes "0 < G"
  shows "bij_betw (pid_to_tile M N BM BN G) {..<cdiv M BM * cdiv N BN}
           ({..<cdiv M BM} \<times> {..<cdiv N BN})"
proof -
  let ?f = "pid_to_tile M N BM BN G"
  let ?A = "{..<cdiv M BM * cdiv N BN}" and ?B = "{..<cdiv M BM} \<times> {..<cdiv N BN}"
  have inj: "inj_on ?f ?A"
    by (rule inj_onI) (use pid_to_tile_inj [OF assms] in auto)
  have sub: "?f ` ?A \<subseteq> ?B"
  proof
    fix x assume "x \<in> ?f ` ?A"
    then obtain pid where "pid < cdiv M BM * cdiv N BN" "x = ?f pid" by auto
    then show "x \<in> ?B"
      using pid_to_tile_range [OF assms, of pid M BM N BN] by (simp add: mem_Times_iff)
  qed
  have "card (?f ` ?A) = card ?B"
    using inj by (simp add: card_image card_cartesian_product)
  then have "?f ` ?A = ?B" using sub by (intro card_subset_eq) auto
  then show ?thesis using inj by (simp add: bij_betw_def)
qed

lemma div_lt_cdiv:
  assumes "0 < B" "r < M"
  shows "r div B < cdiv M B"
proof -
  have "r < cdiv M B * B" using assms cdiv_mult_ge [of B M] by simp
  then show ?thesis by (rule less_mult_imp_div_less)
qed

lemma lt_div_block:
  fixes r B :: nat
  assumes "0 < B"
  shows "r < r div B * B + B"
proof -
  have "r = r div B * B + r mod B" by simp
  moreover have "r mod B < B" using assms by simp
  ultimately show ?thesis by linarith
qed

lemma tile_cover:
  assumes "0 < BLOCK_SIZE_M cfg" "0 < BLOCK_SIZE_N cfg" "0 < GROUP_SIZE_M cfg"
    and "r < dim_M ka" "c < dim_N ka"
  shows "\<exists>pid<matmul_grid ka cfg. (r, c) \<in> tile_indices ka cfg (program_tile ka cfg pid)"
proof -
  let ?BM = "BLOCK_SIZE_M cfg" and ?BN = "BLOCK_SIZE_N cfg"
  have "(r div ?BM, c div ?BN) \<in> {..<cdiv (dim_M ka) ?BM} \<times> {..<cdiv (dim_N ka) ?BN}"
    using assms by (simp add: div_lt_cdiv)
  also have "\<dots> = pid_to_tile (dim_M ka) (dim_N ka) ?BM ?BN (GROUP_SIZE_M cfg) `
      {..<cdiv (dim_M ka) ?BM * cdiv (dim_N ka) ?BN}"
    using pid_to_tile_bij [OF assms(3)] by (simp add: bij_betw_def)
  finally obtain pid where pid: "pid < matmul_grid ka cfg"
    "program_tile ka cfg pid = (r div ?BM, c div ?BN)"
    unfolding matmul_grid_def program_tile_def by auto
  have "r div ?BM * ?BM \<le> r" "r < r div ?BM * ?BM + ?BM"
    "c div ?BN * ?BN \<le> c" "c < c div ?BN * ?BN + ?BN"
    using assms(1,2) by (simp_all add: lt_div_block)
  then have "(r, c) \<in> tile_indices ka cfg (program_tile ka cfg pid)"
    using assms(4,5) by (simp add: tile_indices_def pid(2))
  then show ?thesis using pid(1) by blast
qed



lemma cdiv_dvd:
  assumes "0 < B" "B dvd K"
  shows "cdiv K B * B = K"
proof -
  from assms(2) obtain q where q: "K = q * B" by (auto simp: dvd_def mult.commute)
  have "(q * B + B - 1) div B = q"
    using assms(1) by (intro div_nat_eqI) (simp_all add: mult.commute)
  then show ?thesis by (simp add: cdiv_def q)
qed

lemma padded_product_split:
  assumes "0 < BLOCK_SIZE_K cfg" "r < dim_M ka" "c < dim_N ka"
  shows "padded_product oob m ka cfg r c =
     matrix_product m ka r c +
     (\<Sum>k\<leftarrow>[dim_K ka..<cdiv (dim_K ka) (BLOCK_SIZE_K cfg) * BLOCK_SIZE_K cfg].
         oob (addr (a_ptr ka)) r k * oob (addr (b_ptr ka)) k c)"
proof -
  let ?K = "dim_K ka" and ?T = "cdiv (dim_K ka) (BLOCK_SIZE_K cfg) * BLOCK_SIZE_K cfg"
  let ?f = "\<lambda>k. padded oob m (a_ptr ka) (dim_M ka, dim_K ka) (stride_am ka, stride_ak ka) r k
      * padded oob m (b_ptr ka) (dim_K ka, dim_N ka) (stride_bk ka, stride_bn ka) k c"
  have le: "?K \<le> ?T" using assms(1) by (rule cdiv_mult_ge)
  then have "[0..<?T] = [0..<?K] @ [?K..<?T]"
    by (metis le_add_diff_inverse upt_add_eq_append zero_le)
  then have "padded_product oob m ka cfg r c = (\<Sum>k\<leftarrow>[0..<?K]. ?f k) + (\<Sum>k\<leftarrow>[?K..<?T]. ?f k)"
    by (simp add: padded_product_def)
  moreover have "map ?f [0..<?K] = map (\<lambda>k. m (elem_addr (addr (a_ptr ka)) (stride_am ka, stride_ak ka) r k)
      * m (elem_addr (addr (b_ptr ka)) (stride_bk ka, stride_bn ka) k c)) [0..<?K]"
    using assms(2,3) by (intro map_cong) (simp_all add: padded_def elem_addr_def)
  moreover have "map ?f [?K..<?T] = map (\<lambda>k. oob (addr (a_ptr ka)) r k * oob (addr (b_ptr ka)) k c) [?K..<?T]"
    by (intro map_cong) (simp_all add: padded_def)
  ultimately show ?thesis by (simp add: matrix_product_def)
qed

lemma grid_result:
  assumes "0 < BLOCK_SIZE_M cfg" "0 < BLOCK_SIZE_N cfg" "0 < BLOCK_SIZE_K cfg" "0 < GROUP_SIZE_M cfg"
    and "stride_cn ka = 1" "dim_N ka \<le> stride_cm ka"
    and "tensor_addrs (addr (c_ptr ka)) (dim_M ka, dim_N ka) (stride_cm ka, stride_cn ka) \<inter>
       (tensor_addrs (addr (a_ptr ka)) (dim_M ka, dim_K ka) (stride_am ka, stride_ak ka)
      \<union> tensor_addrs (addr (b_ptr ka)) (dim_K ka, dim_N ka) (stride_bk ka, stride_bn ka)) = {}"
    and "r < dim_M ka" "c < dim_N ka"
  shows "mem (run_grid (program_run cast oob ka cfg) (matmul_grid ka cfg) d)
           (elem_addr (addr (c_ptr ka)) (stride_cm ka, stride_cn ka) r c)
         = cast Float16
             (matrix_product (mem d) ka r c +
              (\<Sum>k\<leftarrow>[dim_K ka..<cdiv (dim_K ka) (BLOCK_SIZE_K cfg) * BLOCK_SIZE_K cfg].
                 oob (addr (a_ptr ka)) r k * oob (addr (b_ptr ka)) k c))"
proof -
  from tile_cover [OF assms(1,2,4,8,9)] obtain pid where
    "pid < matmul_grid ka cfg" "(r, c) \<in> tile_indices ka cfg (program_tile ka cfg pid)" by blast
  from grid_mem_at [OF assms(3,5,6,7) this]
  show ?thesis by (simp add: padded_product_split [OF assms(3,8,9)])
qed


section \<open>The wrapper\<close>

lemma configs_positive:
  assumes "cfg \<in> set configs"
  shows "0 < BLOCK_SIZE_M cfg" "0 < BLOCK_SIZE_N cfg" "0 < BLOCK_SIZE_K cfg" "GROUP_SIZE_M cfg = 8"
  using assms by (auto simp: configs_def)

lemma matmul_output_simps [simp]:
  "data_ptr (matmul_output h a b) = brk h"
  "t_shape (matmul_output h a b) = (fst (t_shape a), snd (t_shape b))"
  "t_stride (matmul_output h a b) = (max (snd (t_shape b)) 1, 1)"
  "t_dtype (matmul_output h a b) = t_dtype a"
  "is_cuda (matmul_output h a b) = is_cuda a"
  by (simp_all add: matmul_output_def torch_empty_def)

lemma launch_args_simps [simp]:
  "a_ptr (launch_args a b c) = tensor_ptr a"
  "b_ptr (launch_args a b c) = tensor_ptr b"
  "c_ptr (launch_args a b c) = tensor_ptr c"
  "dim_M (launch_args a b c) = fst (t_shape a)"
  "dim_N (launch_args a b c) = snd (t_shape b)"
  "dim_K (launch_args a b c) = fst (t_shape b)"
  "stride_am (launch_args a b c) = fst (t_stride a)"
  "stride_ak (launch_args a b c) = snd (t_stride a)"
  "stride_bk (launch_args a b c) = fst (t_stride b)"
  "stride_bn (launch_args a b c) = snd (t_stride b)"
  "stride_cm (launch_args a b c) = fst (t_stride c)"
  "stride_cn (launch_args a b c) = snd (t_stride c)"
  by (simp_all add: launch_args_def)

lemma tensor_ptr_simps [simp]:
  "addr (tensor_ptr t) = data_ptr t" "elem_ty (tensor_ptr t) = t_dtype t"
  by (simp_all add: tensor_ptr_def)

lemma matmul_asserts:
  "snd (t_shape a) \<noteq> fst (t_shape b) \<Longrightarrow>
     matmul cast oob cfg h a b = (Inl (AssertionError ''Incompatible dimensions''), h)"
  "snd (t_shape a) = fst (t_shape b) \<Longrightarrow> \<not> is_contiguous a \<Longrightarrow>
     matmul cast oob cfg h a b = (Inl (AssertionError ''Matrix A must be contiguous''), h)"
  "snd (t_shape a) = fst (t_shape b) \<Longrightarrow> is_contiguous a \<Longrightarrow> \<not> is_contiguous b \<Longrightarrow>
     matmul cast oob cfg h a b = (Inl (AssertionError ''Matrix B must be contiguous''), h)"
  by (simp_all add: matmul_def)

lemma matmul_unfold:
  assumes "snd (t_shape a) = fst (t_shape b)" "is_contiguous a" "is_contiguous b"
  shows "matmul cast oob cfg h a b =
     (case py_cdiv (fst (t_shape a)) (BLOCK_SIZE_M cfg) of
        Inl e \<Rightarrow> (Inl e, h\<lparr>brk := brk h + fst (t_shape a) * snd (t_shape b)\<rparr>)
      | Inr gm \<Rightarrow>
     (case py_cdiv (snd (t_shape b)) (BLOCK_SIZE_N cfg) of
        Inl e \<Rightarrow> (Inl e, h\<lparr>brk := brk h + fst (t_shape a) * snd (t_shape b)\<rparr>)
      | Inr gn \<Rightarrow>
     (case compile_kernel (matmul_kernel_with_block_pointers cast oob
              (launch_args a b (matmul_output h a b)) cfg) (device h) of
        Inl e \<Rightarrow> (Inl e, h\<lparr>brk := brk h + fst (t_shape a) * snd (t_shape b)\<rparr>)
      | Inr u \<Rightarrow>
     (case device_check 0 [is_cuda a, is_cuda b, is_cuda a] of
        Inl e \<Rightarrow> (Inl e, h\<lparr>brk := brk h + fst (t_shape a) * snd (t_shape b)\<rparr>)
      | Inr u \<Rightarrow>
     (case run_programs (matmul_kernel_with_block_pointers cast oob
              (launch_args a b (matmul_output h a b)) cfg) (gm * gn) (device h) of
        Inl e \<Rightarrow> (Inl e, h\<lparr>brk := brk h + fst (t_shape a) * snd (t_shape b)\<rparr>)
      | Inr d' \<Rightarrow>
          (Inr (matmul_output h a b),
           h\<lparr>brk := brk h + fst (t_shape a) * snd (t_shape b), device := d',
             launches := launches h + 1\<rparr>))))))"
  using assms
  by (simp add: matmul_def split_def Let_def torch_empty_def matmul_output_def launch_args_def
        cong: sum.case_cong)

lemma device_check_three:
  "device_check 0 [p, q, r] =
     (if \<not> p then Inl (ValueError 0) else if \<not> q then Inl (ValueError 1)
      else if \<not> r then Inl (ValueError 2) else Inr ())"
  by (simp add: numeral_2_eq_2)

lemma matmul_zero_block:
  assumes "snd (t_shape a) = fst (t_shape b)" "is_contiguous a" "is_contiguous b"
    and "BLOCK_SIZE_M cfg = 0 \<or> BLOCK_SIZE_N cfg = 0"
  shows "matmul cast oob cfg h a b =
     (Inl ZeroDivisionError, h\<lparr>brk := brk h + fst (t_shape a) * snd (t_shape b)\<rparr>)"
  using assms(4) by (auto simp: matmul_unfold [OF assms(1-3)] py_cdiv_def)

lemma matmul_element_type:
  assumes "snd (t_shape a) = fst (t_shape b)" "is_contiguous a" "is_contiguous b"
    and "0 < BLOCK_SIZE_M cfg" "0 < BLOCK_SIZE_N cfg" "t_dtype a \<noteq> Float16"
  shows "matmul cast oob cfg h a b =
     (Inl (AssertionError (element_type_mismatch (t_dtype a) Float16)),
      h\<lparr>brk := brk h + fst (t_shape a) * snd (t_shape b)\<rparr>)"
  using assms(4-6) by (simp add: matmul_unfold [OF assms(1-3)] py_cdiv_def compile_kernel_typed)

lemma matmul_not_on_device:
  assumes "snd (t_shape a) = fst (t_shape b)" "is_contiguous a" "is_contiguous b"
    and "0 < BLOCK_SIZE_M cfg" "0 < BLOCK_SIZE_N cfg" "t_dtype a = Float16"
    and "\<not> (is_cuda a \<and> is_cuda b)"
  shows "matmul cast oob cfg h a b =
     (Inl (ValueError (if is_cuda a then 1 else 0)),
      h\<lparr>brk := brk h + fst (t_shape a) * snd (t_shape b)\<rparr>)"
  using assms(4-7)
  by (auto simp: matmul_unfold [OF assms(1-3)] py_cdiv_def compile_kernel_typed device_check_three)

lemma matmul_launches:
  assumes "snd (t_shape a) = fst (t_shape b)" "is_contiguous a" "is_contiguous b"
    and "0 < BLOCK_SIZE_M cfg" "0 < BLOCK_SIZE_N cfg"
    and "t_dtype a = Float16" "is_cuda a" "is_cuda b"
  shows "matmul cast oob cfg h a b =
     (Inr (matmul_output h a b),
      h\<lparr>brk := brk h + fst (t_shape a) * snd (t_shape b),
        device := run_grid (program_run cast oob (launch_args a b (matmul_output h a b)) cfg)
                    (matmul_grid (launch_args a b (matmul_output h a b)) cfg) (device h),
        launches := launches h + 1\<rparr>)"
  using assms(4-8)
  by (simp add: matmul_unfold [OF assms(1-3)] py_cdiv_def compile_kernel_typed device_check_three
        run_programs_typed matmul_grid_def)

lemma output_addrs_fresh:
  "x \<in> tensor_addrs (brk h) shape strides \<Longrightarrow> brk h \<le> x"
  by (auto simp: tensor_addrs_def elem_addr_def)

lemma allocated_addrs:
  "allocated h t \<Longrightarrow> x \<in> tensor_addrs (data_ptr t) (t_shape t) (t_stride t) \<Longrightarrow> x < brk h"
  by (auto simp: allocated_def tensor_addrs_def)

lemma matmul_cases:
  obtains (asserted) msg where "matmul cast oob cfg h a b = (Inl (AssertionError msg), h)"
      "snd (t_shape a) \<noteq> fst (t_shape b) \<or> \<not> is_contiguous a \<or> \<not> is_contiguous b"
    | (raised) e where "matmul cast oob cfg h a b =
        (Inl e, h\<lparr>brk := brk h + fst (t_shape a) * snd (t_shape b)\<rparr>)"
      "snd (t_shape a) = fst (t_shape b)" "is_contiguous a" "is_contiguous b"
      "BLOCK_SIZE_M cfg = 0 \<or> BLOCK_SIZE_N cfg = 0 \<or> t_dtype a \<noteq> Float16 \<or> \<not> (is_cuda a \<and> is_cuda b)"
    | (launched) "matmul cast oob cfg h a b =
        (Inr (matmul_output h a b),
         h\<lparr>brk := brk h + fst (t_shape a) * snd (t_shape b),
           device := run_grid (program_run cast oob (launch_args a b (matmul_output h a b)) cfg)
                    (matmul_grid (launch_args a b (matmul_output h a b)) cfg) (device h),
           launches := launches h + 1\<rparr>)"
      "snd (t_shape a) = fst (t_shape b)" "is_contiguous a" "is_contiguous b"
      "0 < BLOCK_SIZE_M cfg" "0 < BLOCK_SIZE_N cfg" "t_dtype a = Float16" "is_cuda a" "is_cuda b"
proof -
  consider (e) "snd (t_shape a) \<noteq> fst (t_shape b) \<or> \<not> is_contiguous a \<or> \<not> is_contiguous b"
    | (z) "snd (t_shape a) = fst (t_shape b)" "is_contiguous a" "is_contiguous b"
        "BLOCK_SIZE_M cfg = 0 \<or> BLOCK_SIZE_N cfg = 0"
    | (t) "snd (t_shape a) = fst (t_shape b)" "is_contiguous a" "is_contiguous b"
        "0 < BLOCK_SIZE_M cfg" "0 < BLOCK_SIZE_N cfg" "t_dtype a \<noteq> Float16"
    | (v) "snd (t_shape a) = fst (t_shape b)" "is_contiguous a" "is_contiguous b"
        "0 < BLOCK_SIZE_M cfg" "0 < BLOCK_SIZE_N cfg" "t_dtype a = Float16" "\<not> (is_cuda a \<and> is_cuda b)"
    | (l) "snd (t_shape a) = fst (t_shape b)" "is_contiguous a" "is_contiguous b"
        "0 < BLOCK_SIZE_M cfg" "0 < BLOCK_SIZE_N cfg" "t_dtype a = Float16" "is_cuda a" "is_cuda b"
    by auto
  then show ?thesis
  proof cases
    case e
    then have "\<exists>msg. matmul cast oob cfg h a b = (Inl (AssertionError msg), h)"
      by (auto simp: matmul_def)
    then show ?thesis using e asserted by blast
  next
    case z
    then show ?thesis using matmul_zero_block [OF z, of cast oob h] raised by blast
  next
    case t
    then show ?thesis using matmul_element_type [OF t, of cast oob h] raised by blast
  next
    case v
    then show ?thesis using matmul_not_on_device [OF v, of cast oob h] raised by blast
  next
    case l
    then show ?thesis using matmul_launches [OF l, of cast oob h] launched by blast
  qed
qed

lemma matmul_frame:
  assumes "0 < BLOCK_SIZE_K cfg" "x < brk h"
  shows "mem (device (snd (matmul cast oob cfg h a b))) x = mem (device h) x"
proof (cases rule: matmul_cases [of cast oob cfg h a b])
  case (asserted msg)
  then show ?thesis by simp
next
  case (raised e)
  then show ?thesis by simp
next
  case launched
  let ?ka = "launch_args a b (matmul_output h a b)"
  have "x \<notin> tensor_addrs (addr (c_ptr ?ka)) (dim_M ?ka, dim_N ?ka) (stride_cm ?ka, stride_cn ?ka)"
    using assms(2) output_addrs_fresh [of x h] by (auto simp: not_less [symmetric])
  then have "mem (run_grid (program_run cast oob ?ka cfg) (matmul_grid ?ka cfg) (device h)) x
      = mem (device h) x"
    by (rule grid_mem_other [OF assms(1)])
  then show ?thesis by (simp add: launched(1))
qed

lemma matmul_stores:
  assumes "0 < BLOCK_SIZE_K cfg"
  shows "set (stores (device (snd (matmul cast oob cfg h a b))))
     \<subseteq> set (stores (device h)) \<union>
        tensor_addrs (brk h) (fst (t_shape a), snd (t_shape b)) (max (snd (t_shape b)) 1, 1)"
proof (cases rule: matmul_cases [of cast oob cfg h a b])
  case (asserted msg)
  then show ?thesis by simp
next
  case (raised e)
  then show ?thesis by simp
next
  case launched
  let ?ka = "launch_args a b (matmul_output h a b)"
  from grid_stores [OF assms, of cast oob ?ka "matmul_grid ?ka cfg" "device h"]
  show ?thesis by (simp add: launched(1))
qed

lemma matmul_result:
  assumes "snd (t_shape a) = fst (t_shape b)" "is_contiguous a" "is_contiguous b"
    and cfg: "0 < BLOCK_SIZE_M cfg" "0 < BLOCK_SIZE_N cfg" "0 < BLOCK_SIZE_K cfg" "0 < GROUP_SIZE_M cfg"
    and ok: "t_dtype a = Float16" "is_cuda a" "is_cuda b"
    and al: "allocated h a" "allocated h b"
    and rc: "r < fst (t_shape a)" "c < snd (t_shape b)"
  shows "mem (device (snd (matmul cast oob cfg h a b)))
           (elem_addr (brk h) (max (snd (t_shape b)) 1, 1) r c)
         = cast Float16
             (matrix_product (mem (device h)) (launch_args a b (matmul_output h a b)) r c +
              (\<Sum>k\<leftarrow>[fst (t_shape b)..<cdiv (fst (t_shape b)) (BLOCK_SIZE_K cfg) * BLOCK_SIZE_K cfg].
                 oob (data_ptr a) r k * oob (data_ptr b) k c))"
proof -
  let ?ka = "launch_args a b (matmul_output h a b)"
  have disj: "tensor_addrs (addr (c_ptr ?ka)) (dim_M ?ka, dim_N ?ka) (stride_cm ?ka, stride_cn ?ka) \<inter>
       (tensor_addrs (addr (a_ptr ?ka)) (dim_M ?ka, dim_K ?ka) (stride_am ?ka, stride_ak ?ka)
      \<union> tensor_addrs (addr (b_ptr ?ka)) (dim_K ?ka, dim_N ?ka) (stride_bk ?ka, stride_bn ?ka)) = {}"
  proof -
    have sa: "(fst (t_shape a), fst (t_shape b)) = t_shape a"
      using assms(1) by (simp add: prod_eq_iff)
    have "x \<in> tensor_addrs (addr (a_ptr ?ka)) (dim_M ?ka, dim_K ?ka) (stride_am ?ka, stride_ak ?ka) \<Longrightarrow> x < brk h" for x
      using allocated_addrs [OF al(1), of x] by (simp add: sa)
    moreover have "x \<in> tensor_addrs (addr (b_ptr ?ka)) (dim_K ?ka, dim_N ?ka) (stride_bk ?ka, stride_bn ?ka) \<Longrightarrow> x < brk h" for x
      using allocated_addrs [OF al(2), of x] by simp
    moreover have "x \<in> tensor_addrs (addr (c_ptr ?ka)) (dim_M ?ka, dim_N ?ka) (stride_cm ?ka, stride_cn ?ka) \<Longrightarrow> brk h \<le> x" for x
      using output_addrs_fresh [of x h] by simp
    ultimately show ?thesis by (fastforce simp: disjoint_iff)
  qed
  have "mem (run_grid (program_run cast oob ?ka cfg) (matmul_grid ?ka cfg) (device h))
           (elem_addr (addr (c_ptr ?ka)) (stride_cm ?ka, stride_cn ?ka) r c)
         = cast Float16
             (matrix_product (mem (device h)) ?ka r c +
              (\<Sum>k\<leftarrow>[dim_K ?ka..<cdiv (dim_K ?ka) (BLOCK_SIZE_K cfg) * BLOCK_SIZE_K cfg].
                 oob (addr (a_ptr ?ka)) r k * oob (addr (b_ptr ?ka)) k c))"
    by (rule grid_result [OF cfg _ _ disj]) (use rc in simp_all)
  then show ?thesis by (simp add: matmul_launches [OF assms(1-5) ok])
qed


text \<open>The output \<open>matmul\<close> allocates is row-major, as the statements about \<open>C\<close> below assume.\<close>

lemma matmul_launch_row_major:
  "stride_cn (launch_args a b (matmul_output h a b)) = 1"
  "dim_N (launch_args a b (matmul_output h a b)) \<le> stride_cm (launch_args a b (matmul_output h a b))"
  by simp_all

section \<open>Tiles and stored addresses\<close>




section \<open>The result of the wrapper\<close>

lemma ones_facts:
  "snd (t_shape ones_a) = fst (t_shape ones_b)" "is_contiguous ones_a" "is_contiguous ones_b"
  "allocated ones_host ones_a" "allocated ones_host ones_b"
  "(0::nat) < fst (t_shape ones_a)" "(0::nat) < snd (t_shape ones_b)"
  "t_dtype ones_a = Float16" "is_cuda ones_a" "is_cuda ones_b"
  by (simp_all add: ones_a_def ones_b_def ones_host_def is_contiguous_def allocated_def elem_addr_def)

lemma hd_configs:
  "hd configs \<in> set configs" "BLOCK_SIZE_M (hd configs) = 128" "BLOCK_SIZE_N (hd configs) = 256"
  "BLOCK_SIZE_K (hd configs) = 64" "GROUP_SIZE_M (hd configs) = 8"
  by (simp_all add: configs_def)

lemma ones_result:
  "mem (device (snd (matmul exact oob (hd configs) ones_host ones_a ones_b))) 2
     = 1 + (\<Sum>k\<leftarrow>[1..<64]. oob 0 0 k * oob 1 k 0)"
proof -
  have c: "0 < BLOCK_SIZE_M (hd configs)" "0 < BLOCK_SIZE_N (hd configs)"
    "0 < BLOCK_SIZE_K (hd configs)" "0 < GROUP_SIZE_M (hd configs)"
    by (simp_all add: hd_configs)
  have "cdiv 1 64 = 1" by (simp add: cdiv_def)
  then show ?thesis
    using matmul_result [OF ones_facts(1,2,3) c ones_facts(8,9,10,4,5,6,7), of exact oob]
    by (simp add: hd_configs ones_a_def ones_b_def ones_host_def elem_addr_def exact_def
          matrix_product_def)
qed

lemma matmul_product_when_aligned:
  assumes "snd (t_shape a) = fst (t_shape b)" "is_contiguous a" "is_contiguous b"
    and "cfg \<in> set configs" "BLOCK_SIZE_K cfg dvd fst (t_shape b)"
    and "allocated h a" "allocated h b"
    and "r < fst (t_shape a)" "c < snd (t_shape b)"
    and ok: "t_dtype a = Float16" "is_cuda a" "is_cuda b"
  shows "mem (device (snd (matmul cast oob cfg h a b)))
           (elem_addr (brk h) (max (snd (t_shape b)) 1, 1) r c)
         = cast Float16 (matrix_product (mem (device h)) (launch_args a b (matmul_output h a b)) r c)"
proof -
  note p = configs_positive [OF assms(4)]
  have g: "0 < GROUP_SIZE_M cfg" using p(4) by simp
  have "cdiv (fst (t_shape b)) (BLOCK_SIZE_K cfg) * BLOCK_SIZE_K cfg = fst (t_shape b)"
    using p(3) assms(5) by (rule cdiv_dvd)
  then show ?thesis
    using matmul_result [OF assms(1,2,3) p(1,2,3) g ok assms(6,7,8,9), of cast oob] by simp
qed

lemma matmul_product_when_zero_filled:
  assumes "snd (t_shape a) = fst (t_shape b)" "is_contiguous a" "is_contiguous b"
    and "cfg \<in> set configs"
    and "allocated h a" "allocated h b"
    and "r < fst (t_shape a)" "c < snd (t_shape b)"
    and ok: "t_dtype a = Float16" "is_cuda a" "is_cuda b"
  shows "mem (device (snd (matmul cast (\<lambda>_ _ _. 0) cfg h a b)))
           (elem_addr (brk h) (max (snd (t_shape b)) 1, 1) r c)
         = cast Float16 (matrix_product (mem (device h)) (launch_args a b (matmul_output h a b)) r c)"
proof -
  note p = configs_positive [OF assms(4)]
  have g: "0 < GROUP_SIZE_M cfg" using p(4) by simp
  show ?thesis
    using matmul_result [OF assms(1,2,3) p(1,2,3) g ok assms(5,6,7,8), of cast "\<lambda>_ _ _. 0"] by simp
qed

lemma kernel_accesses_in_bounds:
  assumes "0 < BLOCK_SIZE_K cfg"
  shows "set (program_loads cast oob ka cfg pid d) \<subseteq>
        tensor_addrs (addr (a_ptr ka)) (dim_M ka, dim_K ka) (stride_am ka, stride_ak ka)
      \<union> tensor_addrs (addr (b_ptr ka)) (dim_K ka, dim_N ka) (stride_bk ka, stride_bn ka)"
    and "set (program_stores cast oob ka cfg pid d) \<subseteq>
        tensor_addrs (addr (c_ptr ka)) (dim_M ka, dim_N ka) (stride_cm ka, stride_cn ka)"
proof -
  show "set (program_loads cast oob ka cfg pid d) \<subseteq>
        tensor_addrs (addr (a_ptr ka)) (dim_M ka, dim_K ka) (stride_am ka, stride_ak ka)
      \<union> tensor_addrs (addr (b_ptr ka)) (dim_K ka, dim_N ka) (stride_bk ka, stride_bn ka)"
  proof (cases "elem_ty (c_ptr ka) = Float16")
    case True
    then show ?thesis
      unfolding program_loads_run [OF True] by (intro run_loads_subset(2) [OF assms])
  next
    case False
    then show ?thesis by (simp add: program_accesses_when_raising)
  qed
  show "set (program_stores cast oob ka cfg pid d) \<subseteq>
        tensor_addrs (addr (c_ptr ka)) (dim_M ka, dim_N ka) (stride_cm ka, stride_cn ka)"
  proof (cases "elem_ty (c_ptr ka) = Float16")
    case True
    show ?thesis
      unfolding program_stores_run [OF True] run_stores_eq(2) [OF assms] by (rule tile_addrs_subset)
  next
    case False
    then show ?thesis by (simp add: program_accesses_when_raising)
  qed
qed

section \<open>The autotuner\<close>

lemma best_config_mem: "best_config timing best cs \<in> set (best # cs)"
  by (induction cs arbitrary: best) (auto split: if_splits)

lemma configs_nonempty: "hd configs # tl configs = configs"
  by (simp add: configs_def)

lemma autotune_mem:
  assumes "\<And>k c. cache k = Some c \<Longrightarrow> c \<in> set configs"
  shows "fst (autotune cache timing key) \<in> set configs"
    and "snd (autotune cache timing key) k = Some c \<Longrightarrow> c \<in> set configs"
proof -
  have b: "best_config timing (hd configs) (tl configs) \<in> set configs"
    using best_config_mem [of timing "hd configs" "tl configs"] by (simp only: configs_nonempty)
  show "fst (autotune cache timing key) \<in> set configs"
    using assms b by (auto simp: autotune_def Let_def split: option.splits)
  show "snd (autotune cache timing key) k = Some c \<Longrightarrow> c \<in> set configs"
    using assms b by (auto simp: autotune_def Let_def split: option.splits if_splits)
qed

lemma autotune_hit:
  "cache key = Some c \<Longrightarrow> autotune cache timing key = (c, cache)"
  by (simp add: autotune_def)

lemma autotune_keeps:
  "cache k = Some c \<Longrightarrow> snd (autotune cache timing key) k = Some c"
  by (auto simp: autotune_def Let_def split: option.splits)

lemma autotune_caches:
  "snd (autotune cache timing key) key = Some (fst (autotune cache timing key))"
  by (auto simp: autotune_def Let_def split: option.splits)

lemma tuned_launches_length [simp]: "length (tuned_launches cache ls) = length ls"
  by (induction ls arbitrary: cache) (simp_all add: split_def Let_def)

lemma tuned_launches_mem:
  assumes "\<And>k c. cache k = Some c \<Longrightarrow> c \<in> set configs"
  shows "set (tuned_launches cache ls) \<subseteq> set configs"
  using assms
proof (induction ls arbitrary: cache)
  case Nil
  then show ?case by simp
next
  case (Cons l ls)
  have "fst (autotune cache (fst l) (launch_key (snd l))) \<in> set configs"
    using Cons.prems by (rule autotune_mem(1))
  moreover have "set (tuned_launches (snd (autotune cache (fst l) (launch_key (snd l)))) ls) \<subseteq> set configs"
    using Cons.prems by (intro Cons.IH) (rule autotune_mem(2))
  ultimately show ?case by (simp add: split_def Let_def)
qed

lemma tuned_launches_cached:
  assumes "cache k = Some c" "i < length ls" "launch_key (snd (ls ! i)) = k"
  shows "tuned_launches cache ls ! i = c"
  using assms
proof (induction ls arbitrary: cache i)
  case Nil
  then show ?case by simp
next
  case (Cons l ls)
  show ?case
  proof (cases i)
    case 0
    then show ?thesis using Cons.prems by (simp add: split_def autotune_hit)
  next
    case (Suc i')
    have "snd (autotune cache (fst l) (launch_key (snd l))) k = Some c"
      using Cons.prems(1) by (rule autotune_keeps)
    then have "tuned_launches (snd (autotune cache (fst l) (launch_key (snd l)))) ls ! i' = c"
      using Cons.prems Suc by (intro Cons.IH) simp_all
    then show ?thesis using Suc by (simp add: split_def Let_def)
  qed
qed

lemma tuned_launches_same_key:
  assumes "i < j" "j < length ls" "launch_key (snd (ls ! i)) = launch_key (snd (ls ! j))"
  shows "tuned_launches cache ls ! i = tuned_launches cache ls ! j"
  using assms
proof (induction ls arbitrary: cache i j)
  case Nil
  then show ?case by simp
next
  case (Cons l ls)
  obtain j' where j: "j = Suc j'" using Cons.prems(1) by (cases j) auto
  let ?r = "autotune cache (fst l) (launch_key (snd l))"
  show ?case
  proof (cases i)
    case 0
    have "snd ?r (launch_key (snd l)) = Some (fst ?r)" by (rule autotune_caches)
    then have "tuned_launches (snd ?r) ls ! j' = fst ?r"
      using Cons.prems 0 j by (intro tuned_launches_cached) simp_all
    then show ?thesis using 0 j by (simp add: split_def Let_def)
  next
    case (Suc i')
    have "tuned_launches (snd ?r) ls ! i' = tuned_launches (snd ?r) ls ! j'"
      using Cons.prems Suc j by (intro Cons.IH) simp_all
    then show ?thesis using Suc j by (simp add: split_def Let_def)
  qed
qed

lemma launch_key_dims:
  "launch_key ka = [Some (dim_M ka), Some (dim_N ka), Some (dim_K ka)]"
  by (simp add: launch_key_def autotune_key_def arg_value_def)


section \<open>The launch and check cells\<close>

lemma fill_from_simps [simp]:
  "mem (device (fill_from h p n init)) q = (if p \<le> q \<and> q < p + n then init (q - p) else mem (device h) q)"
  "loads (device (fill_from h p n init)) = loads (device h)"
  "stores (device (fill_from h p n init)) = stores (device h)"
  "brk (fill_from h p n init) = brk h"
  "launches (fill_from h p n init) = launches h"
  "stdout (fill_from h p n init) = stdout h"
  by (simp_all add: fill_from_def)

lemma asin_launch_1024:
  "asin_launch asin undef x_ptr y_ptr n 1024 d =
     Inr (run_grid (asin_kernel asin undef x_ptr y_ptr n 1024) (cdiv n 1024) d)"
  by (simp add: asin_launch_def py_cdiv_def)

lemma launch_asin_kernel_1024:
  assumes "on_cuda x" "on_cuda y"
  shows "launch_asin_kernel asin undef x y n 1024 h =
     (Inr (), h\<lparr>device := run_grid (asin_kernel asin undef (ptr1 x) (ptr1 y) n 1024) (cdiv n 1024) (device h),
               launches := launches h + 1\<rparr>)"
  using assms by (simp add: launch_asin_kernel_def asin_launch_1024)

lemma asin_grid_values:
  assumes "p + n \<le> q"
  shows "tensor1_values (mem (run_grid (asin_kernel asin undef p q n 1024) (cdiv n 1024) d))
           \<lparr>ptr1 = q, numel = n, on_cuda = c\<rparr>
         = map (\<lambda>i. asin (mem d (p + i))) [0..<n]"
proof -
  have "mem (run_grid (asin_kernel asin undef p q n 1024) (cdiv n 1024) d) (q + i) = asin (mem d (p + i))"
    if "i < n" for i
  proof (rule asin_grid_mem_at)
    show "p + n \<le> q \<or> q + n \<le> p" using assms by simp
    show "i < cdiv n 1024 * 1024" using that cdiv_mult_ge [of 1024 n] by simp
    show "i < n" by fact
  qed
  then show ?thesis by (simp add: tensor1_values_def)
qed

lemma asin_grid_other_values:
  assumes "q + n \<le> r \<or> r + m \<le> q"
  shows "tensor1_values (mem (run_grid (asin_kernel asin undef p q n 1024) (cdiv n 1024) d))
           \<lparr>ptr1 = r, numel = m, on_cuda = c\<rparr>
         = map (\<lambda>i. mem d (r + i)) [0..<m]"
proof -
  have "mem (run_grid (asin_kernel asin undef p q n 1024) (cdiv n 1024) d) (r + i) = mem d (r + i)"
    if "i < m" for i
    by (rule asin_grid_mem_other) (use assms that in auto)
  then show ?thesis by (simp add: tensor1_values_def)
qed

lemma torch_max_Max:
  assumes "xs \<noteq> []"
  shows "torch_max xs = Inr (Max (set xs))"
proof (cases xs)
  case Nil
  then show ?thesis using assms by simp
next
  case (Cons x rest)
  have "Max (set (x # rest)) = fold max rest x" by (rule Max.set_eq_fold)
  then show ?thesis using Cons by (simp add: torch_max_def)
qed

lemma torch_sub_same_length:
  "torch_sub (map f [0..<n]) (map g [0..<n]) = Inr (map (\<lambda>i. f i - g i) [0..<n])"
proof -
  have "map (\<lambda>(x, y). x - y) (zip (map f [0..<n]) (map g [0..<n])) = map (\<lambda>i. f i - g i) [0..<n]"
    by (simp add: zip_map_map list_eq_iff_nth_eq del: upt_Suc)
  moreover have "broadcast (map f [0..<n]) n = map f [0..<n]" "broadcast (map g [0..<n]) n = map g [0..<n]"
    by (auto simp: broadcast_def length_Suc_conv list_eq_iff_nth_eq hd_conv_nth simp del: upt_Suc)
  ultimately show ?thesis by (simp add: torch_sub_def)
qed

lemma print_comparison_prints:
  assumes "0 < n"
    and "tensor1_values (mem (device h)) t = map f [0..<n]"
    and "tensor1_values (mem (device h)) u = map g [0..<n]"
  shows "print_comparison repr fmt h t u =
     (Inr (), h\<lparr>stdout := stdout h @ [repr (map f [0..<n]), repr (map g [0..<n]),
         ''The maximum difference between torch and triton is '' @
           fmt (Max ((\<lambda>i. \<bar>f i - g i\<bar>) ` {..<n}))]\<rparr>)"
proof -
  have ne: "torch_abs (map (\<lambda>i. f i - g i) [0..<n]) \<noteq> []" using assms(1) by (simp add: torch_abs_def)
  have "set (torch_abs (map (\<lambda>i. f i - g i) [0..<n])) = (\<lambda>i. \<bar>f i - g i\<bar>) ` {..<n}"
    by (auto simp: torch_abs_def)
  then show ?thesis
    by (simp add: print_comparison_def Let_def assms(2,3) torch_sub_same_length torch_max_Max [OF ne])
qed


lemma asin_default_cell_run:
  fixes h :: "('v::linordered_idom) host"
  obtains h' where
    "asin_default_cell asin undef rand ref_asin repr fmt h =
       (Inr \<lparr>g_x = \<lparr>ptr1 = brk h, numel = 98432, on_cuda = True\<rparr>,
             g_output_triton = \<lparr>ptr1 = brk h + 98432, numel = 98432, on_cuda = True\<rparr>,
             g_output_torch = \<lparr>ptr1 = brk h + 196864, numel = 98432, on_cuda = True\<rparr>,
             g_n_elements = 98432\<rparr>, h')"
    "brk h' = brk h + 295296" "launches h' = launches h + 1"
    "stdout h' = stdout h @
       [repr (map (\<lambda>i. ref_asin (rand i)) [0..<98432]), repr (map (\<lambda>i. asin (rand i)) [0..<98432]),
        ''The maximum difference between torch and triton is '' @
          fmt (Max ((\<lambda>i. \<bar>ref_asin (rand i) - asin (rand i)\<bar>) ` {..<98432}))]"
    "\<And>i. i < 98432 \<Longrightarrow> mem (device h') (brk h + i) = rand i"
    "\<And>i. i < 98432 \<Longrightarrow> mem (device h') (brk h + 196864 + i) = ref_asin (rand i)"
    "\<And>q. q < brk h \<Longrightarrow> mem (device h') q = mem (device h) q"
proof -
  define x where "x = \<lparr>ptr1 = brk h, numel = 98432, on_cuda = True\<rparr>"
  define y where "y = \<lparr>ptr1 = brk h + 98432, numel = 98432, on_cuda = True\<rparr>"
  define t where "t = \<lparr>ptr1 = brk h + 196864, numel = 98432, on_cuda = True\<rparr>"
  define h1 where "h1 = fill_from (h\<lparr>brk := brk h + 98432\<rparr>) (brk h) 98432 rand"
  define h2 where "h2 = fill_from (h1\<lparr>brk := brk h1 + 98432\<rparr>) (brk h1) 98432 (\<lambda>i. 0)"
  define h3 where "h3 = fill_from (h2\<lparr>brk := brk h2 + 98432\<rparr>) (brk h2) 98432
      (\<lambda>i. ref_asin (mem (device h2) (ptr1 x + i)))"
  define d4 where "d4 = run_grid (asin_kernel asin undef (brk h) (brk h + 98432) 98432 1024)
      (cdiv 98432 1024) (device h3)"
  define h4 where "h4 = h3\<lparr>device := d4, launches := launches h3 + 1\<rparr>"
  define out where "out = [repr (map (\<lambda>i. ref_asin (rand i)) [0..<98432]),
      repr (map (\<lambda>i. asin (rand i)) [0..<98432]),
      ''The maximum difference between torch and triton is '' @
        fmt (Max ((\<lambda>i. \<bar>ref_asin (rand i) - asin (rand i)\<bar>) ` {..<98432}))]"
  define h5 where "h5 = h4\<lparr>stdout := stdout h4 @ out\<rparr>"
  have b: "brk h1 = brk h + 98432" "brk h2 = brk h + 196864" "brk h3 = brk h + 295296"
    by (simp_all add: h1_def h2_def h3_def)
  have m3x: "mem (device h3) (brk h + i) = rand i" if "i < 98432" for i
    using that by (simp add: h3_def h2_def h1_def)
  have m3t: "mem (device h3) (brk h + 196864 + i) = ref_asin (rand i)" if "i < 98432" for i
    using that by (simp add: h3_def h2_def h1_def x_def)
  have m3f: "mem (device h3) q = mem (device h) q" if "q < brk h" for q
    using that by (simp add: h3_def h2_def h1_def)
  have U: "tensor1_values (mem (device h4)) y = map (\<lambda>i. asin (rand i)) [0..<98432]"
  proof -
    have "tensor1_values (mem d4) y = map (\<lambda>i. asin (mem (device h3) (brk h + i))) [0..<98432]"
      unfolding d4_def y_def by (rule asin_grid_values) simp
    then show ?thesis by (simp add: h4_def m3x)
  qed
  have T: "tensor1_values (mem (device h4)) t = map (\<lambda>i. ref_asin (rand i)) [0..<98432]"
  proof -
    have "tensor1_values (mem d4) t = map (\<lambda>i. mem (device h3) (brk h + 196864 + i)) [0..<98432]"
      unfolding d4_def t_def by (rule asin_grid_other_values) simp
    then show ?thesis by (simp add: h4_def m3t)
  qed
  have p: "print_comparison repr fmt h4 t y = (Inr (), h5)"
    unfolding h5_def out_def by (simp add: print_comparison_prints [OF _ T U])
  have l: "launch_asin_kernel asin undef x y 98432 1024 h3 = (Inr (), h4)"
    by (simp add: launch_asin_kernel_1024 x_def y_def h4_def d4_def)
  have c: "asin_default_cell asin undef rand ref_asin repr fmt h =
       (Inr \<lparr>g_x = x, g_output_triton = y, g_output_torch = t, g_n_elements = 98432\<rparr>, h5)"
  proof -
    have 1: "torch_rand rand h 98432 True = (x, h1)" by (simp add: torch_rand_def x_def h1_def)
    have 2: "torch_zeros h1 98432 True = (y, h2)" by (simp add: torch_zeros_def y_def h2_def b)
    have 3: "torch_asin ref_asin h2 x = (t, h3)" by (simp add: torch_asin_def t_def h3_def b x_def)
    have 4: "on_cuda x" "on_cuda y" "numel t = 98432" by (simp_all add: x_def y_def t_def)
    show ?thesis by (simp add: asin_default_cell_def 1 2 3 4 l p)
  qed
  have m4: "mem d4 q = mem (device h3) q" if "q < brk h + 98432 \<or> brk h + 196864 \<le> q" for q
    unfolding d4_def by (rule asin_grid_mem_other) (use that in auto)
  show ?thesis
  proof (rule that [of h5])
    show "asin_default_cell asin undef rand ref_asin repr fmt h =
       (Inr \<lparr>g_x = \<lparr>ptr1 = brk h, numel = 98432, on_cuda = True\<rparr>,
             g_output_triton = \<lparr>ptr1 = brk h + 98432, numel = 98432, on_cuda = True\<rparr>,
             g_output_torch = \<lparr>ptr1 = brk h + 196864, numel = 98432, on_cuda = True\<rparr>,
             g_n_elements = 98432\<rparr>, h5)"
      using c by (simp add: x_def y_def t_def)
    show "brk h5 = brk h + 295296" by (simp add: h5_def h4_def b)
    show "launches h5 = launches h + 1" by (simp add: h5_def h4_def h3_def h2_def h1_def)
    show "stdout h5 = stdout h @
       [repr (map (\<lambda>i. ref_asin (rand i)) [0..<98432]), repr (map (\<lambda>i. asin (rand i)) [0..<98432]),
        ''The maximum difference between torch and triton is '' @
          fmt (Max ((\<lambda>i. \<bar>ref_asin (rand i) - asin (rand i)\<bar>) ` {..<98432}))]"
      by (simp add: h5_def h4_def h3_def h2_def h1_def out_def)
    show "mem (device h5) (brk h + i) = rand i" if "i < 98432" for i
      using that by (simp add: h5_def h4_def m4 m3x)
    show "mem (device h5) (brk h + 196864 + i) = ref_asin (rand i)" if "i < 98432" for i
      using that by (simp add: h5_def h4_def m4 m3t)
    show "mem (device h5) q = mem (device h) q" if "q < brk h" for q
      using that by (simp add: h5_def h4_def m4 m3f)
  qed
qed


lemma asin_notebook_run:
  fixes h :: "('v::linordered_idom) host"
  obtains h' where
    "asin_notebook asin asin' undef rand ref_asin repr fmt h = (Inr (), h')"
    "launches h' = launches h + 2"
    "stdout h' = stdout h @
       [repr (map (\<lambda>i. ref_asin (rand i)) [0..<98432]), repr (map (\<lambda>i. asin (rand i)) [0..<98432]),
        ''The maximum difference between torch and triton is '' @
          fmt (Max ((\<lambda>i. \<bar>ref_asin (rand i) - asin (rand i)\<bar>) ` {..<98432})),
        repr (map (\<lambda>i. ref_asin (rand i)) [0..<98432]), repr (map (\<lambda>i. asin' (rand i)) [0..<98432]),
        ''The maximum difference between torch and triton is '' @
          fmt (Max ((\<lambda>i. \<bar>ref_asin (rand i) - asin' (rand i)\<bar>) ` {..<98432}))]"
proof -
  obtain h1 where h1:
    "asin_default_cell asin undef rand ref_asin repr fmt h =
       (Inr \<lparr>g_x = \<lparr>ptr1 = brk h, numel = 98432, on_cuda = True\<rparr>,
             g_output_triton = \<lparr>ptr1 = brk h + 98432, numel = 98432, on_cuda = True\<rparr>,
             g_output_torch = \<lparr>ptr1 = brk h + 196864, numel = 98432, on_cuda = True\<rparr>,
             g_n_elements = 98432\<rparr>, h1)"
    "brk h1 = brk h + 295296" "launches h1 = launches h + 1"
    "stdout h1 = stdout h @
       [repr (map (\<lambda>i. ref_asin (rand i)) [0..<98432]), repr (map (\<lambda>i. asin (rand i)) [0..<98432]),
        ''The maximum difference between torch and triton is '' @
          fmt (Max ((\<lambda>i. \<bar>ref_asin (rand i) - asin (rand i)\<bar>) ` {..<98432}))]"
    "\<And>i. i < 98432 \<Longrightarrow> mem (device h1) (brk h + i) = rand i"
    "\<And>i. i < 98432 \<Longrightarrow> mem (device h1) (brk h + 196864 + i) = ref_asin (rand i)"
    by (rule asin_default_cell_run [of asin undef rand ref_asin repr fmt h]) blast
  define x where "x = \<lparr>ptr1 = brk h, numel = 98432, on_cuda = True\<rparr>"
  define t where "t = \<lparr>ptr1 = brk h + 196864, numel = 98432, on_cuda = True\<rparr>"
  define y where "y = \<lparr>ptr1 = brk h + 295296, numel = 98432, on_cuda = True\<rparr>"
  define h2 where "h2 = h1\<lparr>brk := brk h1 + 98432\<rparr>"
  define d3 where "d3 = run_grid (asin_kernel asin' undef (brk h) (brk h + 295296) 98432 1024)
      (cdiv 98432 1024) (device h2)"
  define h3 where "h3 = h2\<lparr>device := d3, launches := launches h2 + 1\<rparr>"
  define out where "out = [repr (map (\<lambda>i. ref_asin (rand i)) [0..<98432]),
      repr (map (\<lambda>i. asin' (rand i)) [0..<98432]),
      ''The maximum difference between torch and triton is '' @
        fmt (Max ((\<lambda>i. \<bar>ref_asin (rand i) - asin' (rand i)\<bar>) ` {..<98432}))]"
  define h4 where "h4 = h3\<lparr>stdout := stdout h3 @ out\<rparr>"
  have e: "torch_empty_like h1 x = (y, h2)"
    by (simp add: torch_empty_like_def x_def y_def h2_def h1(2))
  have l: "launch_asin_kernel asin' undef x y 98432 1024 h2 = (Inr (), h3)"
    by (simp add: launch_asin_kernel_1024 x_def y_def h3_def d3_def)
  have U: "tensor1_values (mem (device h3)) y = map (\<lambda>i. asin' (rand i)) [0..<98432]"
  proof -
    have "tensor1_values (mem d3) y = map (\<lambda>i. asin' (mem (device h2) (brk h + i))) [0..<98432]"
      unfolding d3_def y_def by (rule asin_grid_values) simp
    then show ?thesis by (simp add: h3_def h2_def h1(5))
  qed
  have T: "tensor1_values (mem (device h3)) t = map (\<lambda>i. ref_asin (rand i)) [0..<98432]"
  proof -
    have "tensor1_values (mem d3) t = map (\<lambda>i. mem (device h2) (brk h + 196864 + i)) [0..<98432]"
      unfolding d3_def t_def by (rule asin_grid_other_values) simp
    then show ?thesis by (simp add: h3_def h2_def h1(6))
  qed
  have p: "print_comparison repr fmt h3 t y = (Inr (), h4)"
    unfolding h4_def out_def by (simp add: print_comparison_prints [OF _ T U])
  have n: "asin_notebook asin asin' undef rand ref_asin repr fmt h = (Inr (), h4)"
    using e l p by (simp add: asin_notebook_def h1(1) x_def t_def)
  show ?thesis
  proof (rule that [of h4])
    show "asin_notebook asin asin' undef rand ref_asin repr fmt h = (Inr (), h4)" by fact
    show "launches h4 = launches h + 2" by (simp add: h4_def h3_def h2_def h1(3))
    show "stdout h4 = stdout h @
       [repr (map (\<lambda>i. ref_asin (rand i)) [0..<98432]), repr (map (\<lambda>i. asin (rand i)) [0..<98432]),
        ''The maximum difference between torch and triton is '' @
          fmt (Max ((\<lambda>i. \<bar>ref_asin (rand i) - asin (rand i)\<bar>) ` {..<98432})),
        repr (map (\<lambda>i. ref_asin (rand i)) [0..<98432]), repr (map (\<lambda>i. asin' (rand i)) [0..<98432]),
        ''The maximum difference between torch and triton is '' @
          fmt (Max ((\<lambda>i. \<bar>ref_asin (rand i) - asin' (rand i)\<bar>) ` {..<98432}))]"
      by (simp add: h4_def h3_def h2_def h1(4) out_def)
  qed
qed

lemma tensor_values_eqI:
  assumes "t_shape t = (m, n)"
    and "\<And>r c. r < m \<Longrightarrow> c < n \<Longrightarrow> M (data_ptr t + r * fst (t_stride t) + c * snd (t_stride t)) = F r c"
  shows "tensor_values M t = map (\<lambda>r. map (\<lambda>c. F r c) [0..<n]) [0..<m]"
  using assms by (simp add: tensor_values_def)

lemma configs_block_k_dvd:
  assumes "cfg \<in> set configs"
  shows "BLOCK_SIZE_K cfg dvd 512"
proof -
  have "BLOCK_SIZE_K cfg = 64 \<or> BLOCK_SIZE_K cfg = 32" using assms by (auto simp: configs_def)
  moreover have "(64::nat) dvd 512" "(32::nat) dvd 512" by simp_all
  ultimately show ?thesis by auto
qed

lemma unit_test_cell_run:
  fixes h :: "('v::semiring_0) host"
  assumes "cfg \<in> set configs"
  obtains h' where
    "unit_test_cell cast oob randn ref_matmul torch_allclose repr cfg h = (Inr (), h')"
    "launches h' = launches h + 1"
    "stdout h' = stdout h @
       [''triton_output='' @ repr
          (map (\<lambda>r. map (\<lambda>c. cast Float16 (\<Sum>k\<leftarrow>[0..<512]. randn (r * 512 + k) * randn (512 * 512 + k * 512 + c)))
                      [0..<512]) [0..<512]),
        ''torch_output='' @ repr
          (map (\<lambda>r. map (\<lambda>c. ref_matmul
                  (map (\<lambda>r. map (\<lambda>c. randn (r * 512 + c)) [0..<512]) [0..<512])
                  (map (\<lambda>r. map (\<lambda>c. randn (512 * 512 + r * 512 + c)) [0..<512]) [0..<512]) r c)
                      [0..<512]) [0..<512]),
        if torch_allclose
             (map (\<lambda>r. map (\<lambda>c. cast Float16 (\<Sum>k\<leftarrow>[0..<512]. randn (r * 512 + k) * randn (512 * 512 + k * 512 + c)))
                      [0..<512]) [0..<512])
             (map (\<lambda>r. map (\<lambda>c. ref_matmul
                  (map (\<lambda>r. map (\<lambda>c. randn (r * 512 + c)) [0..<512]) [0..<512])
                  (map (\<lambda>r. map (\<lambda>c. randn (512 * 512 + r * 512 + c)) [0..<512]) [0..<512]) r c)
                      [0..<512]) [0..<512])
             (1 / 100) 0
        then [CHR 0xE2, CHR 0x9C, CHR 0x85] @ '' Triton and Torch match''
        else [CHR 0xE2, CHR 0x9D, CHR 0x8C] @ '' Triton and Torch differ'']"
proof -
  define A where "A = map (\<lambda>r. map (\<lambda>c. randn (r * 512 + c)) [0..<512]) [0..<512]"
  define B where "B = map (\<lambda>r. map (\<lambda>c. randn (512 * 512 + r * 512 + c)) [0..<512]) [0..<512]"
  define T where "T = map (\<lambda>r. map (\<lambda>c. cast Float16
      (\<Sum>k\<leftarrow>[0..<512]. randn (r * 512 + k) * randn (512 * 512 + k * 512 + c))) [0..<512]) [0..<512]"
  define R where "R = map (\<lambda>r. map (\<lambda>c. ref_matmul A B r c) [0..<512]) [0..<512]"
  define a where "a = \<lparr>data_ptr = brk h, t_dtype = Float16, t_shape = (512, 512), t_stride = (512, 1), is_cuda = True\<rparr>"
  define b where "b = \<lparr>data_ptr = brk h + 262144, t_dtype = Float16, t_shape = (512, 512), t_stride = (512, 1),
      is_cuda = True\<rparr>"
  define h1 where "h1 = fill_from (h\<lparr>brk := brk h + 262144\<rparr>) (brk h) 262144 (\<lambda>i. randn (0 + i))"
  define h2 where "h2 = fill_from (h1\<lparr>brk := brk h + 524288\<rparr>) (brk h + 262144) 262144 (\<lambda>i. randn (512 * 512 + i))"
  define c where "c = matmul_output h2 a b"
  define h3 where "h3 = snd (matmul cast oob cfg h2 a b)"
  define t where "t = \<lparr>data_ptr = brk h + 786432, t_dtype = Float16, t_shape = (512, 512), t_stride = (512, 1),
      is_cuda = True\<rparr>"
  define h4 where "h4 = fill_from (h3\<lparr>brk := brk h + 1048576\<rparr>) (brk h + 786432) 262144
      (\<lambda>i. ref_matmul (tensor_values (mem (device h3)) a) (tensor_values (mem (device h3)) b) (i div 512) (i mod 512))"
  note p = configs_positive [OF assms]
  have ra: "torch_randn randn 0 h (512, 512) True Float16 = (a, h1)"
    by (simp add: torch_randn_def torch_empty_def a_def h1_def)
  have rb: "torch_randn randn 262144 h1 (512, 512) True Float16 = (b, h2)"
    by (simp add: torch_randn_def torch_empty_def b_def h2_def h1_def add.commute)
  have pre: "snd (t_shape a) = fst (t_shape b)" "is_contiguous a" "is_contiguous b"
    "t_dtype a = Float16" "is_cuda a" "is_cuda b"
    by (simp_all add: a_def b_def is_contiguous_def)
  have al: "allocated h2 a" "allocated h2 b"
    by (auto simp: allocated_def a_def b_def elem_addr_def h2_def)
  have sh: "fst (t_shape a) = 512" "snd (t_shape b) = 512" "fst (t_shape b) = 512" "brk h2 = brk h + 524288"
    by (simp_all add: a_def b_def h2_def)
  have m: "matmul cast oob cfg h2 a b = (Inr c, h3)"
    by (simp add: matmul_launches [OF pre(1,2,3) p(1,2) pre(4,5,6)] c_def h3_def)
  have cs: "data_ptr c = brk h + 524288" "t_shape c = (512, 512)" "t_stride c = (512, 1)"
    "t_dtype c = Float16" "is_cuda c"
    by (simp_all add: c_def sh pre)
  have m2a: "mem (device h2) (brk h + r * 512 + k) = randn (r * 512 + k)" if "r < 512" "k < 512" for r k
    using that by (simp add: h2_def h1_def)
  have m2b: "mem (device h2) (brk h + 262144 + k * 512 + j) = randn (262144 + k * 512 + j)"
    if "k < 512" "j < 512" for k j
    using that by (simp add: h2_def h1_def add.assoc)
  have b3: "brk h3 = brk h + 786432" "launches h3 = launches h + 1" "stdout h3 = stdout h"
    by (simp_all add: h3_def matmul_launches [OF pre(1,2,3) p(1,2) pre(4,5,6)] sh h2_def h1_def)
  have fr: "mem (device h3) q = mem (device h2) q" if "q < brk h + 524288" for q
    unfolding h3_def by (rule matmul_frame [OF p(3)]) (use that sh in simp)
  have m3c: "mem (device h3) (brk h + 524288 + r * 512 + j) =
      cast Float16 (\<Sum>k\<leftarrow>[0..<512]. randn (r * 512 + k) * randn (262144 + k * 512 + j))"
    if "r < 512" "j < 512" for r j
  proof -
    have d: "BLOCK_SIZE_K cfg dvd fst (t_shape b)" using configs_block_k_dvd [OF assms] by (simp add: sh)
    have "mem (device (snd (matmul cast oob cfg h2 a b))) (elem_addr (brk h2) (max (snd (t_shape b)) 1, 1) r j)
         = cast Float16 (matrix_product (mem (device h2)) (launch_args a b (matmul_output h2 a b)) r j)"
      by (rule matmul_product_when_aligned [OF pre(1,2,3) assms d al _ _ pre(4,5,6)]) (use that sh in simp_all)
    moreover have "matrix_product (mem (device h2)) (launch_args a b (matmul_output h2 a b)) r j
        = (\<Sum>k\<leftarrow>[0..<512]. randn (r * 512 + k) * randn (262144 + k * 512 + j))"
    proof -
      have "matrix_product (mem (device h2)) (launch_args a b (matmul_output h2 a b)) r j
          = (\<Sum>k\<leftarrow>[0..<512]. mem (device h2) (brk h + r * 512 + k)
               * mem (device h2) (brk h + 262144 + k * 512 + j))"
        by (simp add: matrix_product_def elem_addr_def a_def b_def)
      also have "\<dots> = (\<Sum>k\<leftarrow>[0..<512]. randn (r * 512 + k) * randn (262144 + k * 512 + j))"
        by (rule arg_cong [where f = sum_list], rule map_cong) (use that in \<open>simp_all add: m2a m2b\<close>)
      finally show ?thesis .
    qed
    ultimately show ?thesis by (simp add: h3_def sh elem_addr_def add.assoc)
  qed
  have va: "tensor_values (mem (device h3)) a = A"
    unfolding A_def
    by (rule tensor_values_eqI) (simp_all add: a_def fr m2a)
  have vb: "tensor_values (mem (device h3)) b = B"
    unfolding B_def
    by (rule tensor_values_eqI) (simp_all add: b_def fr m2b)
  have tm: "torch_matmul ref_matmul h3 a b = (Inr t, h4)"
    by (simp add: torch_matmul_def torch_empty_def pre sh b3 a_def t_def h4_def add.commute)
  have vc: "tensor_values (mem (device h4)) c = T"
    unfolding T_def
    by (rule tensor_values_eqI) (simp_all add: cs h4_def m3c)
  have vt: "tensor_values (mem (device h4)) t = R"
    unfolding R_def
    by (rule tensor_values_eqI) (simp_all add: t_def h4_def va vb)
  define msg where "msg = (if torch_allclose T R (1 / 100) 0
        then [CHR 0xE2, CHR 0x9C, CHR 0x85] @ '' Triton and Torch match''
        else [CHR 0xE2, CHR 0x9D, CHR 0x8C] @ '' Triton and Torch differ'')"
  define h5 where "h5 = h4\<lparr>stdout := stdout h4 @ [''triton_output='' @ repr T, ''torch_output='' @ repr R, msg]\<rparr>"
  have u: "unit_test_cell cast oob randn ref_matmul torch_allclose repr cfg h = (Inr (), h5)"
    by (simp add: unit_test_cell_def ra rb m tm vc vt h5_def msg_def)
  show ?thesis
  proof (rule that [of h5])
    show "unit_test_cell cast oob randn ref_matmul torch_allclose repr cfg h = (Inr (), h5)" by fact
    show "launches h5 = launches h + 1" by (simp add: h5_def h4_def b3)
    show "stdout h5 = stdout h @
       [''triton_output='' @ repr
          (map (\<lambda>r. map (\<lambda>c. cast Float16 (\<Sum>k\<leftarrow>[0..<512]. randn (r * 512 + k) * randn (512 * 512 + k * 512 + c)))
                      [0..<512]) [0..<512]),
        ''torch_output='' @ repr
          (map (\<lambda>r. map (\<lambda>c. ref_matmul
                  (map (\<lambda>r. map (\<lambda>c. randn (r * 512 + c)) [0..<512]) [0..<512])
                  (map (\<lambda>r. map (\<lambda>c. randn (512 * 512 + r * 512 + c)) [0..<512]) [0..<512]) r c)
                      [0..<512]) [0..<512]),
        if torch_allclose
             (map (\<lambda>r. map (\<lambda>c. cast Float16 (\<Sum>k\<leftarrow>[0..<512]. randn (r * 512 + k) * randn (512 * 512 + k * 512 + c)))
                      [0..<512]) [0..<512])
             (map (\<lambda>r. map (\<lambda>c. ref_matmul
                  (map (\<lambda>r. map (\<lambda>c. randn (r * 512 + c)) [0..<512]) [0..<512])
                  (map (\<lambda>r. map (\<lambda>c. randn (512 * 512 + r * 512 + c)) [0..<512]) [0..<512]) r c)
                      [0..<512]) [0..<512])
             (1 / 100) 0
        then [CHR 0xE2, CHR 0x9C, CHR 0x85] @ '' Triton and Torch match''
        else [CHR 0xE2, CHR 0x9D, CHR 0x8C] @ '' Triton and Torch differ'']"
      unfolding h5_def msg_def T_def R_def A_def B_def by (simp add: h4_def b3)
  qed
qed

section \<open>The asin launch\<close>

text \<open>
  Claim C2. For a positive \<open>BLOCK_SIZE\<close> and an output buffer that does not overlap the
  input, the launch on \<open>cdiv(n_elements, BLOCK_SIZE)\<close> programs returns, and afterwards
  \<open>y[i] = asin(x[i])\<close> for every \<open>i < n_elements\<close>. The program with id \<open>pid\<close> loads
  and stores exactly at the offsets of \<open>[pid * BLOCK_SIZE, (pid + 1) * BLOCK_SIZE)\<close> that
  are below \<open>n_elements\<close>; over the whole launch the loads are exactly the offsets
  \<open>0, ..., n_elements - 1\<close> of \<open>x\<close> and the stores exactly those of \<open>y\<close>, so no offset
  \<open>i \<ge> n_elements\<close> is loaded or stored.
\<close>

theorem asin_launch_correct:
  assumes "0 < BLOCK_SIZE"
    and "x_ptr + n_elements \<le> y_ptr \<or> y_ptr + n_elements \<le> x_ptr"
  shows "\<exists>d'. asin_launch asin undef x_ptr y_ptr n_elements BLOCK_SIZE d = Inr d'
      \<and> (\<forall>i<n_elements. mem d' (y_ptr + i) = asin (mem d (x_ptr + i)))
      \<and> loads d' = loads d @ map (\<lambda>i. x_ptr + i) [0..<n_elements]
      \<and> stores d' = stores d @ map (\<lambda>i. y_ptr + i) [0..<n_elements]
      \<and> (\<forall>pid d0. loads (asin_kernel asin undef x_ptr y_ptr n_elements BLOCK_SIZE pid d0) =
            loads d0 @ map (\<lambda>i. x_ptr + i)
              (filter (\<lambda>i. i < n_elements) [pid * BLOCK_SIZE..<(pid + 1) * BLOCK_SIZE])
          \<and> stores (asin_kernel asin undef x_ptr y_ptr n_elements BLOCK_SIZE pid d0) =
            stores d0 @ map (\<lambda>i. y_ptr + i)
              (filter (\<lambda>i. i < n_elements) [pid * BLOCK_SIZE..<(pid + 1) * BLOCK_SIZE]))"
proof -
  let ?g = "cdiv n_elements BLOCK_SIZE"
  let ?d' = "run_grid (asin_kernel asin undef x_ptr y_ptr n_elements BLOCK_SIZE) ?g d"
  have ge: "n_elements \<le> ?g * BLOCK_SIZE" using assms(1) by (rule cdiv_mult_ge)
  have 1: "asin_launch asin undef x_ptr y_ptr n_elements BLOCK_SIZE d = Inr ?d'"
    using assms(1) by (simp add: asin_launch_def py_cdiv_def)
  have 2: "\<forall>i<n_elements. mem ?d' (y_ptr + i) = asin (mem d (x_ptr + i))"
    using asin_grid_mem_at[OF assms(2)] ge by (metis less_le_trans)
  have m: "min (?g * BLOCK_SIZE) n_elements = n_elements" using ge by simp
  have 3: "loads ?d' = loads d @ map (\<lambda>i. x_ptr + i) [0..<n_elements]"
    by (simp add: asin_grid_loads filter_less_upt m)
  have 4: "stores ?d' = stores d @ map (\<lambda>i. y_ptr + i) [0..<n_elements]"
    by (simp add: asin_grid_stores filter_less_upt m)
  show ?thesis using 1 2 3 4 by (simp add: asin_kernel_loads asin_kernel_stores add.commute)
qed

theorem asin_launch_correct_witness:
  "(0::nat) < 2 \<and> ((0::nat) + 3 \<le> 3 \<or> (3::nat) + 3 \<le> 0)
   \<and> (\<exists>d'. asin_launch uminus (0::int) 0 3 3 2 \<lparr>mem = int, loads = [], stores = []\<rparr> = Inr d'
         \<and> mem d' 4 = - 1 \<and> loads d' = [0, 1, 2] \<and> stores d' = [3, 4, 5])"
proof -
  let ?d = "\<lparr>mem = int, loads = [], stores = []\<rparr>"
  have h1: "(0::nat) < 2" by simp
  have h2: "(0::nat) + 3 \<le> 3 \<or> (3::nat) + 3 \<le> 0" by simp
  from asin_launch_correct [OF h1 h2, of uminus 0 ?d]
  obtain d' where r: "asin_launch uminus (0::int) 0 3 3 2 ?d = Inr d'"
    and m: "\<forall>i<3. mem d' (3 + i) = - mem ?d (0 + i)"
    and l: "loads d' = loads ?d @ map (\<lambda>i. 0 + i) [0..<3]"
    and s: "stores d' = stores ?d @ map (\<lambda>i. 3 + i) [0..<3]"
    by blast
  have "mem d' (3 + 1) = - mem ?d (0 + 1)" using m by (intro m[rule_format]) simp
  then have "mem d' 4 = - 1" by simp
  moreover have "loads d' = [0, 1, 2]" using l by (simp add: upt_rec)
  moreover have "stores d' = [3, 4, 5]" using s by (simp add: upt_rec)
  ultimately show ?thesis using r h1 h2 by blast
qed

text \<open>
  Claim C10. The store mask \<open>offsets < n_elements\<close> keeps every element of the output
  buffer at an index \<open>i \<ge> n_elements\<close> at its prior value: after any single program, and
  after the whole launch (which returns whenever \<open>BLOCK_SIZE\<close> is positive).
\<close>

theorem asin_output_tail_unchanged:
  assumes "n_elements \<le> i"
  shows "mem (asin_kernel asin undef x_ptr y_ptr n_elements BLOCK_SIZE pid d) (y_ptr + i) = mem d (y_ptr + i)
     \<and> (\<forall>d'. asin_launch asin undef x_ptr y_ptr n_elements BLOCK_SIZE d = Inr d' \<longrightarrow>
           mem d' (y_ptr + i) = mem d (y_ptr + i))
     \<and> (0 < BLOCK_SIZE \<longrightarrow> (\<exists>d'. asin_launch asin undef x_ptr y_ptr n_elements BLOCK_SIZE d = Inr d'))"
proof -
  have "mem (asin_kernel asin undef x_ptr y_ptr n_elements BLOCK_SIZE pid d) (y_ptr + i) = mem d (y_ptr + i)"
    using assms by (intro asin_kernel_mem_other) simp
  moreover have "mem (run_grid (asin_kernel asin undef x_ptr y_ptr n_elements BLOCK_SIZE) g d) (y_ptr + i) = mem d (y_ptr + i)" for g
    using assms by (intro asin_grid_mem_other) simp
  ultimately show ?thesis
    by (auto simp: asin_launch_def py_cdiv_def)
qed

theorem asin_output_tail_unchanged_witness:
  "(3::nat) \<le> 4
   \<and> mem (asin_kernel uminus (0::int) 0 3 3 2 1 \<lparr>mem = int, loads = [], stores = []\<rparr>) (3 + 4) = 7
   \<and> (\<exists>d'. asin_launch uminus (0::int) 0 3 3 2 \<lparr>mem = int, loads = [], stores = []\<rparr> = Inr d'
         \<and> mem d' (3 + 4) = 7)"
  using asin_output_tail_unchanged [of 3 4 uminus 0 0 3 2 1 "\<lparr>mem = int, loads = [], stores = []\<rparr>"]
  by auto

section \<open>The matrix multiplication: properties\<close>

text \<open>
  Claim C1. \<open>matmul(a, b)\<close> is claimed to return the product for every compatible,
  contiguous \<open>A\<close> and \<open>B\<close>. Lemma \<open>matmul_result\<close> gives what the code computes: the
  conversion to \<open>float16\<close> of the product entry plus, for every \<open>k\<close> from \<open>K\<close> up to the
  next multiple of \<open>BLOCK_SIZE_K\<close>, the product of the two fills. On \<open>A = [[1]]\<close>,
  \<open>B = [[1]]\<close> and the first declared configuration (\<open>BLOCK_SIZE_K = 64\<close>), with lanes out
  of bounds filled with 1, the call succeeds and the entry of the product is 1, but the
  entry stored in \<open>C\<close> is 64. The product is returned when \<open>BLOCK_SIZE_K\<close> divides \<open>K\<close>
  (\<open>matmul_product_when_aligned\<close>) and when the fill is zero
  (\<open>matmul_product_when_zero_filled\<close>).
\<close>

theorem matmul_unaligned_K_adds_fill:
  "fst (matmul exact (fill_with 1) (hd configs) ones_host ones_a ones_b)
     = Inr (matmul_output ones_host ones_a ones_b)
   \<and> data_ptr (matmul_output ones_host ones_a ones_b) = 2
   \<and> matrix_product (mem (device ones_host))
        (launch_args ones_a ones_b (matmul_output ones_host ones_a ones_b)) 0 0 = 1
   \<and> mem (device (snd (matmul exact (fill_with 1) (hd configs) ones_host ones_a ones_b))) 2 = 64"
proof -
  have "fst (matmul exact (fill_with 1) (hd configs) ones_host ones_a ones_b)
     = Inr (matmul_output ones_host ones_a ones_b)"
    by (simp add: matmul_launches [OF ones_facts(1,2,3) _ _ ones_facts(8,9,10)] hd_configs)
  moreover have "data_ptr (matmul_output ones_host ones_a ones_b) = 2"
    by (simp add: ones_host_def)
  moreover have "matrix_product (mem (device ones_host))
        (launch_args ones_a ones_b (matmul_output ones_host ones_a ones_b)) 0 0 = 1"
    by (simp add: matrix_product_def ones_host_def ones_b_def)
  moreover have "mem (device (snd (matmul exact (fill_with 1) (hd configs) ones_host ones_a ones_b))) 2 = 64"
    by (simp add: ones_result sum_list_triv fill_with_def)
  ultimately show ?thesis by blast
qed



text \<open>
  Claim C4. Every load and store of the kernel passes \<open>boundary_check=(0, 1)\<close>, and no
  program accesses an address outside the declared shapes (lemma
  \<open>kernel_accesses_in_bounds\<close>). The claim adds that the lanes out of bounds are padded so
  that they do not affect any entry of the result inside \<open>C\<close>. On \<open>A = [[1]]\<close>,
  \<open>B = [[1]]\<close> the one entry of \<open>C\<close> is 1 when those lanes are filled with 0 and 64 when
  they are filled with 1: the fill along \<open>K\<close> reaches the result.
\<close>

theorem matmul_result_depends_on_fill:
  "mem (device (snd (matmul exact (fill_with 0) (hd configs) ones_host ones_a ones_b))) 2 = 1
   \<and> mem (device (snd (matmul exact (fill_with 1) (hd configs) ones_host ones_a ones_b))) 2 = 64"
  by (simp add: ones_result sum_list_triv fill_with_def)

text \<open>
  Claim C5. After any number of iterations of the loop the accumulator is a \<open>float32\<close>
  block. The loop of the kernel ends in the state after \<open>cdiv(K, BLOCK_SIZE_K)\<close>
  iterations; the kernel is one store, through the block pointer of \<open>C\<close>, of that final
  accumulator converted to \<open>float16\<close>; so, \<open>C\<close> being \<open>float16\<close>, the program returns
  and every entry of the tile inside a row-major \<open>C\<close> holds the conversion of the
  accumulator's element.
\<close>

theorem accumulator_float32_single_downcast:
  assumes "0 < BLOCK_SIZE_K cfg"
  shows "(\<forall>t. blk_dtype (accumulator (loop_after oob ka cfg pid d t)) = Float32)
       \<and> k_loop oob (BLOCK_SIZE_K cfg) (dim_K ka) 0 (loop_init ka cfg pid d)
           = loop_after oob ka cfg pid d (cdiv (dim_K ka) (BLOCK_SIZE_K cfg))
       \<and> matmul_kernel_with_block_pointers cast oob ka cfg pid d =
           store_block (ls_device (loop_after oob ka cfg pid d (cdiv (dim_K ka) (BLOCK_SIZE_K cfg))))
             (tile_c_ptr ka cfg pid)
             (block_to cast (accumulator (loop_after oob ka cfg pid d (cdiv (dim_K ka) (BLOCK_SIZE_K cfg)))) Float16)
             [0, 1]
       \<and> blk_dtype (block_to cast (accumulator (loop_after oob ka cfg pid d (cdiv (dim_K ka) (BLOCK_SIZE_K cfg)))) Float16)
           = Float16
       \<and> (elem_ty (c_ptr ka) = Float16 \<and> stride_cn ka = 1 \<and> dim_N ka \<le> stride_cm ka \<longrightarrow>
           (\<exists>d'. matmul_kernel_with_block_pointers cast oob ka cfg pid d = Inr d' \<and>
              (\<forall>r c. (r, c) \<in> tile_indices ka cfg (program_tile ka cfg pid) \<longrightarrow>
                 mem d' (elem_addr (addr (c_ptr ka)) (stride_cm ka, stride_cn ka) r c)
                 = cast Float16
                     (blk_elem (accumulator (loop_after oob ka cfg pid d (cdiv (dim_K ka) (BLOCK_SIZE_K cfg))))
                        (r - fst (program_tile ka cfg pid) * BLOCK_SIZE_M cfg)
                        (c - snd (program_tile ka cfg pid) * BLOCK_SIZE_N cfg)))))"
proof -
  have 1: "\<forall>t. blk_dtype (accumulator (loop_after oob ka cfg pid d t)) = Float32" by simp
  have 2: "k_loop oob (BLOCK_SIZE_K cfg) (dim_K ka) 0 (loop_init ka cfg pid d)
           = loop_after oob ka cfg pid d (cdiv (dim_K ka) (BLOCK_SIZE_K cfg))"
    by (simp add: k_loop_funpow [OF assms] loop_after_def)
  have 4: "blk_dtype (block_to cast (accumulator (loop_after oob ka cfg pid d (cdiv (dim_K ka) (BLOCK_SIZE_K cfg)))) Float16)
           = Float16" by (simp add: block_to_def)
  have 3: "matmul_kernel_with_block_pointers cast oob ka cfg pid d =
           store_block (ls_device (loop_after oob ka cfg pid d (cdiv (dim_K ka) (BLOCK_SIZE_K cfg))))
             (tile_c_ptr ka cfg pid)
             (block_to cast (accumulator (loop_after oob ka cfg pid d (cdiv (dim_K ka) (BLOCK_SIZE_K cfg)))) Float16)
             [0, 1]"
    by (simp add: kernel_store 2 Let_def)
  have 5: "\<exists>d'. matmul_kernel_with_block_pointers cast oob ka cfg pid d = Inr d' \<and>
              (\<forall>r c. (r, c) \<in> tile_indices ka cfg (program_tile ka cfg pid) \<longrightarrow>
                 mem d' (elem_addr (addr (c_ptr ka)) (stride_cm ka, stride_cn ka) r c)
                 = cast Float16
                     (blk_elem (accumulator (loop_after oob ka cfg pid d (cdiv (dim_K ka) (BLOCK_SIZE_K cfg))))
                        (r - fst (program_tile ka cfg pid) * BLOCK_SIZE_M cfg)
                        (c - snd (program_tile ka cfg pid) * BLOCK_SIZE_N cfg)))"
    if "elem_ty (c_ptr ka) = Float16" "stride_cn ka = 1" "dim_N ka \<le> stride_cm ka"
    using kernel_runs [OF that(1), of cast oob cfg pid d]
      kernel_mem_at_acc [OF assms that(2,3), of _ _ pid cast oob d]
    by blast
  show ?thesis
    using 1 2 3 4 5 by blast
qed

theorem accumulator_float32_single_downcast_witness:
  "(\<forall>t. blk_dtype (accumulator (loop_after (fill_with 0) test_args (hd configs) 0 (device ones_host) t)) = Float32)
   \<and> blk_dtype (block_to exact (accumulator (loop_after (fill_with 0) test_args (hd configs) 0 (device ones_host)
        (cdiv (dim_K test_args) (BLOCK_SIZE_K (hd configs))))) Float16) = Float16
   \<and> (\<exists>d'. matmul_kernel_with_block_pointers exact (fill_with 0) test_args (hd configs) 0 (device ones_host) = Inr d'
        \<and> mem d' (elem_addr (addr (c_ptr test_args)) (stride_cm test_args, stride_cn test_args) 0 0)
          = exact Float16 (blk_elem (accumulator (loop_after (fill_with 0) test_args (hd configs) 0 (device ones_host)
              (cdiv (dim_K test_args) (BLOCK_SIZE_K (hd configs))))) 0 0))"
proof -
  have h: "0 < BLOCK_SIZE_K (hd configs)" by (simp add: hd_configs)
  note t = accumulator_float32_single_downcast [OF h, where cast = exact and oob = "fill_with 0"
      and ka = test_args and pid = 0 and d = "device ones_host"]
  have p: "program_tile test_args (hd configs) 0 = (0, 0)"
    unfolding program_tile_def pid_to_tile_def Let_def
    by (simp add: test_args_def hd_configs cdiv_def)
  have i: "(0, 0) \<in> tile_indices test_args (hd configs) (program_tile test_args (hd configs) 0)"
    unfolding p by (simp add: tile_indices_def test_args_def hd_configs)
  have c: "elem_ty (c_ptr test_args) = Float16 \<and> stride_cn test_args = 1 \<and> dim_N test_args \<le> stride_cm test_args"
    by (simp add: test_args_def)
  from t c obtain d' where d: "matmul_kernel_with_block_pointers exact (fill_with 0) test_args (hd configs) 0 (device ones_host) = Inr d'"
    "\<forall>r c. (r, c) \<in> tile_indices test_args (hd configs) (program_tile test_args (hd configs) 0) \<longrightarrow>
                 mem d' (elem_addr (addr (c_ptr test_args)) (stride_cm test_args, stride_cn test_args) r c)
                 = exact Float16
                     (blk_elem (accumulator (loop_after (fill_with 0) test_args (hd configs) 0 (device ones_host) (cdiv (dim_K test_args) (BLOCK_SIZE_K (hd configs)))))
                        (r - fst (program_tile test_args (hd configs) 0) * BLOCK_SIZE_M (hd configs))
                        (c - snd (program_tile test_args (hd configs) 0) * BLOCK_SIZE_N (hd configs)))"
    by blast
  from d(2) i have "mem d' (elem_addr (addr (c_ptr test_args)) (stride_cm test_args, stride_cn test_args) 0 0)
          = exact Float16 (blk_elem (accumulator (loop_after (fill_with 0) test_args (hd configs) 0 (device ones_host)
              (cdiv (dim_K test_args) (BLOCK_SIZE_K (hd configs))))) 0 0)"
    by (simp add: p)
  with d(1) have 3: "\<exists>d'. matmul_kernel_with_block_pointers exact (fill_with 0) test_args (hd configs) 0 (device ones_host) = Inr d'
        \<and> mem d' (elem_addr (addr (c_ptr test_args)) (stride_cm test_args, stride_cn test_args) 0 0)
          = exact Float16 (blk_elem (accumulator (loop_after (fill_with 0) test_args (hd configs) 0 (device ones_host)
              (cdiv (dim_K test_args) (BLOCK_SIZE_K (hd configs))))) 0 0)" by blast
  from t have 1: "\<forall>t. blk_dtype (accumulator (loop_after (fill_with 0) test_args (hd configs) 0 (device ones_host) t)) = Float32"
    by (rule conjunct1)
  from t have 2: "blk_dtype (block_to exact (accumulator (loop_after (fill_with 0) test_args (hd configs) 0 (device ones_host)
        (cdiv (dim_K test_args) (BLOCK_SIZE_K (hd configs))))) Float16) = Float16"
    by (rule conjunct2 [THEN conjunct2, THEN conjunct2, THEN conjunct1])
  show ?thesis using 1 2 3 by (intro conjI)
qed

text \<open>
  Claim C9. With one of the declared configurations and inputs that are allocated, every
  element of \<open>A\<close> and of \<open>B\<close>, and indeed every address below the allocator's break, holds
  after \<open>matmul(a, b)\<close> what it held before, whether the call raises or returns; the
  stores of the call all go to the addresses of the freshly allocated output.
\<close>

theorem matmul_preserves_inputs:
  assumes "cfg \<in> set configs" "allocated h a" "allocated h b"
  shows "(\<forall>r<fst (t_shape a). \<forall>c<snd (t_shape a).
            mem (device (snd (matmul cast oob cfg h a b))) (elem_addr (data_ptr a) (t_stride a) r c)
          = mem (device h) (elem_addr (data_ptr a) (t_stride a) r c))
       \<and> (\<forall>r<fst (t_shape b). \<forall>c<snd (t_shape b).
            mem (device (snd (matmul cast oob cfg h a b))) (elem_addr (data_ptr b) (t_stride b) r c)
          = mem (device h) (elem_addr (data_ptr b) (t_stride b) r c))
       \<and> (\<forall>x<brk h. mem (device (snd (matmul cast oob cfg h a b))) x = mem (device h) x)
       \<and> set (stores (device (snd (matmul cast oob cfg h a b))))
           \<subseteq> set (stores (device h)) \<union>
              tensor_addrs (brk h) (fst (t_shape a), snd (t_shape b)) (max (snd (t_shape b)) 1, 1)"
proof -
  have bk: "0 < BLOCK_SIZE_K cfg" using assms(1) by (rule configs_positive)
  have fr: "mem (device (snd (matmul cast oob cfg h a b))) x = mem (device h) x" if "x < brk h" for x
    using bk that by (rule matmul_frame)
  show ?thesis
    using fr matmul_stores [OF bk, of cast oob h a b] assms(2,3)
    by (simp add: allocated_def)
qed

theorem matmul_preserves_inputs_witness:
  "mem (device (snd (matmul exact (fill_with 1) (hd configs) ones_host ones_a ones_b)))
       (elem_addr (data_ptr ones_a) (t_stride ones_a) 0 0)
     = mem (device ones_host) (elem_addr (data_ptr ones_a) (t_stride ones_a) 0 0)
   \<and> mem (device (snd (matmul exact (fill_with 1) (hd configs) ones_host ones_a ones_b)))
       (elem_addr (data_ptr ones_b) (t_stride ones_b) 0 0)
     = mem (device ones_host) (elem_addr (data_ptr ones_b) (t_stride ones_b) 0 0)"
proof -
  note t = matmul_preserves_inputs [OF hd_configs(1) ones_facts(4,5), where cast = exact and oob = "fill_with 1"]
  have "(0::nat) < fst (t_shape ones_a)" "(0::nat) < snd (t_shape ones_a)"
    "(0::nat) < fst (t_shape ones_b)" "(0::nat) < snd (t_shape ones_b)"
    by (simp_all add: ones_a_def ones_b_def)
  then show ?thesis using t by blast
qed


section \<open>Autotuning: properties\<close>

text \<open>
  Claim C7. The list has exactly eight configurations, each with \<open>GROUP_SIZE_M = 8\<close>; the
  key names are \<open>M\<close>, \<open>N\<close>, \<open>K\<close>, so the key of a launch is its three dimensions. Starting
  from a cache that holds only declared configurations, every launch of a sequence uses a
  declared configuration, and two launches with equal \<open>M\<close>, \<open>N\<close>, \<open>K\<close> use the same one,
  whatever their benchmarks measure.
\<close>

theorem autotune_fixed_list_keyed_by_dims:
  assumes "\<forall>k c. cache k = Some c \<longrightarrow> c \<in> set configs"
  shows "length configs = 8 \<and> (\<forall>c\<in>set configs. GROUP_SIZE_M c = 8)
       \<and> autotune_key = [''M'', ''N'', ''K'']
       \<and> launch_key ka = [Some (dim_M ka), Some (dim_N ka), Some (dim_K ka)]
       \<and> set (tuned_launches cache ls) \<subseteq> set configs
       \<and> (\<forall>i<length ls. \<forall>j<length ls.
            dim_M (snd (ls ! i)) = dim_M (snd (ls ! j)) \<and> dim_N (snd (ls ! i)) = dim_N (snd (ls ! j))
            \<and> dim_K (snd (ls ! i)) = dim_K (snd (ls ! j))
            \<longrightarrow> tuned_launches cache ls ! i = tuned_launches cache ls ! j)"
proof -
  have 1: "length configs = 8" by (simp add: configs_def)
  have 2: "\<forall>c\<in>set configs. GROUP_SIZE_M c = 8" by (simp add: configs_def)
  have 3: "set (tuned_launches cache ls) \<subseteq> set configs"
    using assms by (intro tuned_launches_mem) blast
  have 4: "tuned_launches cache ls ! i = tuned_launches cache ls ! j"
    if "i < length ls" "j < length ls" "launch_key (snd (ls ! i)) = launch_key (snd (ls ! j))" for i j
  proof -
    consider "i < j" | "j < i" | "i = j" by linarith
    then show ?thesis
    proof cases
      case 1
      then show ?thesis using that by (intro tuned_launches_same_key)
    next
      case 2
      then show ?thesis using that by (intro tuned_launches_same_key [symmetric]) simp_all
    next
      case 3
      then show ?thesis by simp
    qed
  qed
  have 5: "\<forall>i<length ls. \<forall>j<length ls.
            dim_M (snd (ls ! i)) = dim_M (snd (ls ! j)) \<and> dim_N (snd (ls ! i)) = dim_N (snd (ls ! j))
            \<and> dim_K (snd (ls ! i)) = dim_K (snd (ls ! j))
            \<longrightarrow> tuned_launches cache ls ! i = tuned_launches cache ls ! j"
  proof (intro allI impI)
    fix i j
    assume "i < length ls" "j < length ls"
      and "dim_M (snd (ls ! i)) = dim_M (snd (ls ! j)) \<and> dim_N (snd (ls ! i)) = dim_N (snd (ls ! j))
            \<and> dim_K (snd (ls ! i)) = dim_K (snd (ls ! j))"
    then show "tuned_launches cache ls ! i = tuned_launches cache ls ! j"
      by (intro 4) (simp_all add: launch_key_dims)
  qed
  have 6: "autotune_key = [''M'', ''N'', ''K'']" by (simp add: autotune_key_def)
  show ?thesis by (intro conjI 1 2 3 5 6 launch_key_dims)
qed

theorem autotune_fixed_list_keyed_by_dims_witness:
  "tuned_launches Map.empty [(num_stages, test_args), (num_warps, test_args)] ! 0
     = tuned_launches Map.empty [(num_stages, test_args), (num_warps, test_args)] ! 1
   \<and> launch_key test_args = [Some 512, Some 512, Some 512]
   \<and> length configs = 8"
proof -
  let ?ls = "[(num_stages, test_args), (num_warps, test_args)]"
  have h: "\<forall>k c. (Map.empty :: tune_cache) k = Some c \<longrightarrow> c \<in> set configs" by simp
  note t = autotune_fixed_list_keyed_by_dims [OF h, where ls = ?ls and ka = test_args]
  have "(0::nat) < length ?ls" "(1::nat) < length ?ls"
    "dim_M (snd (?ls ! 0)) = dim_M (snd (?ls ! 1)) \<and> dim_N (snd (?ls ! 0)) = dim_N (snd (?ls ! 1))
       \<and> dim_K (snd (?ls ! 0)) = dim_K (snd (?ls ! 1))"
    by simp_all
  then have 1: "tuned_launches Map.empty ?ls ! 0 = tuned_launches Map.empty ?ls ! 1"
    using t by blast
  have 2: "launch_key test_args = [Some 512, Some 512, Some 512]"
    using t by (simp add: test_args_def)
  have 3: "length configs = 8" using t by blast
  show ?thesis using 1 2 3 by blast
qed


section \<open>Assertions and the final checks\<close>




text \<open>
  Claim C8. The first notebook returns, and each of its two cells prints its two tensors
  and then the line that ends with the greatest \<open>|output_torch - output_triton|\<close> over
  all 98432 elements, formatted as a number. With a declared configuration the unit test
  of the second notebook returns and prints the two outputs and then the match message
  if \<open>torch.allclose(triton_output, torch_output, atol=1e-2, rtol=0)\<close> holds and the
  differ message otherwise; the two messages are different. Every entry of
  \<open>triton_output\<close> is the conversion to \<open>float16\<close> of the entry of the product
  (\<open>BLOCK_SIZE_K\<close> divides 512 in every declared configuration), and \<open>torch_output\<close> is
  what the reference routine gives.
\<close>

theorem notebook_final_checks:
  fixes h :: "('v::linordered_idom) host" and hm :: "('w::semiring_0) host"
  assumes "cfg \<in> set configs"
  shows "(\<exists>h1. asin_notebook asin asin' undef rand ref_asin repr fmt h = (Inr (), h1) \<and>
           stdout h1 = stdout h @
             [repr (map (\<lambda>i. ref_asin (rand i)) [0..<98432]),
              repr (map (\<lambda>i. asin (rand i)) [0..<98432]),
              ''The maximum difference between torch and triton is '' @
                fmt (Max ((\<lambda>i. \<bar>ref_asin (rand i) - asin (rand i)\<bar>) ` {..<98432})),
              repr (map (\<lambda>i. ref_asin (rand i)) [0..<98432]),
              repr (map (\<lambda>i. asin' (rand i)) [0..<98432]),
              ''The maximum difference between torch and triton is '' @
                fmt (Max ((\<lambda>i. \<bar>ref_asin (rand i) - asin' (rand i)\<bar>) ` {..<98432}))])
       \<and> (\<exists>h2. unit_test_cell cast oob randn ref_matmul torch_allclose reprm cfg hm = (Inr (), h2) \<and>
           stdout h2 = stdout hm @
             [''triton_output='' @ reprm
                (map (\<lambda>r. map (\<lambda>c. cast Float16
                     (\<Sum>k\<leftarrow>[0..<512]. randn (r * 512 + k) * randn (512 * 512 + k * 512 + c)))
                   [0..<512]) [0..<512]),
              ''torch_output='' @ reprm
                (map (\<lambda>r. map (\<lambda>c. ref_matmul
                     (map (\<lambda>r. map (\<lambda>c. randn (r * 512 + c)) [0..<512]) [0..<512])
                     (map (\<lambda>r. map (\<lambda>c. randn (512 * 512 + r * 512 + c)) [0..<512]) [0..<512]) r c)
                   [0..<512]) [0..<512]),
              if torch_allclose
                   (map (\<lambda>r. map (\<lambda>c. cast Float16
                        (\<Sum>k\<leftarrow>[0..<512]. randn (r * 512 + k) * randn (512 * 512 + k * 512 + c)))
                      [0..<512]) [0..<512])
                   (map (\<lambda>r. map (\<lambda>c. ref_matmul
                        (map (\<lambda>r. map (\<lambda>c. randn (r * 512 + c)) [0..<512]) [0..<512])
                        (map (\<lambda>r. map (\<lambda>c. randn (512 * 512 + r * 512 + c)) [0..<512]) [0..<512]) r c)
                      [0..<512]) [0..<512])
                   (1 / 100) 0
              then [CHR 0xE2, CHR 0x9C, CHR 0x85] @ '' Triton and Torch match''
              else [CHR 0xE2, CHR 0x9D, CHR 0x8C] @ '' Triton and Torch differ''])
       \<and> [CHR 0xE2, CHR 0x9C, CHR 0x85] @ '' Triton and Torch match''
           \<noteq> [CHR 0xE2, CHR 0x9D, CHR 0x8C] @ '' Triton and Torch differ''"
proof (intro conjI)
  show "\<exists>h1. asin_notebook asin asin' undef rand ref_asin repr fmt h = (Inr (), h1) \<and>
           stdout h1 = stdout h @
             [repr (map (\<lambda>i. ref_asin (rand i)) [0..<98432]),
              repr (map (\<lambda>i. asin (rand i)) [0..<98432]),
              ''The maximum difference between torch and triton is '' @
                fmt (Max ((\<lambda>i. \<bar>ref_asin (rand i) - asin (rand i)\<bar>) ` {..<98432})),
              repr (map (\<lambda>i. ref_asin (rand i)) [0..<98432]),
              repr (map (\<lambda>i. asin' (rand i)) [0..<98432]),
              ''The maximum difference between torch and triton is '' @
                fmt (Max ((\<lambda>i. \<bar>ref_asin (rand i) - asin' (rand i)\<bar>) ` {..<98432}))]"
    by (rule asin_notebook_run [of asin asin' undef rand ref_asin repr fmt h]) blast
  show "\<exists>h2. unit_test_cell cast oob randn ref_matmul torch_allclose reprm cfg hm = (Inr (), h2) \<and>
           stdout h2 = stdout hm @
             [''triton_output='' @ reprm
                (map (\<lambda>r. map (\<lambda>c. cast Float16
                     (\<Sum>k\<leftarrow>[0..<512]. randn (r * 512 + k) * randn (512 * 512 + k * 512 + c)))
                   [0..<512]) [0..<512]),
              ''torch_output='' @ reprm
                (map (\<lambda>r. map (\<lambda>c. ref_matmul
                     (map (\<lambda>r. map (\<lambda>c. randn (r * 512 + c)) [0..<512]) [0..<512])
                     (map (\<lambda>r. map (\<lambda>c. randn (512 * 512 + r * 512 + c)) [0..<512]) [0..<512]) r c)
                   [0..<512]) [0..<512]),
              if torch_allclose
                   (map (\<lambda>r. map (\<lambda>c. cast Float16
                        (\<Sum>k\<leftarrow>[0..<512]. randn (r * 512 + k) * randn (512 * 512 + k * 512 + c)))
                      [0..<512]) [0..<512])
                   (map (\<lambda>r. map (\<lambda>c. ref_matmul
                        (map (\<lambda>r. map (\<lambda>c. randn (r * 512 + c)) [0..<512]) [0..<512])
                        (map (\<lambda>r. map (\<lambda>c. randn (512 * 512 + r * 512 + c)) [0..<512]) [0..<512]) r c)
                      [0..<512]) [0..<512])
                   (1 / 100) 0
              then [CHR 0xE2, CHR 0x9C, CHR 0x85] @ '' Triton and Torch match''
              else [CHR 0xE2, CHR 0x9D, CHR 0x8C] @ '' Triton and Torch differ'']"
    by (rule unit_test_cell_run [OF assms, of cast oob randn ref_matmul torch_allclose reprm hm]) blast
  show "[CHR 0xE2, CHR 0x9C, CHR 0x85] @ '' Triton and Torch match''
           \<noteq> [CHR 0xE2, CHR 0x9D, CHR 0x8C] @ '' Triton and Torch differ''"
    by simp
qed

theorem notebook_final_checks_witness:
  "(\<exists>h1. asin_notebook arcsin arcsin 0 half_rand arcsin no_text no_text ones_host = (Inr (), h1) \<and>
      stdout h1 =
        [[], [], ''The maximum difference between torch and triton is '',
         [], [], ''The maximum difference between torch and triton is ''])
   \<and> (\<exists>h2. unit_test_cell exact (fill_with 0) half_rand zero_entries accepting no_text (hd configs) ones_host
           = (Inr (), h2) \<and>
      stdout h2 =
        [''triton_output='', ''torch_output='',
         [CHR 0xE2, CHR 0x9C, CHR 0x85] @ '' Triton and Torch match''])"
proof -
  note t = notebook_final_checks [OF hd_configs(1), where asin = arcsin and asin' = arcsin and undef = 0
      and rand = half_rand and ref_asin = arcsin and repr = no_text and fmt = no_text and h = ones_host
      and cast = exact and oob = "fill_with 0" and randn = half_rand and ref_matmul = zero_entries
      and torch_allclose = accepting and reprm = no_text and hm = ones_host]
  have s: "stdout ones_host = []" by (simp add: ones_host_def)
  from t have "\<exists>h1. asin_notebook arcsin arcsin 0 half_rand arcsin no_text no_text ones_host = (Inr (), h1) \<and>
      stdout h1 =
        [[], [], ''The maximum difference between torch and triton is '',
         [], [], ''The maximum difference between torch and triton is '']"
    unfolding no_text_def s by (simp only: append_Nil append_Nil2 conj_assoc) (blast?)
  moreover from t have "\<exists>h2. unit_test_cell exact (fill_with 0) half_rand zero_entries accepting no_text (hd configs) ones_host
           = (Inr (), h2) \<and>
      stdout h2 =
        [''triton_output='', ''torch_output='',
         [CHR 0xE2, CHR 0x9C, CHR 0x85] @ '' Triton and Torch match'']"
    unfolding no_text_def s accepting_def by (simp only: append_Nil append_Nil2 if_True) (blast?)
  ultimately show ?thesis by (rule conjI)
qed

end
